(* ===== verification/Cf_Prelude.thy ===== *)
theory Cf_Prelude
  imports Main "HOL-Library.Word" "HOL-Library.Sublist"
begin

text \<open>
  Shared vocabulary of the development.

  \<^item> \<open>result\<close> is the \<open>Result<T>\<close> of \<open>cuttlefish/result/result.h\<close>: a value, or an error. The error
    says whether the code returned it (\<open>CF_ERR\<close>, \<open>CF_EXPECT\<close>), or stopped the process or unwound the
    stack instead (\<open>CHECK\<close>, a C++ exception).  \<open>rbind\<close> is the early return of \<open>CF_EXPECT\<close>.
  \<^item> \<open>u64\<close>, \<open>u32\<close>, \<open>u16\<close> and \<open>byte\<close> are the fixed-width integers of the source, with their wrap-around.
  \<^item> \<open>upper_bound\<close> and \<open>set_emplace\<close> are the operations of \<open>std::set\<close> the sources use, on the
    list of the elements in the container's order.
\<close>

section \<open>Results\<close>

datatype cf_error =
    CfError string       \<comment> \<open>returned through \<open>Result\<close>\<close>
  | CheckFailure string  \<comment> \<open>\<open>CHECK\<close>, \<open>errx\<close>: the process ends here\<close>
  | StdException string  \<comment> \<open>a C++ exception\<close>
  | UndefinedBehaviour string  \<comment> \<open>the C++ has no defined meaning from here on\<close>

type_synonym 'a result = "cf_error + 'a"

named_theorems result_simps \<open>equations of the result monad\<close>

definition rbind :: "'a result \<Rightarrow> ('a \<Rightarrow> 'b result) \<Rightarrow> 'b result" where
  "rbind m f = (case m of Inl e \<Rightarrow> Inl e | Inr x \<Rightarrow> f x)"

definition cf_expect :: "bool \<Rightarrow> string \<Rightarrow> unit result" where
  "cf_expect b msg = (if b then Inr () else Inl (CfError msg))"

lemma rbind_simps [simp, result_simps]:
  "rbind (Inl e) f = Inl e"
  "rbind (Inr x) f = f x"
  by (simp_all add: rbind_def)

lemma rbind_eq_Inr [result_simps]:
  "rbind m f = Inr y \<longleftrightarrow> (\<exists>x. m = Inr x \<and> f x = Inr y)"
  by (cases m) auto

lemma rbind_eq_Inl [result_simps]:
  "rbind m f = Inl e \<longleftrightarrow> m = Inl e \<or> (\<exists>x. m = Inr x \<and> f x = Inl e)"
  by (cases m) auto

lemma rbind_assoc [result_simps]: "rbind (rbind m f) g = rbind m (\<lambda>x. rbind (f x) g)"
  by (cases m) auto

lemma rbind_cong:
  "m = m' \<Longrightarrow> (\<And>x. m' = Inr x \<Longrightarrow> f x = f' x) \<Longrightarrow> rbind m f = rbind m' f'"
  by (cases m') simp_all

lemma cf_expect_simps [simp, result_simps]:
  "cf_expect True msg = Inr ()"
  "cf_expect False msg = Inl (CfError msg)"
  "cf_expect b msg = Inr u \<longleftrightarrow> b"
  by (auto simp: cf_expect_def)

fun is_ok :: "'a result \<Rightarrow> bool" where
  "is_ok (Inr _) = True"
| "is_ok (Inl _) = False"

lemma is_ok_iff: "is_ok m \<longleftrightarrow> (\<exists>x. m = Inr x)"
  by (cases m) auto

lemma not_ok_iff: "\<not> is_ok m \<longleftrightarrow> (\<exists>e. m = Inl e)"
  by (cases m) auto

section \<open>Machine integers\<close>

type_synonym u64 = "64 word"
type_synonym u32 = "32 word"
type_synonym u16 = "16 word"
type_synonym byte = "8 word"

named_theorems word_simps \<open>words read as natural numbers\<close>

lemma unat_u64_less [simp, intro]: "unat (w :: u64) < 18446744073709551616"
  using unsigned_less [of w] by simp

lemma unat_u64_add [word_simps]:
  "unat a + unat b < 18446744073709551616 \<Longrightarrow> unat (a + b :: u64) = unat a + unat b"
  using unat_add_lem [of a b] by simp

lemma unat_u64_Suc:
  assumes "x < (y :: u64)"
  shows "unat (x + 1) = Suc (unat x)"
proof -
  have "unat x < unat y" using assms by (simp add: word_less_nat_alt)
  then have "unat x + 1 < 18446744073709551616" using unat_u64_less [of y] by linarith
  then show ?thesis using unat_u64_add [of x 1] by simp
qed

lemma u64_less_plus_1: "x \<noteq> (- 1) \<Longrightarrow> x < (x + 1 :: u64)"
  using unat_u64_Suc [of x "- 1"] word_order.not_eq_extremum [of x] by (auto simp: word_less_nat_alt)

lemma u64_less_imp_plus_1_le: "x < (y :: u64) \<Longrightarrow> x \<le> x + 1 \<and> x + 1 \<le> y"
  using unat_u64_Suc [of x y] by (simp add: word_le_nat_alt word_less_nat_alt)

lemma unat_u64_sub [word_simps]:
  "unat b \<le> unat a \<Longrightarrow> unat (a - b :: u64) = unat a - unat b"
  by (simp add: unat_sub word_le_nat_alt)

lemma unat_u64_of_nat [word_simps]:
  "n < 18446744073709551616 \<Longrightarrow> unat (of_nat n :: u64) = n"
  by (simp add: unat_of_nat take_bit_eq_mod)

lemma unat_u64_of_nat_le [word_simps]:
  "n \<le> unat (w :: u64) \<Longrightarrow> unat (of_nat n :: u64) = n"
  using unat_u64_less [of w] by (intro unat_u64_of_nat) linarith

lemma u64_of_nat_le [word_simps]:
  "n < 18446744073709551616 \<Longrightarrow> (of_nat n \<le> (w :: u64)) \<longleftrightarrow> n \<le> unat w"
  by (simp add: word_le_nat_alt unat_u64_of_nat)

lemma u64_less_of_nat [word_simps]:
  "n < 18446744073709551616 \<Longrightarrow> ((w :: u64) < of_nat n) \<longleftrightarrow> unat w < n"
  by (simp add: word_less_nat_alt unat_u64_of_nat)

lemma unat_u64_min [word_simps]: "unat (min a b :: u64) = min (unat a) (unat b)"
  by (simp add: min_def word_le_nat_alt)

lemma unat_u64_max [word_simps]: "unat (max a b :: u64) = max (unat a) (unat b)"
  by (simp add: max_def word_le_nat_alt)

text \<open>Signed 64-bit addition of two words; an overflow is undefined behaviour.\<close>

definition i64_add :: "64 word \<Rightarrow> 64 word \<Rightarrow> int result" where
  "i64_add a b =
     (let s = sint a + sint b
      in if - 9223372036854775808 \<le> s \<and> s < 9223372036854775808 then Inr s
         else Inl (UndefinedBehaviour ''signed overflow''))"

lemma sint_u64_small: "unat (w :: u64) < 9223372036854775808 \<Longrightarrow> sint w = int (unat w)"
proof -
  assume "unat w < 9223372036854775808"
  then have "int (unat w) < 9223372036854775808" by linarith
  then have "uint w < 2 ^ 63" by simp
  moreover have "- (2 ^ 63) \<le> uint w" by (rule order.trans [OF _ uint_ge_0]) simp
  ultimately show ?thesis
    using signed_take_bit_int_eq_self [of 63 "uint w"] by (simp add: sint_uint)
qed

lemma i64_add_0:
  assumes "unat (w :: u64) < 9223372036854775808"
  shows "i64_add w 0 = Inr (int (unat w))"
proof -
  have "int (unat w) < 9223372036854775808" using assms by linarith
  moreover have "- 9223372036854775808 \<le> int (unat w)" by linarith
  ultimately show ?thesis
    unfolding i64_add_def sint_u64_small [OF assms] Let_def by simp
qed

section \<open>\<open>std::set\<close> as the list of its elements in order\<close>

definition upper_bound :: "'a::linorder list \<Rightarrow> 'a \<Rightarrow> 'a list \<times> 'a list" where
  \<comment> \<open>The elements before the iterator, and those from the iterator on.\<close>
  "upper_bound xs x = (takeWhile (\<lambda>y. \<not> x < y) xs, dropWhile (\<lambda>y. \<not> x < y) xs)"

fun set_emplace :: "'a::linorder \<Rightarrow> 'a list \<Rightarrow> 'a list" where
  "set_emplace x [] = [x]"
| "set_emplace x (y # ys) =
     (if x < y then x # y # ys else if y < x then y # set_emplace x ys else y # ys)"

lemma upper_bound_append: "upper_bound xs x = (pre, post) \<Longrightarrow> xs = pre @ post"
  by (auto simp: upper_bound_def)

lemma upper_bound_pre: "upper_bound xs x = (pre, post) \<Longrightarrow> y \<in> set pre \<Longrightarrow> y \<le> x"
  by (auto simp: upper_bound_def dest: set_takeWhileD)

lemma upper_bound_post:
  assumes "upper_bound xs x = (pre, post)" and "sorted xs" and "y \<in> set post"
  shows "x < y"
proof -
  from assms(1) have post: "post = dropWhile (\<lambda>y. \<not> x < y) xs"
    by (simp add: upper_bound_def)
  from assms(3) have ne: "post \<noteq> []" by auto
  then have hd: "x < hd post"
    using hd_dropWhile [of "\<lambda>y. \<not> x < y" xs] by (simp add: post)
  have "sorted post" using assms(2) by (simp add: post sorted_wrt_dropWhile)
  with assms(3) ne have "hd post \<le> y"
    by (cases post) auto
  with hd show ?thesis by simp
qed

lemma set_set_emplace: "set (set_emplace x xs) = insert x (set xs)"
  by (induction xs) auto

lemma set_emplace_strict_sorted: "sorted_wrt (<) xs \<Longrightarrow> sorted_wrt (<) (set_emplace x xs)"
  by (induction xs) (auto simp: set_set_emplace)

lemma set_emplace_middle:
  "\<forall>y \<in> set pre. y < x \<Longrightarrow> \<forall>y \<in> set post. x < y \<Longrightarrow>
   set_emplace x (pre @ post) = pre @ x # post"
proof (induction pre)
  case Nil
  then show ?case by (cases post) auto
next
  case (Cons y ys)
  then show ?case by (auto dest: less_asym)
qed

section \<open>\<open>std::map\<close> as the list of its entries in key order\<close>

fun map_assign :: "'k::linorder \<Rightarrow> 'v \<Rightarrow> ('k \<times> 'v) list \<Rightarrow> ('k \<times> 'v) list" where
  \<comment> \<open>\<open>m[k] = v\<close>\<close>
  "map_assign k v [] = [(k, v)]"
| "map_assign k v ((k', v') # m) =
     (if k < k' then (k, v) # (k', v') # m
      else if k' < k then (k', v') # map_assign k v m else (k, v) # m)"

definition map_emplace :: "'k::linorder \<Rightarrow> 'v \<Rightarrow> ('k \<times> 'v) list \<Rightarrow> ('k \<times> 'v) list" where
  \<comment> \<open>\<open>m.emplace(k, v)\<close>: an entry that is already there stays.\<close>
  "map_emplace k v m = (if map_of m k = None then map_assign k v m else m)"

lemma map_of_map_assign: "sorted (map fst m) \<Longrightarrow> map_of (map_assign k v m) = (map_of m)(k \<mapsto> v)"
proof (induction m rule: map_assign.induct [of _ k v])
  case (2 k v k' v' m)
  have "k \<notin> fst ` set m" if "k < k'"
    using "2.prems" that by (auto dest: leD)
  then show ?case using "2" by (auto simp: fun_eq_iff)
qed auto

lemma set_fst_map_assign: "fst ` set (map_assign k v m) = insert k (fst ` set m)"
  by (induction k v m rule: map_assign.induct) auto

lemma map_assign_nonempty [simp]: "map_assign k v m \<noteq> []"
  by (induction k v m rule: map_assign.induct) auto

lemma map_assign_strict:
  "sorted_wrt (<) (map fst m) \<Longrightarrow> sorted_wrt (<) (map fst (map_assign k v m))"
proof (induction k v m rule: map_assign.induct)
  case (2 k v k' v' m)
  have "k' < x" if "k' < k" "x \<in> fst ` set (map_assign k v m)" for x
    using that "2.prems" by (auto simp: set_fst_map_assign)
  with 2 show ?case by (force dest: order.strict_trans)
qed auto

lemma map_assign_last:
  "\<forall>k \<in> set (map fst m). k < off \<Longrightarrow> map_assign off r m = m @ [(off, r)]"
  "\<forall>k \<in> set (map fst m). k < off \<Longrightarrow> map_assign off r (m @ [(off, r')]) = m @ [(off, r)]"
  by (induction m) (auto dest: less_asym)

lemma sorted_wrt_map_filter: "sorted_wrt R (map f xs) \<Longrightarrow> sorted_wrt R (map f (filter P xs))"
  by (induction xs) auto

lemma map_of_map_emplace:
  "sorted (map fst m) \<Longrightarrow>
   map_of (map_emplace k v m) = (if map_of m k = None then (map_of m)(k \<mapsto> v) else map_of m)"
  by (simp add: map_emplace_def map_of_map_assign)

lemma map_emplace_strict:
  "sorted_wrt (<) (map fst m) \<Longrightarrow> sorted_wrt (<) (map fst (map_emplace k v m))"
  by (simp add: map_emplace_def map_assign_strict)

end
