(* ===== verification/Disjoint_Range_Set.thy ===== *)
theory Disjoint_Range_Set
  imports Cf_Prelude
begin

text \<open>
  The set of half-open ranges of \<open>cuttlefish/io/disjoint_range_set.cc\<close>, which records the parts of
  a lazily downloaded file that are already present, and its serialized form of
  \<open>cuttlefish/io/serialize_disjoint_range_set.cc\<close>.

  A \<open>std::set<Range>\<close> is the list of its elements in the order of \<open>Range::operator<\<close>.  The lemmas
  show that the ranges stay disjoint and non-adjacent, and that every operation computes the set
  operation it stands for on the numbers the ranges cover.
\<close>

section \<open>Ranges\<close>

datatype Range = Range (r_start: u64) (r_end: u64)

definition Contains :: "Range \<Rightarrow> Range \<Rightarrow> bool" where
  "Contains r other \<longleftrightarrow> r_start r \<le> r_start other \<and> r_end r \<ge> r_end other"

definition CanMerge :: "Range \<Rightarrow> Range \<Rightarrow> bool" where
  "CanMerge r other \<longleftrightarrow> r_start r \<le> r_end other \<and> r_start other \<le> r_end r"

definition Merge :: "Range \<Rightarrow> Range \<Rightarrow> Range" where
  "Merge r other = Range (min (r_start r) (r_start other)) (max (r_end r) (r_end other))"

definition AsPair :: "Range \<Rightarrow> u64 \<times> u64" where
  "AsPair r = (r_start r, r_end r)"

text \<open>\<open>Range::operator<\<close>: by start, and for equal starts the longer range first.\<close>

definition Range_less :: "Range \<Rightarrow> Range \<Rightarrow> bool" where
  "Range_less r other \<longleftrightarrow>
     r_start r < r_start other \<or> (r_start r = r_start other \<and> r_end r > r_end other)"

instantiation Range :: linorder
begin

definition less_Range :: "Range \<Rightarrow> Range \<Rightarrow> bool" where
  "less_Range = Range_less"

definition less_eq_Range :: "Range \<Rightarrow> Range \<Rightarrow> bool" where
  "less_eq_Range r s \<longleftrightarrow> Range_less r s \<or> r = s"

instance
  by standard
    (auto simp: less_Range_def less_eq_Range_def Range_less_def, metis Range.expand linorder_less_linear)

end

section \<open>The set\<close>

type_synonym ranges = "Range list"

definition ContainsRange :: "ranges \<Rightarrow> u64 \<Rightarrow> u64 \<Rightarrow> bool result" where
  "ContainsRange ranges start end =
     (if \<not> start \<le> end then Inl (CheckFailure ''Invalid range: expected start <= end'')
      else if ranges = [] then Inr False
      else
        let range = Range start end;
            (before, after) = upper_bound ranges range;
            it = (if before \<noteq> [] then last before else hd after)
        in Inr (Contains it range))"

text \<open>The loop that absorbs the ranges after the insertion point.\<close>

fun merge_forward :: "Range \<Rightarrow> Range list \<Rightarrow> Range \<times> Range list" where
  "merge_forward new_range [] = (new_range, [])"
| "merge_forward new_range (it # rest) =
     (if CanMerge new_range it then merge_forward (Merge new_range it) rest
      else (new_range, it # rest))"

text \<open>The step that absorbs the one range before the insertion point.\<close>

definition merge_back :: "Range \<Rightarrow> Range list \<Rightarrow> Range \<times> Range list" where
  "merge_back new_range before =
     (if before \<noteq> [] \<and> CanMerge new_range (last before)
      then (Merge new_range (last before), butlast before)
      else (new_range, before))"

definition InsertRange :: "ranges \<Rightarrow> u64 \<Rightarrow> u64 \<Rightarrow> ranges result" where
  "InsertRange ranges start end =
     (if \<not> start \<le> end then Inl (CheckFailure ''Invalid range: expected start <= end'')
      else rbind (ContainsRange ranges start end) (\<lambda>contained.
        if contained then Inr ranges
        else
          let new_range = Range start end;
              (before, after) = upper_bound ranges new_range;
              (new_range, after) = merge_forward new_range after;
              (new_range, before) = merge_back new_range before
          in Inr (set_emplace new_range (before @ after))))"

definition EndOfContainingRange :: "ranges \<Rightarrow> u64 \<Rightarrow> u64 option" where
  "EndOfContainingRange ranges start =
     (let test = Range start (start + 1);
          (before, after) = upper_bound ranges test
      in if before = [] then None
         else if Contains (last before) test then Some (r_end (last before)) else None)"

definition AllRanges :: "ranges \<Rightarrow> (u64 \<times> u64) list" where
  "AllRanges ranges = map AsPair ranges"

section \<open>Serialization\<close>

text \<open>
  The protocol buffer code is generated: \<open>SerializeAsString\<close> and \<open>ParseFromString\<close> of
  \<open>DisjointRangeList\<close>, whose only field is the repeated pairs, are parameters.
\<close>

definition Serialize :: "((u64 \<times> u64) list \<Rightarrow> string) \<Rightarrow> ranges \<Rightarrow> string" where
  "Serialize SerializeAsString range_set = SerializeAsString (AllRanges range_set)"

fun insert_members :: "ranges \<Rightarrow> (u64 \<times> u64) list \<Rightarrow> ranges result" where
  "insert_members s [] = Inr s"
| "insert_members s ((start, end) # rest) =
     rbind (InsertRange s start end) (\<lambda>s'. insert_members s' rest)"

definition DeserializeDisjointRangeSet ::
    "(string \<Rightarrow> (u64 \<times> u64) list option) \<Rightarrow> string \<Rightarrow> ranges result" where
  "DeserializeDisjointRangeSet ParseFromString data =
     (case ParseFromString data of
        None \<Rightarrow> Inl (CfError ''ParseFromString'')
      | Some members \<Rightarrow> insert_members [] members)"

text \<open>An encoding of the message as binary digits, to show that such an encoding exists.\<close>

definition print_u64 :: "u64 \<Rightarrow> string" where
  "print_u64 w = map (\<lambda>i. if bit w i then CHR ''1'' else CHR ''0'') [0..<64]"

definition parse_u64 :: "string \<Rightarrow> u64" where
  "parse_u64 cs = horner_sum of_bool 2 (map (\<lambda>c. c = CHR ''1'') cs)"

definition print_pairs :: "(u64 \<times> u64) list \<Rightarrow> string" where
  "print_pairs ms = concat (map (\<lambda>(a, b). print_u64 a @ print_u64 b) ms)"

function parse_pairs :: "string \<Rightarrow> (u64 \<times> u64) list option" where
  "parse_pairs cs =
     (if cs = [] then Some []
      else if length cs < 128 then None
      else map_option ((#) (parse_u64 (take 64 cs), parse_u64 (take 64 (drop 64 cs))))
             (parse_pairs (drop 128 cs)))"
  by pat_completeness auto
termination
  by (relation "measure length") auto

declare parse_pairs.simps [simp del]

lemma parse_print_u64: "parse_u64 (print_u64 w) = w"
proof -
  have "map (\<lambda>c. c = CHR ''1'') (print_u64 w) = map (bit w) [0..<64]"
    by (simp add: print_u64_def)
  then show ?thesis
    by (simp only: parse_u64_def horner_sum_bit_eq_take_bit) (simp add: take_bit_length_eq [where 'a = 64, simplified])
qed

lemma length_print_u64 [simp]: "length (print_u64 w) = 64"
  by (simp add: print_u64_def)

lemma print_u64_nonempty [simp]: "print_u64 w \<noteq> []"
  by (simp add: print_u64_def)

lemma parse_print_pairs: "parse_pairs (print_pairs ms) = Some ms"
proof (induction ms)
  case (Cons m ms)
  obtain a b where m: "m = (a, b)" by (cases m)
  define rest where "rest = print_pairs ms"
  have "parse_pairs (print_u64 a @ print_u64 b @ rest) = Some ((a, b) # ms)"
    using Cons.IH by (subst parse_pairs.simps) (simp add: parse_print_u64 rest_def)
  then show ?case by (simp add: m print_pairs_def rest_def)
qed (simp add: print_pairs_def parse_pairs.simps)

section \<open>Invariant and meaning\<close>

text \<open>Every range is ordered, and a gap separates each range from the next.\<close>

definition drs_inv :: "ranges \<Rightarrow> bool" where
  "drs_inv rs \<longleftrightarrow> (\<forall>r \<in> set rs. r_start r \<le> r_end r) \<and> sorted_wrt (\<lambda>r s. r_end r < r_start s) rs"

text \<open>The numbers a set of ranges covers.\<close>

definition covered :: "ranges \<Rightarrow> u64 set" where
  "covered rs = (\<Union>r \<in> set rs. {r_start r ..< r_end r})"


lemma drs_inv_Nil [simp]: "drs_inv []"
  by (simp add: drs_inv_def)

lemma drs_inv_Cons:
  "drs_inv (r # rs) \<longleftrightarrow> r_start r \<le> r_end r \<and> (\<forall>s \<in> set rs. r_end r < r_start s) \<and> drs_inv rs"
  by (auto simp: drs_inv_def)

lemma drs_inv_append:
  "drs_inv (rs @ ss) \<longleftrightarrow>
     drs_inv rs \<and> drs_inv ss \<and> (\<forall>r \<in> set rs. \<forall>s \<in> set ss. r_end r < r_start s)"
  by (auto simp: drs_inv_def sorted_wrt_append)

lemma covered_simps [simp]:
  "covered [] = {}"
  "covered (r # rs) = {r_start r ..< r_end r} \<union> covered rs"
  "covered (rs @ ss) = covered rs \<union> covered ss"
  by (auto simp: covered_def)

lemma drs_inv_sorted: "drs_inv rs \<Longrightarrow> sorted rs"
  by (induction rs)
    (auto simp: drs_inv_Cons less_eq_Range_def Range_less_def dest!: bspec)

lemma Merge_sel [simp]:
  "r_start (Merge r s) = min (r_start r) (r_start s)"
  "r_end (Merge r s) = max (r_end r) (r_end s)"
  by (simp_all add: Merge_def)

text \<open>Merging two ranges that touch adds no number.\<close>

lemma Merge_covers:
  assumes "CanMerge r s" "r_start r \<le> r_end r" "r_start s \<le> r_end s"
  shows "{r_start (Merge r s) ..< r_end (Merge r s)} =
         {r_start r ..< r_end r} \<union> {r_start s ..< r_end s}"
  using assms by (auto simp: CanMerge_def min_def max_def split: if_splits)

lemma merge_forward_spec:
  assumes "merge_forward new after = (new', rest)" "drs_inv after"
    and "r_start new \<le> r_end new" "\<forall>s \<in> set after. r_start new \<le> r_start s"
  shows "r_start new' = r_start new \<and> r_end new \<le> r_end new' \<and>
    {r_start new' ..< r_end new'} \<union> covered rest = {r_start new ..< r_end new} \<union> covered after \<and>
    drs_inv rest \<and> (\<forall>s \<in> set rest. r_end new' < r_start s) \<and> set rest \<subseteq> set after"
  using assms
proof (induction new after rule: merge_forward.induct)
  case (1 new)
  then show ?case by auto
next
  case (2 new it more)
  show ?case
  proof (cases "CanMerge new it")
    case True
    have M: "{r_start (Merge new it) ..< r_end (Merge new it)} =
        {r_start new ..< r_end new} \<union> {r_start it ..< r_end it}"
      using True "2.prems" by (intro Merge_covers) (auto simp: drs_inv_Cons)
    have st: "r_start (Merge new it) = r_start new"
      using "2.prems"(4) by simp
    have "merge_forward (Merge new it) more = (new', rest)"
      using True "2.prems"(1) by simp
    moreover have "r_start (Merge new it) \<le> r_end (Merge new it)"
      using "2.prems"(3) st by (simp add: le_max_iff_disj)
    moreover have "\<forall>s \<in> set more. r_start (Merge new it) \<le> r_start s"
      using "2.prems"(4) unfolding st by simp
    moreover have "drs_inv more" using "2.prems"(2) by (simp add: drs_inv_Cons)
    ultimately show ?thesis
      using "2.IH" [OF True] M st by (auto simp: Un_assoc)
  next
    case False
    then have eq: "new' = new" "rest = it # more" using "2.prems"(1) by auto
    have gap: "r_end new < r_start it"
      using False "2.prems"(2,4) by (auto simp: CanMerge_def drs_inv_Cons)
    have "r_end new < r_start s" if "s \<in> set more" for s
      using gap "2.prems"(2) that by (auto simp: drs_inv_Cons intro: less_trans le_less_trans)
    then show ?thesis using "2.prems"(2) gap by (auto simp: eq)
  qed
qed

lemma drs_inv_disjoint:
  "drs_inv rs \<Longrightarrow> r \<in> set rs \<Longrightarrow> s \<in> set rs \<Longrightarrow> r \<noteq> s \<Longrightarrow>
   r_end r < r_start s \<or> r_end s < r_start r"
  by (induction rs) (auto simp: drs_inv_Cons)

lemma drs_inv_ordered: "drs_inv rs \<Longrightarrow> r \<in> set rs \<Longrightarrow> r_start r \<le> r_end r"
  by (simp add: drs_inv_def)

lemma Contains_not_less: "Contains r s \<Longrightarrow> \<not> s < r"
  by (auto simp: Contains_def less_Range_def Range_less_def)

lemma le_Range_start: "r \<le> s \<Longrightarrow> r_start r \<le> r_start s"
  by (auto simp: less_eq_Range_def Range_less_def)

text \<open>A range that contains another is the last one not after it.\<close>

lemma container_is_last:
  assumes inv: "drs_inv rs" and ub: "upper_bound rs (Range a b) = (before, after)" and "a \<le> b"
    and r: "r \<in> set rs" "Contains r (Range a b)"
  shows "before \<noteq> [] \<and> r = last before"
proof -
  have rs: "rs = before @ after" using ub by (rule upper_bound_append)
  have "r \<notin> set after"
    using upper_bound_post [OF ub drs_inv_sorted [OF inv]] Contains_not_less [OF r(2)] by blast
  then have mem: "r \<in> set before" using r(1) by (simp add: rs)
  then have ne: "before \<noteq> []" by auto
  then have l: "last before \<in> set rs" by (simp add: rs)
  have "r_start (last before) \<le> a"
    using upper_bound_pre [OF ub last_in_set [OF ne]] le_Range_start by fastforce
  then have "\<not> r_end r < r_start (last before)"
    using r(2) \<open>a \<le> b\<close> by (auto simp: Contains_def)
  moreover have "\<not> r_end (last before) < r_start r" if "r \<noteq> last before"
  proof -
    have "before = butlast before @ [last before]" using ne by simp
    moreover from this have "r \<in> set (butlast before)"
      using mem that by (metis UnE empty_iff insert_iff list.set set_append)
    ultimately have "r_end r < r_start (last before)"
      using inv unfolding rs by (metis drs_inv_append list.set_intros(1))
    then show ?thesis
      using drs_inv_ordered [OF inv r(1)] drs_inv_ordered [OF inv l] by simp
  qed
  ultimately show ?thesis
    using drs_inv_disjoint [OF inv r(1) l] ne by blast
qed

lemma ContainsRange_eq:
  assumes inv: "drs_inv rs" and "a \<le> b"
  shows "ContainsRange rs a b = Inr (\<exists>r \<in> set rs. Contains r (Range a b))"
proof (cases "rs = []")
  case True
  then show ?thesis using assms by (simp add: ContainsRange_def)
next
  case False
  obtain before after where ub: "upper_bound rs (Range a b) = (before, after)"
    by (cases "upper_bound rs (Range a b)")
  have rs: "rs = before @ after" using ub by (rule upper_bound_append)
  define it where "it = (if before \<noteq> [] then last before else hd after)"
  have "it \<in> set rs" using False by (auto simp: it_def rs)
  then have "Contains it (Range a b) \<longleftrightarrow> (\<exists>r \<in> set rs. Contains r (Range a b))"
    using container_is_last [OF inv ub \<open>a \<le> b\<close>] by (metis it_def)
  then show ?thesis
    using False \<open>a \<le> b\<close> by (simp add: ContainsRange_def ub it_def [symmetric])
qed

lemma container_iff_covered:
  assumes inv: "drs_inv rs" and "a < b"
  shows "(\<exists>r \<in> set rs. Contains r (Range a b)) \<longleftrightarrow> {a ..< b} \<subseteq> covered rs"
proof
  assume "\<exists>r \<in> set rs. Contains r (Range a b)"
  then show "{a ..< b} \<subseteq> covered rs"
    by (force simp: Contains_def covered_def)
next
  assume cov: "{a ..< b} \<subseteq> covered rs"
  with \<open>a < b\<close> have "a \<in> covered rs" by auto
  then obtain r where r: "r \<in> set rs" "r_start r \<le> a" "a < r_end r"
    by (auto simp: covered_def)
  have "b \<le> r_end r"
  proof (rule ccontr)
    assume "\<not> b \<le> r_end r"
    then have "r_end r \<in> {a ..< b}" using r by auto
    then have "r_end r \<in> covered rs" using cov by blast
    then obtain s where s: "s \<in> set rs" "r_start s \<le> r_end r" "r_end r < r_end s"
      by (auto simp: covered_def)
    then have "r \<noteq> s" by auto
    with drs_inv_disjoint [OF inv r(1) s(1)] s r show False by auto
  qed
  with r show "\<exists>r \<in> set rs. Contains r (Range a b)" by (auto simp: Contains_def)
qed

lemma drs_inv_last_end: "drs_inv rs \<Longrightarrow> r \<in> set rs \<Longrightarrow> r_end r \<le> r_end (last rs)"
proof (induction rs)
  case (Cons s rs)
  show ?case
  proof (cases "rs = []")
    case False
    then have "r_end s < r_start (last rs)" "r_start (last rs) \<le> r_end (last rs)"
      using Cons.prems(1) by (auto simp: drs_inv_Cons drs_inv_ordered)
    then have "r_end s \<le> r_end (last rs)" by simp
    then show ?thesis using Cons False by (auto simp: drs_inv_Cons)
  qed (use Cons.prems in simp)
qed simp

lemma merge_back_spec:
  assumes mb: "merge_back new before = (n, bs)" and inv: "drs_inv before"
    and ord: "r_start new \<le> r_end new" and st: "\<And>r. r \<in> set before \<Longrightarrow> r_start r \<le> r_start new"
  shows "{r_start n ..< r_end n} \<union> covered bs = {r_start new ..< r_end new} \<union> covered before"
    and "drs_inv bs" and "\<And>r. r \<in> set bs \<Longrightarrow> r_end r < r_start n" and "r_start n \<le> r_end n"
    and "r_end n = r_end new \<or> (\<exists>r \<in> set before. r_end n = r_end r)"
proof -
  define l where "l = last before"
  have "({r_start n ..< r_end n} \<union> covered bs = {r_start new ..< r_end new} \<union> covered before) \<and>
    drs_inv bs \<and> (\<forall>r \<in> set bs. r_end r < r_start n) \<and> r_start n \<le> r_end n \<and>
    (r_end n = r_end new \<or> (\<exists>r \<in> set before. r_end n = r_end r))"
  proof (cases "before \<noteq> [] \<and> CanMerge new l")
    case True
    then have n: "n = Merge new l" and bs: "bs = butlast before" and b: "before = bs @ [l]"
      using mb by (auto simp: merge_back_def l_def)
    have i: "drs_inv bs" "r_start l \<le> r_end l" "\<forall>r \<in> set bs. r_end r < r_start l"
      using inv by (auto simp: b drs_inv_append drs_inv_Cons)
    have "r_start l \<le> r_start new" by (rule st) (simp add: b)
    then have "r_start n = r_start l" by (simp add: n min_def)
    moreover have "{r_start n ..< r_end n} = {r_start new ..< r_end new} \<union> {r_start l ..< r_end l}"
      unfolding n using True ord i(2) by (intro Merge_covers) auto
    moreover have "r_start n \<le> r_end n" using ord by (auto simp: n min_def max_def)
    moreover have "r_end n = r_end new \<or> r_end n = r_end l" by (simp add: n max_def)
    ultimately show ?thesis using i by (auto simp: b)
  next
    case False
    then have eq: "n = new" "bs = before" using mb by (auto simp: merge_back_def l_def)
    have "r_end r < r_start new" if r: "r \<in> set before" for r
    proof -
      have ne: "before \<noteq> []" using r by auto
      then have "l \<in> set before" by (simp add: l_def)
      then have "r_end l < r_start new" using ne False st [of l] ord by (auto simp: CanMerge_def)
      with drs_inv_last_end [OF inv r] show ?thesis by (simp add: l_def)
    qed
    with inv ord show ?thesis by (simp add: eq)
  qed
  then show "{r_start n ..< r_end n} \<union> covered bs = {r_start new ..< r_end new} \<union> covered before"
    and "drs_inv bs" and "\<And>r. r \<in> set bs \<Longrightarrow> r_end r < r_start n" and "r_start n \<le> r_end n"
    and "r_end n = r_end new \<or> (\<exists>r \<in> set before. r_end n = r_end r)"
    by blast+
qed

lemma emplace_between:
  assumes n: "r_start n \<le> r_end n" "\<And>s. s \<in> set rest \<Longrightarrow> r_end n < r_start s"
    and bs: "drs_inv bs" "\<And>r. r \<in> set bs \<Longrightarrow> r_end r < r_start n" and "drs_inv rest"
  shows "set_emplace n (bs @ rest) = bs @ n # rest" and "drs_inv (bs @ n # rest)"
proof -
  show "set_emplace n (bs @ rest) = bs @ n # rest"
  proof (rule set_emplace_middle; intro ballI)
    fix r assume "r \<in> set bs"
    then show "r < n"
      using bs(2) drs_inv_ordered [OF bs(1)] by (fastforce simp: less_Range_def Range_less_def)
  next
    fix s assume "s \<in> set rest"
    then show "n < s"
      using n by (fastforce simp: less_Range_def Range_less_def)
  qed
  show "drs_inv (bs @ n # rest)"
    using assms by (fastforce simp: drs_inv_append drs_inv_Cons)
qed

lemma InsertRange_spec:
  assumes inv: "drs_inv rs" and "a \<le> b"
  shows "\<exists>rs'. InsertRange rs a b = Inr rs' \<and> drs_inv rs' \<and> covered rs' = covered rs \<union> {a ..< b}"
proof (cases "\<exists>r \<in> set rs. Contains r (Range a b)")
  case True
  then have "{a ..< b} \<subseteq> covered rs" by (force simp: Contains_def covered_def)
  with True assms show ?thesis
    by (auto simp: InsertRange_def ContainsRange_eq)
next
  case False
  obtain before after where ub: "upper_bound rs (Range a b) = (before, after)"
    by (cases "upper_bound rs (Range a b)")
  have rs: "rs = before @ after" using ub by (rule upper_bound_append)
  obtain new rest where mf: "merge_forward (Range a b) after = (new, rest)"
    by (cases "merge_forward (Range a b) after")
  obtain n bs where mb: "merge_back new before = (n, bs)"
    by (cases "merge_back new before")
  have inv': "drs_inv before" "drs_inv after"
      "\<And>r s. r \<in> set before \<Longrightarrow> s \<in> set after \<Longrightarrow> r_end r < r_start s"
    using inv by (auto simp: rs drs_inv_append)
  have "\<forall>s \<in> set after. a \<le> r_start s"
    using upper_bound_post [OF ub drs_inv_sorted [OF inv]]
    by (fastforce simp: less_Range_def Range_less_def)
  then have new: "r_start new = a" "b \<le> r_end new"
      "{a ..< r_end new} \<union> covered rest = {a ..< b} \<union> covered after"
      "drs_inv rest" "\<And>s. s \<in> set rest \<Longrightarrow> r_end new < r_start s" "set rest \<subseteq> set after"
    using merge_forward_spec [OF mf inv'(2)] \<open>a \<le> b\<close> by auto
  have ord: "r_start new \<le> r_end new" using new(1,2) \<open>a \<le> b\<close> by simp
  have st: "r_start r \<le> r_start new" if "r \<in> set before" for r
    using upper_bound_pre [OF ub that] le_Range_start new(1) by fastforce
  note mbs = merge_back_spec [OF mb inv'(1) ord st]
  have "r_end n < r_start s" if "s \<in> set rest" for s
    using mbs(5) new(5) [OF that] inv'(3) new(6) that by auto
  note place = emplace_between [OF mbs(4) this mbs(2,3) new(4)]
  have "InsertRange rs a b = Inr (bs @ n # rest)"
    using False assms place(1) by (simp add: InsertRange_def ContainsRange_eq ub mf mb)
  moreover have "covered (bs @ n # rest) = covered rs \<union> {a ..< b}"
    using mbs(1) new(3) by (auto simp: rs new(1))
  ultimately show ?thesis using place(2) by auto
qed

lemma EndOfContainingRange_Some:
  assumes inv: "drs_inv rs" and r: "r \<in> set rs" "r_start r \<le> x" "x < r_end r"
  shows "EndOfContainingRange rs x = Some (r_end r)"
proof -
  obtain before after where ub: "upper_bound rs (Range x (x + 1)) = (before, after)"
    by (cases "upper_bound rs (Range x (x + 1))")
  have "x \<le> x + 1" "x + 1 \<le> r_end r"
    using r(3) u64_less_imp_plus_1_le [of x "r_end r"] by simp_all
  then have "Contains r (Range x (x + 1))" using r(2) by (simp add: Contains_def)
  with container_is_last [OF inv ub \<open>x \<le> x + 1\<close> r(1)] show ?thesis
    by (auto simp: EndOfContainingRange_def ub)
qed

lemma EndOfContainingRange_None:
  assumes inv: "drs_inv rs" and x: "x \<notin> covered rs" "x \<noteq> (- 1)"
  shows "EndOfContainingRange rs x = None"
proof -
  obtain before after where ub: "upper_bound rs (Range x (x + 1)) = (before, after)"
    by (cases "upper_bound rs (Range x (x + 1))")
  have "x < x + 1" using x(2) by (rule u64_less_plus_1)
  then have "\<not> Contains (last before) (Range x (x + 1))" if "before \<noteq> []"
    using x(1) upper_bound_append [OF ub] last_in_set [OF that]
    by (force simp: Contains_def covered_def)
  then show ?thesis by (simp add: EndOfContainingRange_def ub)
qed

text \<open>Inserting the members of a set in order rebuilds it.\<close>

lemma InsertRange_append:
  assumes inv: "drs_inv (rs @ [r])"
  shows "InsertRange rs (r_start r) (r_end r) = Inr (rs @ [r])"
proof -
  have i: "drs_inv rs" "r_start r \<le> r_end r" and gap: "\<And>s. s \<in> set rs \<Longrightarrow> r_end s < r_start r"
    using inv by (auto simp: drs_inv_append drs_inv_Cons)
  have nc: "\<not> (\<exists>s \<in> set rs. Contains s (Range (r_start r) (r_end r)))"
    using gap i(2) by (fastforce simp: Contains_def)
  have "\<not> r < s" if "s \<in> set rs" for s
    using gap [OF that] drs_inv_ordered [OF i(1) that] by (auto simp: less_Range_def Range_less_def)
  then have ub: "upper_bound rs r = (rs, [])"
    by (auto simp: upper_bound_def takeWhile_eq_all_conv dropWhile_eq_Nil_conv)
  have mb: "merge_back r rs = (r, rs)"
    using gap last_in_set [of rs] by (fastforce simp: merge_back_def CanMerge_def)
  have "set_emplace r (rs @ []) = rs @ [r]"
    using i gap by (intro emplace_between(1)) auto
  with nc i ub mb show ?thesis
    by (simp add: InsertRange_def ContainsRange_eq)
qed

lemma insert_members_append:
  "drs_inv (rs @ ss) \<Longrightarrow> insert_members rs (AllRanges ss) = Inr (rs @ ss)"
proof (induction ss arbitrary: rs)
  case (Cons s ss)
  then have "drs_inv (rs @ [s])" and inv: "drs_inv ((rs @ [s]) @ ss)"
    by (auto simp: drs_inv_append drs_inv_Cons)
  with Cons.IH [OF inv] show ?case
    by (simp add: AllRanges_def AsPair_def InsertRange_append)
qed (simp add: AllRanges_def)

lemma insert_members_spec:
  "drs_inv rs \<Longrightarrow> \<forall>(a, b) \<in> set ms. a \<le> b \<Longrightarrow>
   \<exists>rs'. insert_members rs ms = Inr rs' \<and> drs_inv rs' \<and>
     covered rs' = covered rs \<union> (\<Union>(a, b) \<in> set ms. {a ..< b})"
proof (induction rs ms rule: insert_members.induct)
  case (2 rs a b ms)
  then obtain rs1 where rs1: "InsertRange rs a b = Inr rs1" "drs_inv rs1"
      "covered rs1 = covered rs \<union> {a ..< b}"
    using InsertRange_spec [of rs a b] by auto
  with "2.IH" [OF rs1(2)] "2.prems"(2) show ?case by (auto simp: Un_assoc)
qed auto

section \<open>Properties\<close>

text \<open>C4. Inserting \<open>[a, b)\<close> into a well-formed set succeeds and gives a well-formed set (ordered,
  disjoint, non-adjacent ranges) that covers exactly the old numbers and those of \<open>[a, b)\<close>; a later
  \<open>ContainsRange\<close> of a non-empty range answers exactly whether all its numbers are covered.\<close>

theorem InsertRange_correct:
  assumes "drs_inv rs" and "a \<le> b"
  shows "\<exists>rs'. InsertRange rs a b = Inr rs' \<and> drs_inv rs' \<and> covered rs' = covered rs \<union> {a ..< b} \<and>
           (\<forall>c d. c < d \<longrightarrow> ContainsRange rs' c d = Inr ({c ..< d} \<subseteq> covered rs \<union> {a ..< b}))"
proof -
  obtain rs' where "InsertRange rs a b = Inr rs'" "drs_inv rs'" "covered rs' = covered rs \<union> {a ..< b}"
    using InsertRange_spec [OF assms] by auto
  then show ?thesis
    by (auto simp: ContainsRange_eq container_iff_covered)
qed

theorem InsertRange_correct_witness:
  "\<exists>rs'. InsertRange [Range 2 5, Range 8 9] 5 8 = Inr rs' \<and> drs_inv rs' \<and>
     covered rs' = covered [Range 2 5, Range 8 9] \<union> {5 ..< 8} \<and>
     (\<forall>c d. c < d \<longrightarrow>
       ContainsRange rs' c d = Inr ({c ..< d} \<subseteq> covered [Range 2 5, Range 8 9] \<union> {5 ..< 8}))"
  by (rule InsertRange_correct) (simp_all add: drs_inv_def)

text \<open>C22. For a position below the largest 64-bit number, \<open>EndOfContainingRange\<close> returns the end of the
  covered run that starts there: everything up to it is covered and it is not; and it returns nothing
  exactly when the position is not covered.\<close>

theorem EndOfContainingRange_correct:
  assumes "drs_inv rs" and "x \<noteq> - 1"
  shows "case EndOfContainingRange rs x of
           None \<Rightarrow> x \<notin> covered rs
         | Some e \<Rightarrow> x < e \<and> {x ..< e} \<subseteq> covered rs \<and> e \<notin> covered rs"
proof (cases "x \<in> covered rs")
  case False
  with assms show ?thesis by (simp add: EndOfContainingRange_None)
next
  case True
  then obtain r where r: "r \<in> set rs" "r_start r \<le> x" "x < r_end r"
    by (auto simp: covered_def)
  have "r_end r \<notin> covered rs"
  proof
    assume "r_end r \<in> covered rs"
    then obtain s where "s \<in> set rs" "r_start s \<le> r_end r" "r_end r < r_end s"
      by (auto simp: covered_def)
    with drs_inv_disjoint [OF assms(1) r(1), of s] r show False
      by (cases "r = s") auto
  qed
  moreover have "{x ..< r_end r} \<subseteq> covered rs"
    using r by (force simp: covered_def)
  ultimately show ?thesis
    using EndOfContainingRange_Some [OF assms(1) r] r(3) by simp
qed

theorem EndOfContainingRange_correct_witness:
  "case EndOfContainingRange [Range 2 5] 3 of
     None \<Rightarrow> 3 \<notin> covered [Range 2 5]
   | Some e \<Rightarrow> 3 < e \<and> {3 ..< e} \<subseteq> covered [Range 2 5] \<and> e \<notin> covered [Range 2 5]"
  by (rule EndOfContainingRange_correct) (simp_all add: drs_inv_def)

text \<open>C23. At the largest 64-bit position \<open>start + 1\<close> wraps to 0, and \<open>EndOfContainingRange\<close> of any
  non-empty set answers with the end of its last range although no range contains the position.\<close>

theorem EndOfContainingRange_wraps:
  assumes "drs_inv rs" and "rs \<noteq> []"
  shows "EndOfContainingRange rs (- 1) = Some (r_end (last rs)) \<and> - 1 \<notin> covered rs"
proof -
  have "upper_bound rs (Range (- 1) 0) = (rs, [])"
    by (auto simp: upper_bound_def takeWhile_eq_all_conv dropWhile_eq_Nil_conv less_Range_def Range_less_def)
  then show ?thesis
    using assms(2) by (auto simp: EndOfContainingRange_def Contains_def covered_def)
qed

theorem EndOfContainingRange_wraps_witness:
  "EndOfContainingRange [Range 2 5] (- 1) = Some (r_end (last [Range 2 5])) \<and>
   - 1 \<notin> covered [Range 2 5]"
  by (rule EndOfContainingRange_wraps) (simp_all add: drs_inv_def)

text \<open>C24. A well-formed set is read back unchanged from what \<open>Serialize\<close> writes, for any message
  encoding that decodes what it encodes.\<close>

theorem Serialize_roundtrip:
  assumes "drs_inv rs" and "\<And>ms. ParseFromString (SerializeAsString ms) = Some ms"
  shows "DeserializeDisjointRangeSet ParseFromString (Serialize SerializeAsString rs) = Inr rs"
  using assms insert_members_append [of "[]" rs]
  by (simp add: DeserializeDisjointRangeSet_def Serialize_def)

theorem Serialize_roundtrip_witness:
  "DeserializeDisjointRangeSet parse_pairs (Serialize print_pairs [Range 0 4, Range 7 9]) =
   Inr [Range 0 4, Range 7 9]"
  by (rule Serialize_roundtrip) (simp_all add: drs_inv_def parse_print_pairs)

end
