(* ===== verification/Io_Core.thy ===== *)
theory Io_Core
  imports Cf_Prelude
begin

text \<open>
  The input and output interfaces of \<open>cuttlefish/io/io.h\<close> and the loops written against them in
  \<open>read_exact.cc\<close>, \<open>write_exact.cc\<close>, \<open>string.cc\<close>, \<open>copy.cc\<close>, \<open>length.cc\<close> and \<open>fake_pread_pwrite.cc\<close>.

  A virtual method is a function argument of the code that calls it.  A read gives the bytes it put
  into the buffer, and its return value is their number; a write gives the number of bytes it took.
  What an object holds after it has returned an error is not modelled.  A callee that fills more of a
  buffer than it was given, or takes more bytes than it was offered, is undefined behaviour.

  The locales state what \<open>pread(2)\<close>, \<open>read(2)\<close>, \<open>write(2)\<close> and \<open>lseek(2)\<close> promise: short counts are
  allowed, and a count of zero means the end of the data.  The lemmas inside them hold for every
  reader and writer that keeps the promise.
\<close>

section \<open>The loops\<close>

lemma unat_sub_length:
  "length bs \<le> unat (sz :: u64) \<Longrightarrow> unat (sz - of_nat (length bs)) = unat sz - length bs"
  by (simp add: unat_u64_sub unat_u64_of_nat_le)

lemma sub_length_decreases:
  "0 < (sz :: u64) \<Longrightarrow> length bs \<le> unat sz \<Longrightarrow> bs \<noteq> [] \<Longrightarrow>
   unat (sz - of_nat (length bs)) < unat sz"
  using unat_sub_length [of bs sz] by (cases bs) (auto simp del: of_nat_Suc)

subsection \<open>\<open>read_exact.cc\<close>\<close>

function PReadExact :: "(u64 \<Rightarrow> u64 \<Rightarrow> string result) \<Rightarrow> u64 \<Rightarrow> u64 \<Rightarrow> string \<Rightarrow> string result" where
  "PReadExact pread sz offset buf =
     (if sz > 0 then
        (case pread sz offset of
           Inl e \<Rightarrow> Inl e
         | Inr bs \<Rightarrow>
             if length bs > unat sz then Inl (UndefinedBehaviour ''PRead past the buffer'')
             else if length bs = 0 then Inl (CfError ''EOF, still want to read'')
             else PReadExact pread (sz - of_nat (length bs)) (offset + of_nat (length bs)) (buf @ bs))
      else Inr buf)"
  by pat_completeness auto
termination
  by (relation "measure (\<lambda>(_, sz, _, _). unat sz)") (auto simp: sub_length_decreases)

function ReadExact :: "('s \<Rightarrow> u64 \<Rightarrow> (string \<times> 's) result) \<Rightarrow> 's \<Rightarrow> u64 \<Rightarrow> string \<Rightarrow> (string \<times> 's) result" where
  "ReadExact read s sz buf =
     (if sz > 0 then
        (case read s sz of
           Inl e \<Rightarrow> Inl e
         | Inr (bs, s') \<Rightarrow>
             if length bs > unat sz then Inl (UndefinedBehaviour ''Read past the buffer'')
             else if length bs = 0 then Inl (CfError ''EOF, still want to read'')
             else ReadExact read s' (sz - of_nat (length bs)) (buf @ bs))
      else Inr (buf, s))"
  by pat_completeness auto
termination
  by (relation "measure (\<lambda>(_, _, sz, _). unat sz)") (auto simp: sub_length_decreases)

text \<open>\<open>None\<close> is the \<open>false\<close> of the source: the end of the data before the first byte.\<close>

function ReadExactOrEof ::
    "('s \<Rightarrow> u64 \<Rightarrow> (string \<times> 's) result) \<Rightarrow> 's \<Rightarrow> u64 \<Rightarrow> string \<Rightarrow> (string option \<times> 's) result" where
  "ReadExactOrEof read s sz buf =
     (if length buf < unat sz then
        (case read s (sz - of_nat (length buf)) of
           Inl e \<Rightarrow> Inl e
         | Inr (bs, s') \<Rightarrow>
             if length bs > unat sz - length buf then Inl (UndefinedBehaviour ''Read past the buffer'')
             else if length bs = 0 \<and> length buf = 0 then Inr (None, s')
             else if length bs = 0 then Inl (CfError ''EOF, still want to read'')
             else ReadExactOrEof read s' sz (buf @ bs))
      else Inr (Some buf, s))"
  by pat_completeness auto
termination
  by (relation "measure (\<lambda>(_, _, sz, buf). unat sz - length buf)") (auto simp: diff_less_mono2 neq_Nil_conv)

subsection \<open>\<open>write_exact.cc\<close>\<close>

function WriteExact :: "('s \<Rightarrow> string \<Rightarrow> (u64 \<times> 's) result) \<Rightarrow> 's \<Rightarrow> string \<Rightarrow> 's result" where
  "WriteExact write s buf =
     (if length buf > 0 then
        (case write s buf of
           Inl e \<Rightarrow> Inl e
         | Inr (n, s') \<Rightarrow>
             if unat n > length buf then Inl (UndefinedBehaviour ''Write past the buffer'')
             else if n = 0 then Inl (CfError ''Write returned 0 before completing'')
             else WriteExact write s' (drop (unat n) buf))
      else Inr s)"
  by pat_completeness auto
termination
  by (relation "measure (\<lambda>(_, _, buf). length buf)") (auto simp: unat_gt_0)

subsection \<open>\<open>copy.cc\<close> and \<open>string.cc\<close>\<close>

definition kBufferSize :: u64 where
  "kBufferSize = push_bit 26 1"

function write_chunk :: "('w \<Rightarrow> string \<Rightarrow> (u64 \<times> 'w) result) \<Rightarrow> 'w \<Rightarrow> string \<Rightarrow> 'w result" where
  "write_chunk write w chunk =
     (if length chunk > 0 then
        (case write w chunk of
           Inl e \<Rightarrow> Inl e
         | Inr (written, w') \<Rightarrow>
             if unat written > length chunk then Inl (UndefinedBehaviour ''Write past the buffer'')
             else if written = 0 then Inl (CfError ''Premature EOF on writer'')
             else write_chunk write w' (drop (unat written) chunk))
      else Inr w)"
  by pat_completeness auto
termination
  by (relation "measure (\<lambda>(_, _, buf). length buf)") (auto simp: unat_gt_0)

text \<open>The outer loops end only when the reader reports the end of its data.\<close>

partial_function (option) Copy ::
    "('r \<Rightarrow> u64 \<Rightarrow> (string \<times> 'r) result) \<Rightarrow> ('w \<Rightarrow> string \<Rightarrow> (u64 \<times> 'w) result) \<Rightarrow>
     'r \<Rightarrow> 'w \<Rightarrow> ('r \<times> 'w) result option" where
  "Copy read write r w =
     (case read r kBufferSize of
        Inl e \<Rightarrow> Some (Inl e)
      | Inr (bs, r') \<Rightarrow>
          if length bs > unat kBufferSize then Some (Inl (UndefinedBehaviour ''Read past the buffer''))
          else if length bs > 0 then
            (case write_chunk write w bs of
               Inl e \<Rightarrow> Some (Inl e)
             | Inr w' \<Rightarrow> Copy read write r' w')
          else Some (Inr (r', w)))"

partial_function (option) read_to_string ::
    "('r \<Rightarrow> u64 \<Rightarrow> (string \<times> 'r) result) \<Rightarrow> 'r \<Rightarrow> string \<Rightarrow> (string \<times> 'r) result option" where
  "read_to_string read r out =
     (case read r (push_bit 16 1) of
        Inl e \<Rightarrow> Some (Inl e)
      | Inr (bs, r') \<Rightarrow>
          if length bs > 65536 then Some (Inl (UndefinedBehaviour ''Read past the buffer''))
          else if length bs > 0 then read_to_string read r' (out @ bs)
          else Some (Inr (out, r')))"

definition ReadToString :: "('r \<Rightarrow> u64 \<Rightarrow> (string \<times> 'r) result) \<Rightarrow> 'r \<Rightarrow> (string \<times> 'r) result option" where
  "ReadToString read r = read_to_string read r []"

subsection \<open>\<open>length.cc\<close> and \<open>fake_pread_pwrite.cc\<close>\<close>

definition Length ::
    "('s \<Rightarrow> 64 word \<Rightarrow> (u64 \<times> 's) result) \<Rightarrow> ('s \<Rightarrow> 64 word \<Rightarrow> (u64 \<times> 's) result) \<Rightarrow>
     ('s \<Rightarrow> u64 \<Rightarrow> (u64 \<times> 's) result) \<Rightarrow> 's \<Rightarrow> (u64 \<times> 's) result" where
  "Length SeekCur SeekEnd SeekSet s =
     rbind (SeekCur s 0) (\<lambda>(current_pos, s).
     rbind (SeekEnd s 0) (\<lambda>(end, s).
     rbind (SeekSet s current_pos) (\<lambda>(_, s).
     Inr (end, s))))"

definition FakePRead ::
    "('s \<Rightarrow> 64 word \<Rightarrow> (u64 \<times> 's) result) \<Rightarrow> ('s \<Rightarrow> u64 \<Rightarrow> (u64 \<times> 's) result) \<Rightarrow>
     ('s \<Rightarrow> u64 \<Rightarrow> (string \<times> 's) result) \<Rightarrow> 's \<Rightarrow> u64 \<Rightarrow> u64 \<Rightarrow> (string \<times> 's) result" where
  "FakePRead SeekCur SeekSet Read s count offset =
     rbind (SeekCur s 0) (\<lambda>(original_offset, s).
     rbind (SeekSet s offset) (\<lambda>(_, s).
     rbind (Read s count) (\<lambda>(bs, s).
     rbind (SeekSet s original_offset) (\<lambda>(_, s).
     Inr (bs, s)))))"

definition FakePWrite ::
    "('s \<Rightarrow> 64 word \<Rightarrow> (u64 \<times> 's) result) \<Rightarrow> ('s \<Rightarrow> u64 \<Rightarrow> (u64 \<times> 's) result) \<Rightarrow>
     ('s \<Rightarrow> string \<Rightarrow> (u64 \<times> 's) result) \<Rightarrow> 's \<Rightarrow> string \<Rightarrow> u64 \<Rightarrow> (u64 \<times> 's) result" where
  "FakePWrite SeekCur SeekSet Write s buf offset =
     rbind (SeekCur s 0) (\<lambda>(original_offset, s).
     rbind (SeekSet s offset) (\<lambda>(_, s).
     rbind (Write s buf) (\<lambda>(n, s).
     rbind (SeekSet s original_offset) (\<lambda>(_, s).
     Inr (n, s)))))"

declare PReadExact.simps [simp del] ReadExact.simps [simp del] ReadExactOrEof.simps [simp del]
  WriteExact.simps [simp del] write_chunk.simps [simp del]

section \<open>Random access\<close>

locale random_access =
  fixes pread :: "'s \<Rightarrow> u64 \<Rightarrow> u64 \<Rightarrow> string result"
    and contents :: "'s \<Rightarrow> string"
    and invar :: "'s \<Rightarrow> bool"
  assumes pread_prefix: "invar s \<Longrightarrow>
      \<exists>bs. pread s n off = Inr bs \<and> prefix bs (take (unat n) (drop (unat off) (contents s))) \<and>
        (bs = [] \<longrightarrow> n = 0 \<or> length (contents s) \<le> unat off)"
    and contents_short: "invar s \<Longrightarrow> length (contents s) < 9223372036854775808"
begin

text \<open>One call gives some first bytes of what was asked for.\<close>

lemma pread_cases:
  assumes "invar s"
  obtains k where "pread s n off = Inr (take k (drop (unat off) (contents s)))"
    and "k \<le> unat n" "k \<le> length (contents s) - unat off"
    and "k = 0 \<Longrightarrow> n = 0 \<or> length (contents s) \<le> unat off"
proof -
  obtain bs where bs: "pread s n off = Inr bs" "prefix bs (take (unat n) (drop (unat off) (contents s)))"
      "bs = [] \<longrightarrow> n = 0 \<or> length (contents s) \<le> unat off"
    using pread_prefix [OF assms] by blast
  have len: "length bs \<le> min (length (contents s) - unat off) (unat n)"
    using prefix_length_le [OF bs(2)] by simp
  then have "bs = take (length bs) (drop (unat off) (contents s))"
    using bs(2) by (metis append_eq_conv_conj min.boundedE min.commute prefix_def take_take min_absorb2)
  with bs len that [of "length bs"] show thesis by auto
qed

lemma PReadExact_in_range:
  assumes "invar s" and "unat off + unat sz \<le> length (contents s)"
  shows "PReadExact (pread s) sz off buf = Inr (buf @ take (unat sz) (drop (unat off) (contents s)))"
  using assms
proof (induction "unat sz" arbitrary: sz off buf rule: less_induct)
  case less
  show ?case
  proof (cases "0 < sz")
    case False
    then have "sz = 0" by (simp add: word_gt_0)
    then show ?thesis by (subst PReadExact.simps) simp
  next
    case True
    then have pos: "0 < unat sz" by (simp add: unat_gt_0)
    obtain k where k: "pread s sz off = Inr (take k (drop (unat off) (contents s)))"
        "k \<le> unat sz" "k \<le> length (contents s) - unat off"
        "k = 0 \<Longrightarrow> sz = 0 \<or> length (contents s) \<le> unat off"
      using pread_cases [OF less.prems(1), of sz off] by metis
    have nz: "k \<noteq> 0"
    proof
      assume "k = 0"
      from k(4) [OF this] pos less.prems(2) show False by auto
    qed
    define bs where "bs = take k (drop (unat off) (contents s))"
    have lbs: "length bs = k" using k(3) by (simp add: bs_def)
    have szk: "unat (sz - of_nat k) = unat sz - k"
      using unat_sub_length [of bs sz] k(2) by (simp add: lbs)
    have offk: "unat (off + of_nat k) = unat off + k"
      using k(3) less.prems contents_short [OF less.prems(1)]
      by (subst unat_u64_add) (simp_all add: unat_u64_of_nat)
    have "PReadExact (pread s) (sz - of_nat k) (off + of_nat k) (buf @ bs) =
        Inr ((buf @ bs) @ take (unat (sz - of_nat k)) (drop (unat (off + of_nat k)) (contents s)))"
      by (rule less.hyps) (use k(2,3) nz pos less.prems szk offk in auto)
    moreover have "bs @ take (unat sz - k) (drop (unat off + k) (contents s)) =
        take (unat sz) (drop (unat off) (contents s))"
      using k(2) take_add [of k "unat sz - k" "drop (unat off) (contents s)"]
      by (simp add: bs_def add.commute)
    ultimately show ?thesis
      using True nz k(1,2) lbs by (subst PReadExact.simps) (simp add: szk offk bs_def [symmetric])
  qed
qed

lemma PReadExact_past_end:
  assumes "invar s" and "length (contents s) < unat off + unat sz" and "0 < sz"
  shows "PReadExact (pread s) sz off buf = Inl (CfError ''EOF, still want to read'')"
  using assms
proof (induction "unat sz" arbitrary: sz off buf rule: less_induct)
  case less
  obtain k where k: "pread s sz off = Inr (take k (drop (unat off) (contents s)))"
      "k \<le> unat sz" "k \<le> length (contents s) - unat off"
    using pread_cases [OF less.prems(1), of sz off] by metis
  define bs where "bs = take k (drop (unat off) (contents s))"
  have lbs: "length bs = k" using k(3) by (simp add: bs_def)
  show ?case
  proof (cases "k = 0")
    case True
    then show ?thesis using k less.prems by (subst PReadExact.simps) simp
  next
    case False
    then have lt: "unat off + k \<le> length (contents s)" using k(3) by simp
    then have "k < unat sz" using less.prems(2) by simp
    have szk: "unat (sz - of_nat k) = unat sz - k"
      using unat_sub_length [of bs sz] k(2) by (simp add: lbs)
    have offk: "unat (off + of_nat k) = unat off + k"
      using lt contents_short [OF less.prems(1)]
      by (subst unat_u64_add) (simp_all add: unat_u64_of_nat)
    have "PReadExact (pread s) (sz - of_nat k) (off + of_nat k) (buf @ bs) =
        Inl (CfError ''EOF, still want to read'')"
      by (rule less.hyps)
        (use False \<open>k < unat sz\<close> less.prems szk offk lt in \<open>auto simp: word_less_nat_alt\<close>)
    then show ?thesis
      using less.prems(3) False k lbs by (subst PReadExact.simps) (simp add: bs_def [symmetric])
  qed
qed

lemma PReadExact_spec:
  assumes "invar s"
  shows "PReadExact (pread s) sz off [] =
    (if sz = 0 \<or> unat off + unat sz \<le> length (contents s)
     then Inr (take (unat sz) (drop (unat off) (contents s)))
     else Inl (CfError ''EOF, still want to read''))"
proof (cases "sz = 0")
  case False
  then show ?thesis
    using PReadExact_in_range [OF assms, of off sz "[]"] PReadExact_past_end [OF assms, of off sz "[]"]
    by (simp add: not_le word_gt_0)
qed (subst PReadExact.simps, simp)

end

section \<open>Sequential reading\<close>

locale seq_reader =
  fixes read :: "'r \<Rightarrow> u64 \<Rightarrow> (string \<times> 'r) result"
    and remaining :: "'r \<Rightarrow> string"
    and invar :: "'r \<Rightarrow> bool"
  assumes read_ok: "invar r \<Longrightarrow>
      \<exists>bs r'. read r n = Inr (bs, r') \<and> invar r' \<and> remaining r = bs @ remaining r' \<and>
        length bs \<le> unat n \<and> (bs = [] \<longrightarrow> n = 0 \<or> remaining r = [])"
begin

lemma read_cases:
  assumes "invar r"
  obtains bs r' where "read r n = Inr (bs, r')" "invar r'" "remaining r = bs @ remaining r'"
    "length bs \<le> unat n" "bs = [] \<Longrightarrow> n = 0 \<or> remaining r = []"
  using read_ok [OF assms, of n] by blast

lemma ReadExact_ok:
  assumes "invar r" and "unat sz \<le> length (remaining r)"
  shows "\<exists>r'. ReadExact read r sz buf = Inr (buf @ take (unat sz) (remaining r), r') \<and> invar r' \<and>
           remaining r' = drop (unat sz) (remaining r)"
  using assms
proof (induction "unat sz" arbitrary: sz r buf rule: less_induct)
  case less
  show ?case
  proof (cases "sz = 0")
    case True
    then show ?thesis using less.prems by (subst ReadExact.simps) simp
  next
    case False
    then have pos: "0 < unat sz" by (simp add: unat_gt_0)
    obtain bs r' where r: "read r sz = Inr (bs, r')" "invar r'" "remaining r = bs @ remaining r'"
        "length bs \<le> unat sz" "bs = [] \<Longrightarrow> sz = 0 \<or> remaining r = []"
      using read_cases [OF less.prems(1), of sz] by metis
    have ne: "bs \<noteq> []" using r(5) False less.prems(2) pos by auto
    have dec: "unat (sz - of_nat (length bs)) = unat sz - length bs"
      using r(4) by (rule unat_sub_length)
    have "\<exists>r''. ReadExact read r' (sz - of_nat (length bs)) (buf @ bs) =
        Inr ((buf @ bs) @ take (unat (sz - of_nat (length bs))) (remaining r'), r'') \<and> invar r'' \<and>
        remaining r'' = drop (unat (sz - of_nat (length bs))) (remaining r')"
      by (rule less.hyps) (use r ne pos less.prems(2) dec in auto)
    then show ?thesis
      using pos r(1,3,4) ne by (subst ReadExact.simps) (auto simp: dec unat_gt_0 word_gt_0)
  qed
qed

lemma ReadExact_eof:
  assumes "invar r" and "length (remaining r) < unat sz"
  shows "ReadExact read r sz buf = Inl (CfError ''EOF, still want to read'')"
  using assms
proof (induction "unat sz" arbitrary: sz r buf rule: less_induct)
  case less
  then have pos: "0 < sz" by (simp add: word_less_nat_alt)
  obtain bs r' where r: "read r sz = Inr (bs, r')" "invar r'" "remaining r = bs @ remaining r'"
      "length bs \<le> unat sz"
    using read_cases [OF less.prems(1), of sz] by metis
  show ?case
  proof (cases "bs = []")
    case True
    then show ?thesis using pos r by (subst ReadExact.simps) simp
  next
    case False
    have dec: "unat (sz - of_nat (length bs)) = unat sz - length bs"
      using r(4) by (rule unat_sub_length)
    have "ReadExact read r' (sz - of_nat (length bs)) (buf @ bs) = Inl (CfError ''EOF, still want to read'')"
      by (rule less.hyps) (use r False less.prems(2) dec in auto)
    then show ?thesis using False pos r by (subst ReadExact.simps) simp
  qed
qed

lemma ReadExactOrEof_ok:
  assumes "invar r" and "length buf \<le> unat sz" "unat sz \<le> length buf + length (remaining r)"
    and "buf = [] \<Longrightarrow> remaining r \<noteq> [] \<or> sz = 0"
  shows "\<exists>r'. ReadExactOrEof read r sz buf =
              Inr (Some (buf @ take (unat sz - length buf) (remaining r)), r') \<and> invar r' \<and>
           remaining r' = drop (unat sz - length buf) (remaining r)"
  using assms
proof (induction "unat sz - length buf" arbitrary: r buf rule: less_induct)
  case less
  show ?case
  proof (cases "length buf < unat sz")
    case False
    then show ?thesis using less.prems by (subst ReadExactOrEof.simps) simp
  next
    case True
    have left: "unat (sz - of_nat (length buf)) = unat sz - length buf"
      using less.prems(2) by (rule unat_sub_length)
    obtain bs r' where r: "read r (sz - of_nat (length buf)) = Inr (bs, r')" "invar r'"
        "remaining r = bs @ remaining r'" "length bs \<le> unat sz - length buf"
        "bs = [] \<Longrightarrow> sz - of_nat (length buf) = 0 \<or> remaining r = []"
      using read_cases [OF less.prems(1), of "sz - of_nat (length buf)"] left by metis
    have ne: "bs \<noteq> []"
    proof
      assume "bs = []"
      from r(5) [OF this] have "remaining r = []" using left True by auto
      then show False using less.prems(3) True by simp
    qed
    have "\<exists>r''. ReadExactOrEof read r' sz (buf @ bs) =
        Inr (Some ((buf @ bs) @ take (unat sz - length (buf @ bs)) (remaining r')), r'') \<and> invar r'' \<and>
        remaining r'' = drop (unat sz - length (buf @ bs)) (remaining r')"
      by (rule less.hyps) (use r ne True less.prems(3) in \<open>auto simp: diff_less_mono2 neq_Nil_conv\<close>)
    then show ?thesis
      using True r(1,3,4) ne by (subst ReadExactOrEof.simps) auto
  qed
qed

lemma ReadExactOrEof_empty:
  assumes "invar r" "remaining r = []" "sz \<noteq> 0"
  shows "\<exists>r'. ReadExactOrEof read r sz [] = Inr (None, r') \<and> invar r' \<and> remaining r' = []"
proof -
  obtain bs r' where r: "read r sz = Inr (bs, r')" "invar r'" "remaining r = bs @ remaining r'"
    using read_cases [OF assms(1), of sz] by metis
  then show ?thesis
    using assms(2,3) by (subst ReadExactOrEof.simps) (simp add: unat_gt_0)
qed

lemma read_to_string_ok:
  assumes "invar r"
  shows "\<exists>r'. read_to_string read r out = Some (Inr (out @ remaining r, r')) \<and> invar r' \<and> remaining r' = []"
  using assms
proof (induction "length (remaining r)" arbitrary: r out rule: less_induct)
  case less
  obtain bs r' where r: "read r (push_bit 16 1) = Inr (bs, r')" "invar r'" "remaining r = bs @ remaining r'"
      "length bs \<le> unat (push_bit 16 1 :: u64)" "bs = [] \<Longrightarrow> push_bit 16 1 = (0 :: u64) \<or> remaining r = []"
    using read_cases [OF less.prems(1), of "push_bit 16 1"] by metis
  have len: "length bs \<le> 65536" using r(4) by simp
  show ?case
  proof (cases "bs = []")
    case True
    then show ?thesis using r by (subst read_to_string.simps) simp
  next
    case False
    then have "\<exists>r''. read_to_string read r' (out @ bs) = Some (Inr ((out @ bs) @ remaining r', r'')) \<and>
        invar r'' \<and> remaining r'' = []"
      using r(2,3) by (intro less.hyps) auto
    then show ?thesis using False r(1,3) len by (subst read_to_string.simps) auto
  qed
qed

end

section \<open>Sequential writing\<close>

text \<open>A writer accepts bytes as long as its written stays within \<open>limit\<close>.\<close>

locale seq_writer =
  fixes put :: "'w \<Rightarrow> string \<Rightarrow> (u64 \<times> 'w) result"
    and written :: "'w \<Rightarrow> string"
    and invar :: "'w \<Rightarrow> bool"
    and limit :: nat
  assumes write_ok: "invar w \<Longrightarrow> length (written w) + length buf \<le> limit \<Longrightarrow>
      \<exists>n w'. put w buf = Inr (n, w') \<and> invar w' \<and> unat n \<le> length buf \<and>
        written w' = written w @ take (unat n) buf \<and> (n = 0 \<longrightarrow> buf = [])"
begin

lemma WriteExact_ok:
  assumes "invar w" and "length (written w) + length buf \<le> limit"
  shows "\<exists>w'. WriteExact put w buf = Inr w' \<and> invar w' \<and> written w' = written w @ buf"
  using assms
proof (induction "length buf" arbitrary: w buf rule: less_induct)
  case less
  show ?case
  proof (cases "buf = []")
    case True
    then show ?thesis using less.prems by (subst WriteExact.simps) simp
  next
    case False
    obtain n w' where w: "put w buf = Inr (n, w')" "invar w'" "unat n \<le> length buf"
        "written w' = written w @ take (unat n) buf" "n \<noteq> 0"
      using write_ok [OF less.prems] False by metis
    have "0 < unat n" using w(5) by (simp add: unat_gt_0)
    then have "\<exists>w''. WriteExact put w' (drop (unat n) buf) = Inr w'' \<and> invar w'' \<and>
        written w'' = written w' @ drop (unat n) buf"
      using False w less.prems(2) by (intro less.hyps) auto
    then show ?thesis using False w by (subst WriteExact.simps) auto
  qed
qed

lemma write_chunk_ok:
  assumes "invar w" and "length (written w) + length buf \<le> limit"
  shows "\<exists>w'. write_chunk put w buf = Inr w' \<and> invar w' \<and> written w' = written w @ buf"
  using assms
proof (induction "length buf" arbitrary: w buf rule: less_induct)
  case less
  show ?case
  proof (cases "buf = []")
    case True
    then show ?thesis using less.prems by (subst write_chunk.simps) simp
  next
    case False
    obtain n w' where w: "put w buf = Inr (n, w')" "invar w'" "unat n \<le> length buf"
        "written w' = written w @ take (unat n) buf" "n \<noteq> 0"
      using write_ok [OF less.prems] False by metis
    have "0 < unat n" using w(5) by (simp add: unat_gt_0)
    then have "\<exists>w''. write_chunk put w' (drop (unat n) buf) = Inr w'' \<and> invar w'' \<and>
        written w'' = written w' @ drop (unat n) buf"
      using False w less.prems(2) by (intro less.hyps) auto
    then show ?thesis using False w by (subst write_chunk.simps) auto
  qed
qed

end

section \<open>Copying\<close>

locale copying = src: seq_reader read remaining rinv + dst: seq_writer put written winv limit
  for read :: "'r \<Rightarrow> u64 \<Rightarrow> (string \<times> 'r) result" and remaining and rinv
    and put :: "'w \<Rightarrow> string \<Rightarrow> (u64 \<times> 'w) result" and written and winv and limit
begin

text \<open>The copy returns, and has moved everything the reader still had behind what the writer had.\<close>

lemma Copy_ok:
  assumes "rinv r" "winv w" and "length (written w) + length (remaining r) \<le> limit"
  shows "\<exists>r' w'. Copy read put r w = Some (Inr (r', w')) \<and> rinv r' \<and> winv w' \<and>
           remaining r' = [] \<and> written w' = written w @ remaining r"
  using assms
proof (induction "length (remaining r)" arbitrary: r w rule: less_induct)
  case less
  obtain bs r' where r: "read r kBufferSize = Inr (bs, r')" "rinv r'" "remaining r = bs @ remaining r'"
      "length bs \<le> unat kBufferSize" "bs = [] \<Longrightarrow> kBufferSize = 0 \<or> remaining r = []"
    using src.read_cases [OF less.prems(1), of kBufferSize] by metis
  show ?case
  proof (cases "bs = []")
    case True
    moreover have "kBufferSize \<noteq> 0" by (simp add: kBufferSize_def)
    ultimately show ?thesis using r less.prems by (subst Copy.simps) simp
  next
    case False
    obtain w' where w: "write_chunk put w bs = Inr w'" "winv w'" "written w' = written w @ bs"
      using dst.write_chunk_ok [OF less.prems(2), of bs] less.prems(3) r(3) by auto
    have "\<exists>r'' w''. Copy read put r' w' = Some (Inr (r'', w'')) \<and> rinv r'' \<and> winv w'' \<and>
        remaining r'' = [] \<and> written w'' = written w' @ remaining r'"
      by (rule less.hyps) (use r w False less.prems(3) in auto)
    then show ?thesis using False r(1,3,4) w(1,3) by (subst Copy.simps) auto
  qed
qed

end

section \<open>Seeking\<close>

text \<open>
  An object with a position; \<open>view\<close> is all of its state that moving the position within the data
  keeps, and it determines the length.
\<close>

locale seekable =
  fixes SeekSet :: "'s \<Rightarrow> u64 \<Rightarrow> (u64 \<times> 's) result"
    and SeekCur :: "'s \<Rightarrow> 64 word \<Rightarrow> (u64 \<times> 's) result"
    and SeekEnd :: "'s \<Rightarrow> 64 word \<Rightarrow> (u64 \<times> 's) result"
    and pos :: "'s \<Rightarrow> u64"
    and len :: "'s \<Rightarrow> u64"
    and view :: "'s \<Rightarrow> 'v"
    and invar :: "'s \<Rightarrow> bool"
  assumes seek_set: "invar s \<Longrightarrow> off \<le> len s \<Longrightarrow>
      \<exists>s'. SeekSet s off = Inr (off, s') \<and> invar s' \<and> pos s' = off \<and> view s' = view s"
    and seek_cur_0: "invar s \<Longrightarrow> SeekCur s 0 = Inr (pos s, s)"
    and seek_end_0: "invar s \<Longrightarrow>
      \<exists>s'. SeekEnd s 0 = Inr (len s, s') \<and> invar s' \<and> pos s' = len s \<and> view s' = view s"
    and pos_le_len: "invar s \<Longrightarrow> pos s \<le> len s"
    and view_len: "view s = view t \<Longrightarrow> len s = len t"
    and state_eq: "pos s = pos t \<Longrightarrow> view s = view t \<Longrightarrow> s = t"
begin

lemma seek_back:
  assumes "invar s" "view s' = view s" "invar s'"
  shows "SeekSet s' (pos s) = Inr (pos s, s)"
proof -
  have "pos s \<le> len s'" using pos_le_len [OF assms(1)] view_len [OF assms(2)] by simp
  then obtain t where "SeekSet s' (pos s) = Inr (pos s, t)" "pos t = pos s" "view t = view s'"
    using seek_set [OF assms(3)] by blast
  with state_eq [of t s] assms(2) show ?thesis by simp
qed

text \<open>\<open>Length\<close> gives the length and leaves the object as it was.\<close>

lemma Length_ok:
  assumes "invar s"
  shows "Length SeekCur SeekEnd SeekSet s = Inr (len s, s)"
proof -
  obtain s' where "SeekEnd s 0 = Inr (len s, s')" "invar s'" "view s' = view s"
    using seek_end_0 [OF assms] by blast
  with seek_back [OF assms] seek_cur_0 [OF assms] show ?thesis
    by (simp add: Length_def)
qed

end

locale seekable_reader = seekable SeekSet SeekCur SeekEnd pos len view invar
  for SeekSet :: "'s \<Rightarrow> u64 \<Rightarrow> (u64 \<times> 's) result" and SeekCur SeekEnd pos len
    and view :: "'s \<Rightarrow> 'v" and invar +
  fixes Read :: "'s \<Rightarrow> u64 \<Rightarrow> (string \<times> 's) result"
    and data :: "'v \<Rightarrow> string"
  assumes read_at: "invar s \<Longrightarrow>
      \<exists>bs s'. Read s n = Inr (bs, s') \<and> invar s' \<and> view s' = view s \<and>
        prefix bs (take (unat n) (drop (unat (pos s)) (data (view s))))"
begin

text \<open>\<open>FakePRead\<close> reads at the offset and leaves the object, and its position, as they were.\<close>

lemma FakePRead_ok:
  assumes "invar s" and "off \<le> len s"
  shows "\<exists>bs. FakePRead SeekCur SeekSet Read s n off = Inr (bs, s) \<and>
           prefix bs (take (unat n) (drop (unat off) (data (view s))))"
proof -
  obtain s1 where s1: "SeekSet s off = Inr (off, s1)" "invar s1" "pos s1 = off" "view s1 = view s"
    using seek_set [OF assms] by blast
  obtain bs s2 where s2: "Read s1 n = Inr (bs, s2)" "invar s2" "view s2 = view s1"
      "prefix bs (take (unat n) (drop (unat (pos s1)) (data (view s1))))"
    using read_at [OF s1(2)] by blast
  have "SeekSet s2 (pos s) = Inr (pos s, s)"
    by (rule seek_back) (use assms s1 s2 in simp_all)
  with s1 s2 seek_cur_0 [OF assms(1)] show ?thesis
    by (simp add: FakePRead_def)
qed

end

end
