(* ===== verification/Io_Readers.thy ===== *)
theory Io_Readers
  imports Io_Core
begin

text \<open>
  The readers and writers of \<open>cuttlefish/io\<close>: the growing buffer of \<open>in_memory.cc\<close>, the seek position
  that \<open>fake_seek.cc\<close> gives to every reader with a \<open>PRead\<close>, the window of \<open>read_window_view.cc\<close> and
  the concatenation of \<open>concat.cc\<close>.

  \<open>ReaderSeeker\<close> is the tree of such readers that a program builds; the functions on it dispatch as the
  virtual methods do.  \<open>contents\<close> is what the reader presents, and the interpretations show that every
  tree keeps the contracts of \<open>Io_Core\<close> for it.
\<close>

section \<open>\<open>in_memory.cc\<close>\<close>

record in_memory_io =
  io_data :: string
  io_cursor :: u64

text \<open>The largest size of a \<open>std::vector<char>\<close>: the difference of two pointers into it is 64-bit signed.\<close>

definition vector_max_size :: nat where
  "vector_max_size = 9223372036854775807"

definition ClampRange :: "string \<Rightarrow> u64 \<Rightarrow> u64 \<Rightarrow> u64" where
  "ClampRange d begin len =
     (if unat begin > length d then 0 else min len (of_nat (length d - unat begin)))"

definition GrowTo :: "string \<Rightarrow> u64 \<Rightarrow> string result" where
  "GrowTo d new_size =
     (if length d < unat new_size then
        if unat new_size > vector_max_size then Inl (StdException ''length_error'')
        else Inr (d @ replicate (unat new_size - length d) (CHR 0x00))
      else Inr d)"

definition memcpy_to :: "string \<Rightarrow> u64 \<Rightarrow> string \<Rightarrow> string result" where
  "memcpy_to d at buf =
     (if unat at + length buf \<le> length d
      then Inr (take (unat at) d @ buf @ drop (unat at + length buf) d)
      else Inl (UndefinedBehaviour ''memcpy past the vector''))"

definition InMemoryIo_Read :: "in_memory_io \<Rightarrow> u64 \<Rightarrow> (string \<times> in_memory_io) result" where
  "InMemoryIo_Read io count =
     (let to_read = ClampRange (io_data io) (io_cursor io) count
      in Inr (take (unat to_read) (drop (unat (io_cursor io)) (io_data io)),
              io\<lparr>io_cursor := io_cursor io + to_read\<rparr>))"

definition InMemoryIo_Write :: "in_memory_io \<Rightarrow> string \<Rightarrow> (u64 \<times> in_memory_io) result" where
  "InMemoryIo_Write io buf =
     (let count = of_nat (length buf)
      in rbind (GrowTo (io_data io) (io_cursor io + count)) (\<lambda>d.
         rbind (if count > 0 then memcpy_to d (io_cursor io) buf else Inr d) (\<lambda>d.
         Inr (count, \<lparr>io_data = d, io_cursor = io_cursor io + count\<rparr>))))"

definition InMemoryIo_SeekSet :: "in_memory_io \<Rightarrow> u64 \<Rightarrow> (u64 \<times> in_memory_io) result" where
  "InMemoryIo_SeekSet io offset =
     rbind (GrowTo (io_data io) offset) (\<lambda>d. Inr (offset, \<lparr>io_data = d, io_cursor = offset\<rparr>))"

definition InMemoryIo_SeekCur :: "in_memory_io \<Rightarrow> 64 word \<Rightarrow> (u64 \<times> in_memory_io) result" where
  "InMemoryIo_SeekCur io offset =
     rbind (i64_add (io_cursor io) offset) (\<lambda>p.
     let new_pos = word_of_int (max p 0)
     in rbind (GrowTo (io_data io) new_pos) (\<lambda>d. Inr (new_pos, \<lparr>io_data = d, io_cursor = new_pos\<rparr>)))"

definition InMemoryIo_SeekEnd :: "in_memory_io \<Rightarrow> 64 word \<Rightarrow> (u64 \<times> in_memory_io) result" where
  "InMemoryIo_SeekEnd io offset =
     rbind (i64_add (of_nat (length (io_data io))) offset) (\<lambda>p.
     let new_pos = word_of_int (max p 0)
     in rbind (GrowTo (io_data io) new_pos) (\<lambda>d. Inr (new_pos, \<lparr>io_data = d, io_cursor = new_pos\<rparr>)))"

definition InMemoryIo_PRead :: "in_memory_io \<Rightarrow> u64 \<Rightarrow> u64 \<Rightarrow> string result" where
  "InMemoryIo_PRead io count offset =
     (let to_read = ClampRange (io_data io) offset count
      in Inr (take (unat to_read) (drop (unat offset) (io_data io))))"

definition InMemoryIo_PWrite :: "in_memory_io \<Rightarrow> string \<Rightarrow> u64 \<Rightarrow> (u64 \<times> in_memory_io) result" where
  "InMemoryIo_PWrite io buf offset =
     (let count = of_nat (length buf)
      in rbind (GrowTo (io_data io) (offset + count)) (\<lambda>d.
         rbind (if count > 0 then memcpy_to d offset buf else Inr d) (\<lambda>d.
         Inr (count, io\<lparr>io_data := d\<rparr>))))"

section \<open>\<open>fake_seek.cc\<close>\<close>

record fake_seeker =
  seek_pos :: u64
  fs_length :: u64

definition ReaderFakeSeeker :: "u64 \<Rightarrow> fake_seeker" where
  "ReaderFakeSeeker len = \<lparr>seek_pos = 0, fs_length = len\<rparr>"

definition FakeSeeker_Read ::
    "(u64 \<Rightarrow> u64 \<Rightarrow> string result) \<Rightarrow> fake_seeker \<Rightarrow> u64 \<Rightarrow> (string \<times> fake_seeker) result" where
  "FakeSeeker_Read pread fs count =
     rbind (pread count (seek_pos fs)) (\<lambda>bs.
     Inr (bs, fs\<lparr>seek_pos := seek_pos fs + of_nat (length bs)\<rparr>))"

definition FakeSeeker_SeekSet :: "fake_seeker \<Rightarrow> u64 \<Rightarrow> (u64 \<times> fake_seeker) result" where
  "FakeSeeker_SeekSet fs offset =
     (let p = min offset (fs_length fs) in Inr (p, fs\<lparr>seek_pos := p\<rparr>))"

definition FakeSeeker_SeekCur :: "fake_seeker \<Rightarrow> 64 word \<Rightarrow> (u64 \<times> fake_seeker) result" where
  "FakeSeeker_SeekCur fs off =
     rbind (i64_add (seek_pos fs) off) (\<lambda>s.
     let p = min (word_of_int (max s 0)) (fs_length fs) in Inr (p, fs\<lparr>seek_pos := p\<rparr>))"

definition FakeSeeker_SeekEnd :: "fake_seeker \<Rightarrow> 64 word \<Rightarrow> (u64 \<times> fake_seeker) result" where
  "FakeSeeker_SeekEnd fs off =
     rbind (i64_add (fs_length fs) off) (\<lambda>s.
     let p = min (word_of_int (max s 0)) (fs_length fs) in Inr (p, fs\<lparr>seek_pos := p\<rparr>))"

section \<open>\<open>read_window_view.cc\<close> and \<open>concat.cc\<close>\<close>

definition ReadWindowView_PRead ::
    "(u64 \<Rightarrow> u64 \<Rightarrow> string result) \<Rightarrow> u64 \<Rightarrow> u64 \<Rightarrow> u64 \<Rightarrow> u64 \<Rightarrow> string result" where
  "ReadWindowView_PRead data_provider begin len count offset =
     (if offset \<ge> len then Inr []
      else data_provider (min count (len - offset)) (offset + begin))"

text \<open>The readers of the map are never null once it is built: \<open>Create\<close> checks each.\<close>

definition ConcatReaderSeeker_PRead ::
    "(u64 \<times> (u64 \<Rightarrow> u64 \<Rightarrow> string result)) list \<Rightarrow> u64 \<Rightarrow> u64 \<Rightarrow> string result" where
  "ConcatReaderSeeker_PRead off_to_reader count offset =
     (let before = takeWhile (\<lambda>(k, _). \<not> offset < k) off_to_reader
      in if before = [] then Inl (CfError ''Could not find first reader'')
         else let (first, pread) = last before in pread count (offset - first))"

section \<open>Reader objects\<close>

datatype ReaderSeeker =
    MemoryReader in_memory_io
  | WindowReader ReaderSeeker u64 u64 fake_seeker
  | ConcatReader "(u64 \<times> ReaderSeeker) list" fake_seeker

fun PRead :: "ReaderSeeker \<Rightarrow> u64 \<Rightarrow> u64 \<Rightarrow> string result" where
  "PRead (MemoryReader io) = InMemoryIo_PRead io"
| "PRead (WindowReader data_provider begin len fs) = ReadWindowView_PRead (PRead data_provider) begin len"
| "PRead (ConcatReader off_to_reader fs) =
     ConcatReaderSeeker_PRead (map (\<lambda>(k, r). (k, PRead r)) off_to_reader)"

definition with_seeker :: "(fake_seeker \<Rightarrow> ReaderSeeker) \<Rightarrow> ('a \<times> fake_seeker) result \<Rightarrow> ('a \<times> ReaderSeeker) result" where
  "with_seeker C m = rbind m (\<lambda>(x, fs). Inr (x, C fs))"

definition with_memory :: "('a \<times> in_memory_io) result \<Rightarrow> ('a \<times> ReaderSeeker) result" where
  "with_memory m = rbind m (\<lambda>(x, io). Inr (x, MemoryReader io))"

fun Read :: "ReaderSeeker \<Rightarrow> u64 \<Rightarrow> (string \<times> ReaderSeeker) result" where
  "Read (MemoryReader io) n = with_memory (InMemoryIo_Read io n)"
| "Read (WindowReader p b l fs) n =
     with_seeker (WindowReader p b l) (FakeSeeker_Read (PRead (WindowReader p b l fs)) fs n)"
| "Read (ConcatReader m fs) n =
     with_seeker (ConcatReader m) (FakeSeeker_Read (PRead (ConcatReader m fs)) fs n)"

fun SeekSet :: "ReaderSeeker \<Rightarrow> u64 \<Rightarrow> (u64 \<times> ReaderSeeker) result" where
  "SeekSet (MemoryReader io) n = with_memory (InMemoryIo_SeekSet io n)"
| "SeekSet (WindowReader p b l fs) n = with_seeker (WindowReader p b l) (FakeSeeker_SeekSet fs n)"
| "SeekSet (ConcatReader m fs) n = with_seeker (ConcatReader m) (FakeSeeker_SeekSet fs n)"

fun SeekCur :: "ReaderSeeker \<Rightarrow> 64 word \<Rightarrow> (u64 \<times> ReaderSeeker) result" where
  "SeekCur (MemoryReader io) n = with_memory (InMemoryIo_SeekCur io n)"
| "SeekCur (WindowReader p b l fs) n = with_seeker (WindowReader p b l) (FakeSeeker_SeekCur fs n)"
| "SeekCur (ConcatReader m fs) n = with_seeker (ConcatReader m) (FakeSeeker_SeekCur fs n)"

fun SeekEnd :: "ReaderSeeker \<Rightarrow> 64 word \<Rightarrow> (u64 \<times> ReaderSeeker) result" where
  "SeekEnd (MemoryReader io) n = with_memory (InMemoryIo_SeekEnd io n)"
| "SeekEnd (WindowReader p b l fs) n = with_seeker (WindowReader p b l) (FakeSeeker_SeekEnd fs n)"
| "SeekEnd (ConcatReader m fs) n = with_seeker (ConcatReader m) (FakeSeeker_SeekEnd fs n)"

definition reader_length :: "ReaderSeeker \<Rightarrow> (u64 \<times> ReaderSeeker) result" where
  "reader_length = Length SeekCur SeekEnd SeekSet"

text \<open>The constructors of the views.\<close>

definition ReadWindowView :: "ReaderSeeker \<Rightarrow> u64 \<Rightarrow> u64 \<Rightarrow> ReaderSeeker" where
  "ReadWindowView data_provider begin len = WindowReader data_provider begin len (ReaderFakeSeeker len)"

fun create_loop ::
    "ReaderSeeker list \<Rightarrow> u64 \<Rightarrow> (u64 \<times> ReaderSeeker) list \<Rightarrow> (u64 \<times> (u64 \<times> ReaderSeeker) list) result" where
  "create_loop [] offset m = Inr (offset, m)"
| "create_loop (reader # readers) offset m =
     rbind (reader_length reader) (\<lambda>(len, reader).
     create_loop readers (offset + len) (map_assign offset reader m))"

definition ConcatReaderSeeker_Create :: "ReaderSeeker list \<Rightarrow> ReaderSeeker result" where
  "ConcatReaderSeeker_Create readers =
     (if readers = [] then Inl (CfError ''Received empty list'')
      else rbind (create_loop readers 0 []) (\<lambda>(offset, m).
           Inr (ConcatReader m (ReaderFakeSeeker offset))))"

section \<open>The in-memory buffer\<close>

definition mem_inv :: "in_memory_io \<Rightarrow> bool" where
  "mem_inv io \<longleftrightarrow> unat (io_cursor io) \<le> length (io_data io) \<and> length (io_data io) \<le> vector_max_size"

lemma unat_ClampRange:
  assumes "length d \<le> vector_max_size"
  shows "unat (ClampRange d b n) = min (unat n) (length d - unat b)"
proof (cases "length d < unat b")
  case False
  have "unat (of_nat (length d - unat b) :: u64) = length d - unat b"
    using assms by (intro unat_u64_of_nat) (simp add: vector_max_size_def)
  with False show ?thesis by (simp add: ClampRange_def unat_u64_min del: of_nat_diff)
qed (simp add: ClampRange_def)

lemma InMemoryIo_PRead_eq:
  assumes "length (io_data io) \<le> vector_max_size"
  shows "InMemoryIo_PRead io n off = Inr (take (unat n) (drop (unat off) (io_data io)))"
  using unat_ClampRange [OF assms, of off n] by (simp add: InMemoryIo_PRead_def min_def)

lemma InMemoryIo_Read_eq:
  assumes "mem_inv io"
  shows "\<exists>io'. InMemoryIo_Read io n = Inr (take (unat n) (drop (unat (io_cursor io)) (io_data io)), io') \<and>
    mem_inv io' \<and> io_data io' = io_data io \<and>
    unat (io_cursor io') = unat (io_cursor io) + min (unat n) (length (io_data io) - unat (io_cursor io))"
proof -
  have len: "length (io_data io) \<le> vector_max_size" using assms by (simp add: mem_inv_def)
  note c = unat_ClampRange [OF len, of "io_cursor io" n]
  have "unat (io_cursor io + ClampRange (io_data io) (io_cursor io) n) =
      unat (io_cursor io) + min (unat n) (length (io_data io) - unat (io_cursor io))"
    using assms by (subst unat_u64_add) (auto simp: c mem_inv_def vector_max_size_def)
  with assms c show ?thesis
    by (auto simp: InMemoryIo_Read_def Let_def mem_inv_def min_def)
qed

lemma GrowTo_ok:
  "unat n \<le> vector_max_size \<Longrightarrow> GrowTo d n = Inr (d @ replicate (unat n - length d) (CHR 0x00))"
  by (simp add: GrowTo_def)

lemma overwrite_eq:
  fixes at buf d defines "d' \<equiv> d @ replicate (at + length buf - length d) (CHR 0x00)"
  assumes "at \<le> length d"
  shows "take at d' @ buf @ drop (at + length buf) d' = take at d @ buf @ drop (at + length buf) d"
  using assms by (simp add: d'_def)

lemma InMemoryIo_Write_eq:
  assumes inv: "mem_inv io" and room: "unat (io_cursor io) + length buf \<le> vector_max_size"
  shows "InMemoryIo_Write io buf =
    Inr (of_nat (length buf),
         \<lparr>io_data = take (unat (io_cursor io)) (io_data io) @ buf @ drop (unat (io_cursor io) + length buf) (io_data io),
          io_cursor = io_cursor io + of_nat (length buf)\<rparr>)"
proof -
  have lb: "unat (of_nat (length buf) :: u64) = length buf"
    using room by (intro unat_u64_of_nat) (simp add: vector_max_size_def)
  have c: "unat (io_cursor io + of_nat (length buf)) = unat (io_cursor io) + length buf"
    using room by (subst unat_u64_add) (simp_all add: lb vector_max_size_def)
  have g: "GrowTo (io_data io) (io_cursor io + of_nat (length buf)) =
      Inr (io_data io @ replicate (unat (io_cursor io) + length buf - length (io_data io)) (CHR 0x00))"
    using room by (subst GrowTo_ok) (simp_all add: c)
  have cur: "unat (io_cursor io) \<le> length (io_data io)" using inv by (simp add: mem_inv_def)
  show ?thesis
  proof (cases "buf = []")
    case True
    then show ?thesis using g cur by (simp add: InMemoryIo_Write_def)
  next
    case False
    then have "(0 :: u64) < of_nat (length buf)" using lb by (simp add: word_less_nat_alt)
    with g overwrite_eq [OF cur, of buf] show ?thesis
      by (simp add: InMemoryIo_Write_def memcpy_to_def Let_def)
  qed
qed

lemma InMemoryIo_SeekSet_eq:
  assumes "unat off \<le> vector_max_size"
  shows "InMemoryIo_SeekSet io off =
    Inr (off, \<lparr>io_data = io_data io @ replicate (unat off - length (io_data io)) (CHR 0x00), io_cursor = off\<rparr>)"
  using assms by (simp add: InMemoryIo_SeekSet_def GrowTo_ok)

lemma InMemoryIo_SeekCur_0:
  assumes "mem_inv io"
  shows "InMemoryIo_SeekCur io 0 = Inr (io_cursor io, io)"
proof -
  have "unat (io_cursor io) < 9223372036854775808"
    using assms by (auto simp: mem_inv_def vector_max_size_def)
  then show ?thesis
    using assms by (simp add: InMemoryIo_SeekCur_def i64_add_0 GrowTo_def mem_inv_def Let_def)
qed

lemma InMemoryIo_SeekEnd_0:
  assumes "mem_inv io"
  shows "InMemoryIo_SeekEnd io 0 =
    Inr (of_nat (length (io_data io)), io\<lparr>io_cursor := of_nat (length (io_data io))\<rparr>)"
proof -
  have l: "unat (of_nat (length (io_data io)) :: u64) = length (io_data io)"
    using assms by (intro unat_u64_of_nat) (simp add: mem_inv_def vector_max_size_def)
  then have "unat (of_nat (length (io_data io)) :: u64) < 9223372036854775808"
    using assms by (simp add: mem_inv_def vector_max_size_def)
  note add = i64_add_0 [OF this]
  show ?thesis unfolding InMemoryIo_SeekEnd_def add l by (simp add: GrowTo_def l Let_def)
qed

section \<open>What a reader presents\<close>

fun contents :: "ReaderSeeker \<Rightarrow> string" where
  "contents (MemoryReader io) = io_data io"
| "contents (WindowReader p b l fs) = take (unat l) (drop (unat b) (contents p))"
| "contents (ConcatReader m fs) = concat (map (\<lambda>(k, r). contents r) m)"

text \<open>The key of every part is the length of the parts before it.\<close>

fun concat_keys :: "nat \<Rightarrow> (u64 \<times> string) list \<Rightarrow> bool" where
  "concat_keys n [] = True"
| "concat_keys n ((k, c) # m) = (unat k = n \<and> concat_keys (n + length c) m)"

definition seeker_inv :: "fake_seeker \<Rightarrow> bool" where
  "seeker_inv fs \<longleftrightarrow> seek_pos fs \<le> fs_length fs \<and> unat (fs_length fs) < 9223372036854775808"

fun reader_inv :: "ReaderSeeker \<Rightarrow> bool" where
  "reader_inv (MemoryReader io) = mem_inv io"
| "reader_inv (WindowReader p b l fs) =
     (reader_inv p \<and> unat b + unat l < 18446744073709551616 \<and> seeker_inv fs \<and> fs_length fs = l)"
| "reader_inv (ConcatReader m fs) =
     ((\<forall>(k, r) \<in> set m. reader_inv r) \<and> m \<noteq> [] \<and>
      concat_keys 0 (map (\<lambda>(k, r). (k, contents r)) m) \<and> seeker_inv fs \<and>
      unat (fs_length fs) = length (concat (map (\<lambda>(k, r). contents r) m)))"

fun position :: "ReaderSeeker \<Rightarrow> u64" where
  "position (MemoryReader io) = io_cursor io"
| "position (WindowReader p b l fs) = seek_pos fs"
| "position (ConcatReader m fs) = seek_pos fs"

fun reader_size :: "ReaderSeeker \<Rightarrow> u64" where
  "reader_size (MemoryReader io) = of_nat (length (io_data io))"
| "reader_size (WindowReader p b l fs) = fs_length fs"
| "reader_size (ConcatReader m fs) = fs_length fs"

fun rewound :: "ReaderSeeker \<Rightarrow> ReaderSeeker" where
  "rewound (MemoryReader io) = MemoryReader (io\<lparr>io_cursor := 0\<rparr>)"
| "rewound (WindowReader p b l fs) = WindowReader p b l (fs\<lparr>seek_pos := 0\<rparr>)"
| "rewound (ConcatReader m fs) = ConcatReader m (fs\<lparr>seek_pos := 0\<rparr>)"

lemma contents_rewound [simp]: "contents (rewound r) = contents r"
  by (cases r) auto

lemma contents_short: "reader_inv r \<Longrightarrow> length (contents r) < 9223372036854775808"
proof (induction r)
  case (WindowReader p b l fs)
  then show ?case by (auto simp: min_less_iff_disj)
qed (auto simp: mem_inv_def vector_max_size_def seeker_inv_def)

text \<open>The part that a position falls into.\<close>

lemma concat_find:
  assumes "concat_keys n m" "m \<noteq> []" "n \<le> unat off"
  shows "\<exists>pre k c post. m = pre @ (k, c) # post \<and> takeWhile (\<lambda>(k, _). \<not> off < k) m = pre @ [(k, c)] \<and>
    unat k = n + length (concat (map snd pre)) \<and> unat k \<le> unat off \<and>
    (post \<noteq> [] \<longrightarrow> unat off < unat k + length c)"
  using assms
proof (induction n m rule: concat_keys.induct)
  case (2 n k c m)
  then have k: "unat k = n" "\<not> off < k" by (auto simp: word_less_nat_alt)
  show ?case
  proof (cases "m \<noteq> [] \<and> n + length c \<le> unat off")
    case True
    have "concat_keys (n + length c) m" using "2.prems"(1) by simp
    with True obtain pre k' c' post where IH: "m = pre @ (k', c') # post"
        "takeWhile (\<lambda>(k, _). \<not> off < k) m = pre @ [(k', c')]"
        "unat k' = n + length c + length (concat (map snd pre))" "unat k' \<le> unat off"
        "post \<noteq> [] \<longrightarrow> unat off < unat k' + length c'"
      using "2.IH" by blast
    have "(k, c) # m = ((k, c) # pre) @ (k', c') # post" using IH(1) by simp
    moreover have "takeWhile (\<lambda>(k, _). \<not> off < k) ((k, c) # m) = ((k, c) # pre) @ [(k', c')]"
      using IH(2) k(2) by simp
    moreover have "unat k' = n + length (concat (map snd ((k, c) # pre)))" using IH(3) by simp
    ultimately show ?thesis using IH(4,5) by blast
  next
    case False
    have "takeWhile (\<lambda>(k, _). \<not> off < k) m = []"
      using False "2.prems"(1) by (cases m) (auto simp: word_less_nat_alt)
    then have tw: "takeWhile (\<lambda>(k, _). \<not> off < k) ((k, c) # m) = [] @ [(k, c)]"
      using k(2) by simp
    have "m \<noteq> [] \<longrightarrow> unat off < unat k + length c" using False k(1) by auto
    with tw k "2.prems"(3) show ?thesis
      by (intro exI [of _ "[]"] exI [of _ k] exI [of _ c] exI [of _ m]) simp
  qed
qed simp

lemma takeWhile_map_keys:
  "takeWhile (\<lambda>(k, _). \<not> off < k) (map (\<lambda>(k, x). (k, f x)) m) =
   map (\<lambda>(k, x). (k, f x)) (takeWhile (\<lambda>(k, _). \<not> off < k) m)"
  by (induction m) auto

lemma ConcatReaderSeeker_PRead_find:
  assumes keys: "concat_keys 0 (map (\<lambda>(k, r). (k, contents r)) m)" and "m \<noteq> []"
  obtains pre k r post where "m = pre @ (k, r) # post"
    and "ConcatReaderSeeker_PRead (map (\<lambda>(k, r). (k, PRead r)) m) n off = PRead r n (off - k)"
    and "unat k = length (concat (map (\<lambda>(k, r). contents r) pre))" "unat (off - k) = unat off - unat k"
    and "unat k \<le> unat off" "post \<noteq> [] \<longrightarrow> unat off - unat k < length (contents r)"
proof -
  let ?c = "\<lambda>(k :: u64, r). (k, contents r)"
  obtain pre k c post where f: "map ?c m = pre @ (k, c) # post"
      "takeWhile (\<lambda>(k, _). \<not> off < k) (map ?c m) = pre @ [(k, c)]"
      "unat k = length (concat (map snd pre))" "unat k \<le> unat off"
      "post \<noteq> [] \<longrightarrow> unat off < unat k + length c"
    using concat_find [OF keys _ le0, of off] assms(2) unfolding add_0 map_is_Nil_conv by blast
  obtain pre' r post' where m: "m = pre' @ (k, r) # post'" "pre = map ?c pre'" "post = map ?c post'"
      "c = contents r"
    using f(1) by (auto simp: map_eq_append_conv map_eq_Cons_conv split: prod.splits)
  have tw: "takeWhile (\<lambda>(k, _). \<not> off < k) m = pre' @ [(k, r)]"
  proof -
    have "map ?c (takeWhile (\<lambda>(k, _). \<not> off < k) m) = map ?c (pre' @ [(k, r)])"
      using f(2) m(2,4) by (simp add: takeWhile_map_keys)
    then have "length (takeWhile (\<lambda>(k, _). \<not> off < k) m) = length (pre' @ [(k, r)])"
      by (metis length_map)
    then show ?thesis
      using takeWhile_eq_take [of "\<lambda>(k, _). \<not> off < k" m] by (simp add: m(1))
  qed
  have "ConcatReaderSeeker_PRead (map (\<lambda>(k, r). (k, PRead r)) m) n off = PRead r n (off - k)"
    by (simp add: ConcatReaderSeeker_PRead_def takeWhile_map_keys tw)
  moreover have "map snd pre = map (\<lambda>(k, r). contents r) pre'"
    by (simp add: m(2) split_def)
  moreover have "post' \<noteq> [] \<longrightarrow> unat off - unat k < length (contents r)"
    using f(4,5) m(3,4) by auto
  ultimately show thesis
    using that [OF m(1)] f(3,4) by (simp add: unat_u64_sub)
qed

lemma prefix_take_mono: "a \<le> b \<Longrightarrow> prefix (take a xs) (take b xs)"
  by (metis take_is_prefix min.absorb1 take_take)

lemma PRead_prefix:
  "reader_inv r \<Longrightarrow> \<exists>bs. PRead r n off = Inr bs \<and>
     prefix bs (take (unat n) (drop (unat off) (contents r))) \<and>
     (bs = [] \<longrightarrow> n = 0 \<or> length (contents r) \<le> unat off)"
proof (induction r arbitrary: n off)
  case (MemoryReader io)
  then show ?case
    by (auto simp: InMemoryIo_PRead_eq mem_inv_def unat_eq_zero)
next
  case (WindowReader p b l fs)
  show ?case
  proof (cases "l \<le> off")
    case True
    then show ?thesis by (simp add: ReadWindowView_PRead_def word_le_nat_alt min_le_iff_disj)
  next
    case False
    have p: "reader_inv p" using WindowReader.prems by simp
    from False have lt: "unat off < unat l" by (simp add: word_le_nat_alt)
    have o: "unat (off + b) = unat off + unat b"
      using WindowReader.prems lt by (intro unat_u64_add) auto
    have c: "unat (min n (l - off)) = min (unat n) (unat l - unat off)"
      using lt by (simp add: unat_u64_min unat_u64_sub)
    obtain bs where bs: "PRead p (min n (l - off)) (off + b) = Inr bs"
        "prefix bs (take (min (unat n) (unat l - unat off)) (drop (unat off + unat b) (contents p)))"
        "bs = [] \<longrightarrow> min n (l - off) = 0 \<or> length (contents p) \<le> unat off + unat b"
      using WindowReader.IH [OF p, of "min n (l - off)" "off + b"] unfolding o c by blast
    have nz: "n = 0" if "min n (l - off) = 0"
    proof -
      have "min (unat n) (unat l - unat off) = 0" unfolding c [symmetric] that by simp
      then have "unat n = 0" using lt by (simp add: min_def split: if_splits)
      then show ?thesis by (simp add: unat_eq_zero)
    qed
    have "PRead (WindowReader p b l fs) n off = Inr bs"
      using False bs(1) by (simp add: ReadWindowView_PRead_def)
    moreover have "take (unat n) (drop (unat off) (contents (WindowReader p b l fs))) =
        take (min (unat n) (unat l - unat off)) (drop (unat off + unat b) (contents p))"
      by (simp add: drop_take)
    moreover have "length (contents p) \<le> unat off + unat b \<Longrightarrow>
        length (contents (WindowReader p b l fs)) \<le> unat off"
      by auto
    ultimately show ?thesis using bs(2,3) nz by metis
  qed
next
  case (ConcatReader m fs)
  have keys: "concat_keys 0 (map (\<lambda>(k, r). (k, contents r)) m)" "m \<noteq> []"
    using ConcatReader.prems by simp_all
  obtain pre k r post where f: "m = pre @ (k, r) # post"
      "ConcatReaderSeeker_PRead (map (\<lambda>(k, r). (k, PRead r)) m) n off = PRead r n (off - k)"
      "unat k = length (concat (map (\<lambda>(k, r). contents r) pre))" "unat (off - k) = unat off - unat k"
      "unat k \<le> unat off" "post \<noteq> [] \<longrightarrow> unat off - unat k < length (contents r)"
    using ConcatReaderSeeker_PRead_find [OF keys, of n off] by blast
  have r: "(k, r) \<in> set m" "r \<in> Basic_BNFs.snds (k, r)" "reader_inv r"
    using ConcatReader.prems f(1) by auto
  obtain bs where bs: "PRead r n (off - k) = Inr bs"
      "prefix bs (take (unat n) (drop (unat off - unat k) (contents r)))"
      "bs = [] \<longrightarrow> n = 0 \<or> length (contents r) \<le> unat off - unat k"
    using ConcatReader.IH [OF r, of n "off - k"] unfolding f(4) by blast
  define rest where "rest = concat (map (\<lambda>(k, r). contents r) post)"
  have cont: "contents (ConcatReader m fs) =
      concat (map (\<lambda>(k, r). contents r) pre) @ contents r @ rest"
    by (simp add: f(1) rest_def)
  have "drop (unat off) (contents (ConcatReader m fs)) =
      drop (unat off - unat k) (contents r) @ drop (unat off - unat k - length (contents r)) rest"
    using f(3,5) unfolding cont by simp
  then have "prefix bs (take (unat n) (drop (unat off) (contents (ConcatReader m fs))))"
    using bs(2) by (simp add: prefix_prefix)
  moreover have "bs = [] \<longrightarrow> n = 0 \<or> length (contents (ConcatReader m fs)) \<le> unat off"
  proof (intro impI)
    assume "bs = []"
    then have "n = 0 \<or> length (contents r) \<le> unat off - unat k" using bs(3) by blast
    moreover have "rest = []" if "post = []" using that by (simp add: rest_def)
    ultimately show "n = 0 \<or> length (contents (ConcatReader m fs)) \<le> unat off"
      using f(3,5,6) unfolding cont by (cases "post = []") auto
  qed
  ultimately show ?case using f(2) bs(1) by simp
qed

interpretation reader: random_access PRead contents reader_inv
  by unfold_locales (erule PRead_prefix, erule contents_short)

section \<open>Sequential reading\<close>

definition remaining :: "ReaderSeeker \<Rightarrow> string" where
  "remaining r = drop (unat (position r)) (contents r)"

lemma FakeSeeker_Read_ok:
  assumes pread: "pread n (seek_pos fs) = Inr bs" "prefix bs (take (unat n) (drop (unat (seek_pos fs)) c))"
    and inv: "seeker_inv fs" "length c \<le> unat (fs_length fs)"
  shows "\<exists>fs'. FakeSeeker_Read pread fs n = Inr (bs, fs') \<and> seeker_inv fs' \<and>
           fs' = fs\<lparr>seek_pos := seek_pos fs'\<rparr> \<and>
           drop (unat (seek_pos fs)) c = bs @ drop (unat (seek_pos fs')) c \<and> length bs \<le> unat n"
proof -
  have len: "length bs \<le> unat n" "length bs \<le> length c - unat (seek_pos fs)"
    using prefix_length_le [OF pread(2)] by auto
  then have pos: "unat (seek_pos fs + of_nat (length bs)) = unat (seek_pos fs) + length bs"
    using inv unat_u64_of_nat [of "length bs"]
    by (subst unat_u64_add) (auto simp: seeker_inv_def word_le_nat_alt)
  have "bs = take (length bs) (drop (unat (seek_pos fs)) c)"
    using pread(2) len by (metis append_eq_conv_conj min_absorb1 prefix_def take_take)
  then have "drop (unat (seek_pos fs)) c = bs @ drop (unat (seek_pos fs) + length bs) c"
    by (metis add.commute append_take_drop_id drop_drop)
  moreover have "seeker_inv (fs\<lparr>seek_pos := seek_pos fs + of_nat (length bs)\<rparr>)"
    using inv len(2) pos by (auto simp: seeker_inv_def word_le_nat_alt)
  ultimately show ?thesis
    using pread(1) len(1) pos by (simp add: FakeSeeker_Read_def)
qed

lemma Read_ok:
  assumes "reader_inv r"
  shows "\<exists>bs r'. Read r n = Inr (bs, r') \<and> reader_inv r' \<and> rewound r' = rewound r \<and>
           remaining r = bs @ remaining r' \<and> length bs \<le> unat n \<and> (bs = [] \<longrightarrow> n = 0 \<or> remaining r = [])"
proof -
  obtain bs where bs: "PRead r n (position r) = Inr bs"
      "prefix bs (take (unat n) (drop (unat (position r)) (contents r)))"
      "bs = [] \<longrightarrow> n = 0 \<or> length (contents r) \<le> unat (position r)"
    using PRead_prefix [OF assms] by blast
  have empty: "bs = [] \<longrightarrow> n = 0 \<or> remaining r = []"
    using bs(3) by (simp add: remaining_def)
  show ?thesis
  proof (cases r)
    case (MemoryReader io)
    have inv: "mem_inv io" using assms by (simp add: MemoryReader)
    obtain io' where io': "InMemoryIo_Read io n = Inr (take (unat n) (drop (unat (io_cursor io)) (io_data io)), io')"
        "mem_inv io'" "io_data io' = io_data io"
        "unat (io_cursor io') = unat (io_cursor io) + min (unat n) (length (io_data io) - unat (io_cursor io))"
      using InMemoryIo_Read_eq [OF inv] by blast
    have "bs = take (unat n) (drop (unat (io_cursor io)) (io_data io))"
      using bs(1) inv by (simp add: MemoryReader InMemoryIo_PRead_eq mem_inv_def)
    moreover have "drop (unat (io_cursor io)) (io_data io) =
        take (unat n) (drop (unat (io_cursor io)) (io_data io)) @ drop (unat (io_cursor io')) (io_data io)"
      unfolding io'(4) by (simp add: min_def) (metis add.commute append_take_drop_id drop_drop)
    moreover have "io'\<lparr>io_cursor := 0\<rparr> = io\<lparr>io_cursor := 0\<rparr>" using io'(3) by simp
    ultimately show ?thesis
      using io' empty by (auto simp: MemoryReader with_memory_def remaining_def)
  next
    case (WindowReader p b l fs)
    obtain fs' where "FakeSeeker_Read (PRead r) fs n = Inr (bs, fs')" "seeker_inv fs'"
        "fs' = fs\<lparr>seek_pos := seek_pos fs'\<rparr>" "length bs \<le> unat n"
        "drop (unat (seek_pos fs)) (contents r) = bs @ drop (unat (seek_pos fs')) (contents r)"
      using FakeSeeker_Read_ok [of "PRead r" n fs bs "contents r"] bs(1,2) assms
      by (auto simp: WindowReader)
    moreover from this(3) have "fs_length fs' = fs_length fs" "fs'\<lparr>seek_pos := 0\<rparr> = fs\<lparr>seek_pos := 0\<rparr>"
      by (metis fake_seeker.select_convs(2) fake_seeker.surjective fake_seeker.update_convs(1))+
    ultimately show ?thesis
      using assms empty by (auto simp: WindowReader with_seeker_def remaining_def)
  next
    case (ConcatReader m fs)
    obtain fs' where "FakeSeeker_Read (PRead r) fs n = Inr (bs, fs')" "seeker_inv fs'"
        "fs' = fs\<lparr>seek_pos := seek_pos fs'\<rparr>" "length bs \<le> unat n"
        "drop (unat (seek_pos fs)) (contents r) = bs @ drop (unat (seek_pos fs')) (contents r)"
      using FakeSeeker_Read_ok [of "PRead r" n fs bs "contents r"] bs(1,2) assms
      by (auto simp: ConcatReader)
    moreover from this(3) have "fs_length fs' = fs_length fs" "fs'\<lparr>seek_pos := 0\<rparr> = fs\<lparr>seek_pos := 0\<rparr>"
      by (metis fake_seeker.select_convs(2) fake_seeker.surjective fake_seeker.update_convs(1))+
    ultimately show ?thesis
      using assms empty by (auto simp: ConcatReader with_seeker_def remaining_def)
  qed
qed

interpretation reader: seq_reader Read remaining reader_inv
  by unfold_locales (use Read_ok in blast)

section \<open>Seeking\<close>

lemma record_rewound_eq:
  "io_cursor a = io_cursor b \<Longrightarrow> a\<lparr>io_cursor := 0\<rparr> = b\<lparr>io_cursor := 0\<rparr> \<Longrightarrow> a = (b :: in_memory_io)"
  "seek_pos f = seek_pos g \<Longrightarrow> f\<lparr>seek_pos := 0\<rparr> = g\<lparr>seek_pos := 0\<rparr> \<Longrightarrow> f = (g :: fake_seeker)"
  by (cases a; cases b; simp) (cases f; cases g; simp)

lemma rewound_inject: "position s = position t \<Longrightarrow> rewound s = rewound t \<Longrightarrow> s = t"
  by (cases s; cases t) (auto dest: record_rewound_eq)

lemma rewound_size: "rewound s = rewound t \<Longrightarrow> reader_size s = reader_size t"
  by (cases s; cases t; auto dest: arg_cong [where f = io_data] arg_cong [where f = fs_length])

lemma position_le_size: "reader_inv r \<Longrightarrow> position r \<le> reader_size r"
  by (cases r)
    (auto simp: mem_inv_def seeker_inv_def word_le_nat_alt vector_max_size_def unat_u64_of_nat)

lemma FakeSeeker_SeekCur_0: "seeker_inv fs \<Longrightarrow> FakeSeeker_SeekCur fs 0 = Inr (seek_pos fs, fs)"
  by (simp add: FakeSeeker_SeekCur_def seeker_inv_def i64_add_0 word_le_nat_alt min_def Let_def)

lemma FakeSeeker_SeekEnd_0:
  "seeker_inv fs \<Longrightarrow> FakeSeeker_SeekEnd fs 0 = Inr (fs_length fs, fs\<lparr>seek_pos := fs_length fs\<rparr>)"
  by (simp add: FakeSeeker_SeekEnd_def seeker_inv_def i64_add_0 Let_def)

lemma SeekSet_ok:
  assumes "reader_inv r" "off \<le> reader_size r"
  shows "\<exists>r'. SeekSet r off = Inr (off, r') \<and> reader_inv r' \<and> position r' = off \<and> rewound r' = rewound r"
proof (cases r)
  case (MemoryReader io)
  then have "unat off \<le> length (io_data io)" "unat off \<le> vector_max_size"
    using assms by (auto simp: mem_inv_def word_le_nat_alt vector_max_size_def unat_u64_of_nat)
  then show ?thesis
    using assms by (auto simp: MemoryReader with_memory_def InMemoryIo_SeekSet_eq mem_inv_def)
qed (use assms in \<open>auto simp: with_seeker_def FakeSeeker_SeekSet_def seeker_inv_def min_def\<close>)

lemma SeekCur_0: "reader_inv r \<Longrightarrow> SeekCur r 0 = Inr (position r, r)"
  by (cases r)
    (auto simp: with_seeker_def with_memory_def InMemoryIo_SeekCur_0 FakeSeeker_SeekCur_0)

lemma SeekEnd_0:
  "reader_inv r \<Longrightarrow> \<exists>r'. SeekEnd r 0 = Inr (reader_size r, r') \<and> reader_inv r' \<and>
     position r' = reader_size r \<and> rewound r' = rewound r"
  by (cases r)
    (auto simp: with_seeker_def with_memory_def InMemoryIo_SeekEnd_0 FakeSeeker_SeekEnd_0
      mem_inv_def vector_max_size_def unat_u64_of_nat seeker_inv_def)

interpretation reader: seekable SeekSet SeekCur SeekEnd position reader_size rewound reader_inv
  by unfold_locales
    (rule SeekSet_ok SeekCur_0 SeekEnd_0 position_le_size rewound_size rewound_inject; assumption)+

interpretation reader: seekable_reader SeekSet SeekCur SeekEnd position reader_size rewound reader_inv
  Read contents
proof unfold_locales
  fix r n assume "reader_inv r"
  then obtain bs r' where r: "Read r n = Inr (bs, r')" "reader_inv r'" "rewound r' = rewound r"
      "remaining r = bs @ remaining r'" "length bs \<le> unat n"
    using Read_ok by blast
  then have "prefix bs (take (unat n) (drop (unat (position r)) (contents (rewound r))))"
    by (simp add: remaining_def prefix_def)
  with r show "\<exists>bs r'. Read r n = Inr (bs, r') \<and> reader_inv r' \<and> rewound r' = rewound r \<and>
      prefix bs (take (unat n) (drop (unat (position r)) (contents (rewound r))))"
    by blast
qed

section \<open>Writing and copying\<close>

definition mem_output :: "in_memory_io \<Rightarrow> string" where
  "mem_output io = take (unat (io_cursor io)) (io_data io)"

lemma InMemoryIo_Write_ok:
  assumes inv: "mem_inv io" and room: "length (mem_output io) + length buf \<le> vector_max_size"
  shows "\<exists>n io'. InMemoryIo_Write io buf = Inr (n, io') \<and> mem_inv io' \<and> unat n \<le> length buf \<and>
           mem_output io' = mem_output io @ take (unat n) buf \<and> (n = 0 \<longrightarrow> buf = [])"
proof -
  have c: "unat (io_cursor io) \<le> length (io_data io)" using inv by (simp add: mem_inv_def)
  then have room': "unat (io_cursor io) + length buf \<le> vector_max_size"
    using room by (simp add: mem_output_def)
  have lb: "unat (of_nat (length buf) :: u64) = length buf"
    using room' by (intro unat_u64_of_nat) (simp add: vector_max_size_def)
  have p: "unat (io_cursor io + of_nat (length buf)) = unat (io_cursor io) + length buf"
    using room' by (subst unat_u64_add) (simp_all add: lb vector_max_size_def)
  have "of_nat (length buf) = (0 :: u64) \<Longrightarrow> buf = []" using lb by simp
  then show ?thesis
    using InMemoryIo_Write_eq [OF inv room'] inv room' c
    by (auto simp: lb p mem_inv_def mem_output_def)
qed

interpretation memory: seq_writer InMemoryIo_Write mem_output mem_inv vector_max_size
  by unfold_locales (rule InMemoryIo_Write_ok)

interpretation memory: copying Read remaining reader_inv InMemoryIo_Write mem_output mem_inv vector_max_size
  by unfold_locales

section \<open>Concatenation\<close>

text \<open>The map built so far: parts in key order whose contents end where the next part starts.\<close>

definition concat_inv :: "(u64 \<times> ReaderSeeker) list \<Rightarrow> u64 \<Rightarrow> string \<Rightarrow> bool" where
  "concat_inv m offset c \<longleftrightarrow> (\<forall>(k, r) \<in> set m. reader_inv r) \<and> sorted_wrt (<) (map fst m) \<and>
     concat_keys 0 (map (\<lambda>(k, r). (k, contents r)) m) \<and>
     concat (map (\<lambda>(k, r). contents r) m) = c \<and> unat offset = length c"

lemma concat_keys_append:
  "concat_keys n (m @ [(k, c)]) \<longleftrightarrow> concat_keys n m \<and> unat k = n + length (concat (map snd m))"
  by (induction n m rule: concat_keys.induct) (auto simp: add.assoc)

lemma concat_keys_bound:
  "concat_keys n m \<Longrightarrow> k \<in> fst ` set m \<Longrightarrow> unat k \<le> n + length (concat (map snd m))"
proof (induction n m rule: concat_keys.induct)
  case (2 n k' c m)
  show ?case
  proof (cases "k \<in> fst ` set m")
    case True
    then have "unat k \<le> n + length c + length (concat (map snd m))" using 2 by simp
    then show ?thesis by simp
  next
    case False
    then have "k = k'" using "2.prems"(2) by simp
    then show ?thesis using "2.prems"(1) by simp
  qed
qed simp

lemma concat_snd_contents:
  "concat (map snd (map (\<lambda>(k, r). (k, contents r)) m)) = concat (map (\<lambda>(k, r). contents r) m)"
  "concat (map (snd \<circ> (\<lambda>(k, r). (k, contents r))) m) = concat (map (\<lambda>(k, r). contents r) m)"
  by (simp_all add: split_def comp_def)

lemma concat_inv_assign:
  assumes inv: "concat_inv m offset c" and r: "reader_inv r"
    and short: "length c + length (contents r) < 18446744073709551616" "unat len = length (contents r)"
  shows "concat_inv (map_assign offset r m) (offset + len) (c @ contents r)"
proof -
  have off: "unat (offset + len) = length (c @ contents r)"
    using inv short by (subst unat_u64_add) (simp_all add: concat_inv_def)
  have le: "k \<le> offset" if "k \<in> fst ` set m" for k
    using concat_keys_bound [of 0 "map (\<lambda>(k, r). (k, contents r)) m" k] inv that
    unfolding concat_snd_contents by (force simp: concat_inv_def word_le_nat_alt)
  show ?thesis
  proof (cases "offset \<in> fst ` set m")
    case False
    then have "\<forall>k \<in> set (map fst m). k < offset" using le by (force simp: order.strict_iff_order)
    then have eq: "map_assign offset r m = m @ [(offset, r)]" by (rule map_assign_last)
    have "sorted_wrt (<) (map fst (map_assign offset r m))"
      using inv by (intro map_assign_strict) (simp add: concat_inv_def)
    then show ?thesis
      using inv r off unfolding concat_inv_def eq
      by (auto simp: concat_keys_append concat_snd_contents)
  next
    case True
    then obtain m1 r1 m2 where m: "m = m1 @ (offset, r1) # m2" by (auto dest!: split_list)
    have lt: "\<forall>k \<in> set (map fst m1). k < offset" and gt: "\<forall>k \<in> set (map fst m2). offset < k"
      using inv by (auto simp: concat_inv_def m sorted_wrt_append)
    have "m2 = []"
    proof (rule ccontr)
      assume "m2 \<noteq> []"
      then have "offset < fst (hd m2)" "fst (hd m2) \<le> offset" using gt le by (auto simp: m)
      then show False by simp
    qed
    then have m': "m = m1 @ [(offset, r1)]" by (simp add: m)
    have eq: "map_assign offset r m = m1 @ [(offset, r)]"
      unfolding m' using lt by (rule map_assign_last)
    have "concat_keys 0 (map (\<lambda>(k, r). (k, contents r)) m1)"
        "unat offset = length (concat (map (\<lambda>(k, r). contents r) m1))"
      using inv by (simp_all add: concat_inv_def m' concat_keys_append concat_snd_contents)
    moreover have "c = concat (map (\<lambda>(k, r). contents r) m1) @ contents r1" "unat offset = length c"
      using inv by (simp_all add: concat_inv_def m')
    moreover have "sorted_wrt (<) (map fst (m1 @ [(offset, r)]))"
      using inv by (simp add: concat_inv_def m' sorted_wrt_append)
    ultimately show ?thesis
      using inv r off unfolding concat_inv_def eq
      by (simp add: m' concat_keys_append concat_snd_contents)
  qed
qed

text \<open>A reader whose seek length is the length of what it presents.\<close>

definition exact_reader :: "ReaderSeeker \<Rightarrow> bool" where
  "exact_reader r \<longleftrightarrow> reader_inv r \<and> unat (reader_size r) = length (contents r)"

lemma create_loop_ok:
  assumes "\<forall>r \<in> set readers. exact_reader r" and "concat_inv m offset c"
    and "length c + length (concat (map contents readers)) < 9223372036854775808"
  shows "\<exists>offset' m'. create_loop readers offset m = Inr (offset', m') \<and>
           concat_inv m' offset' (c @ concat (map contents readers)) \<and> (readers \<noteq> [] \<or> m \<noteq> [] \<longrightarrow> m' \<noteq> [])"
  using assms
proof (induction readers offset m arbitrary: c rule: create_loop.induct)
  case (2 reader readers offset m)
  have r: "reader_inv reader" "unat (reader_size reader) = length (contents reader)"
    using "2.prems"(1) by (auto simp: exact_reader_def)
  have len: "reader_length reader = Inr (reader_size reader, reader)"
    unfolding reader_length_def using r(1) by (rule reader.Length_ok)
  have inv: "concat_inv (map_assign offset reader m) (offset + reader_size reader) (c @ contents reader)"
    using "2.prems" r by (intro concat_inv_assign) auto
  have "\<exists>offset' m'. create_loop readers (offset + reader_size reader) (map_assign offset reader m) =
        Inr (offset', m') \<and> concat_inv m' offset' ((c @ contents reader) @ concat (map contents readers)) \<and>
        (readers \<noteq> [] \<or> map_assign offset reader m \<noteq> [] \<longrightarrow> m' \<noteq> [])"
    by (rule "2.IH") (use "2.prems" inv len in auto)
  then show ?case using len by auto
qed auto

lemma Create_ok:
  assumes "readers \<noteq> []" "\<forall>r \<in> set readers. exact_reader r"
    and "length (concat (map contents readers)) < 9223372036854775808"
  shows "\<exists>r. ConcatReaderSeeker_Create readers = Inr r \<and> exact_reader r \<and> position r = 0 \<and>
           contents r = concat (map contents readers)"
proof -
  have "concat_inv [] 0 []" by (simp add: concat_inv_def)
  then obtain offset m where m: "create_loop readers 0 [] = Inr (offset, m)"
      "concat_inv m offset (concat (map contents readers))" "m \<noteq> []"
    using create_loop_ok [of readers "[]" 0 "[]"] assms by auto
  then show ?thesis
    using assms(1,3)
    by (auto simp: ConcatReaderSeeker_Create_def concat_inv_def exact_reader_def seeker_inv_def
        ReaderFakeSeeker_def)
qed

section \<open>The buffer as a file\<close>

text \<open>
  The abstract file: its bytes and a position in them.  \<open>afile_seek\<close> is what the in-memory file does
  on a seek: a position past the end extends the file with zero bytes.
\<close>

type_synonym afile = "string \<times> nat"

definition afile_read :: "afile \<Rightarrow> nat \<Rightarrow> string \<times> afile" where
  "afile_read f n = (take n (drop (snd f) (fst f)), (fst f, snd f + min n (length (fst f) - snd f)))"

definition afile_write :: "afile \<Rightarrow> string \<Rightarrow> afile" where
  "afile_write f buf = (take (snd f) (fst f) @ buf @ drop (snd f + length buf) (fst f), snd f + length buf)"

definition afile_seek :: "afile \<Rightarrow> nat \<Rightarrow> afile" where
  "afile_seek f p = (fst f @ replicate (p - length (fst f)) (CHR 0x00), p)"

definition afile_pwrite :: "afile \<Rightarrow> string \<Rightarrow> nat \<Rightarrow> afile" where
  "afile_pwrite f buf p = (fst (afile_write (afile_seek f p) buf), snd f)"

definition file_abs :: "in_memory_io \<Rightarrow> afile" where
  "file_abs io = (io_data io, unat (io_cursor io))"

lemma InMemoryIo_PWrite_ok:
  assumes inv: "mem_inv io" and room: "unat off + length buf \<le> vector_max_size"
  shows "\<exists>io'. InMemoryIo_PWrite io buf off = Inr (of_nat (length buf), io') \<and> mem_inv io' \<and>
           file_abs io' = afile_pwrite (file_abs io) buf (unat off)"
proof -
  have lb: "unat (of_nat (length buf) :: u64) = length buf"
    using room by (intro unat_u64_of_nat) (simp add: vector_max_size_def)
  have c: "unat (off + of_nat (length buf)) = unat off + length buf"
    using room by (subst unat_u64_add) (simp_all add: lb vector_max_size_def)
  define d where "d = io_data io @ replicate (unat off + length buf - length (io_data io)) (CHR 0x00)"
  have g: "GrowTo (io_data io) (off + of_nat (length buf)) = Inr d"
    using room unfolding d_def by (subst GrowTo_ok) (simp_all add: c)
  have ld: "unat off + length buf \<le> length d" "length d \<le> vector_max_size" "length (io_data io) \<le> length d"
    using room inv by (auto simp: d_def mem_inv_def)
  have dd: "take (unat off) d @ buf @ drop (unat off + length buf) d =
      fst (afile_pwrite (file_abs io) buf (unat off))"
    by (simp add: d_def afile_pwrite_def afile_write_def afile_seek_def file_abs_def min_def)
  have "(if (0 :: u64) < of_nat (length buf) then memcpy_to d off buf else Inr d) =
      Inr (take (unat off) d @ buf @ drop (unat off + length buf) d)"
    using ld(1) lb by (cases "buf = []") (auto simp: memcpy_to_def word_less_nat_alt)
  then have w: "InMemoryIo_PWrite io buf off = Inr (of_nat (length buf),
      io\<lparr>io_data := take (unat off) d @ buf @ drop (unat off + length buf) d\<rparr>)"
    unfolding InMemoryIo_PWrite_def Let_def g by simp
  have "mem_inv (io\<lparr>io_data := take (unat off) d @ buf @ drop (unat off + length buf) d\<rparr>)"
    using inv ld by (auto simp: mem_inv_def)
  then show ?thesis
    unfolding w by (auto simp: dd file_abs_def afile_pwrite_def)
qed


lemma mem_inv_abc: "mem_inv \<lparr>io_data = ''abc'', io_cursor = 1\<rparr>"
  by (simp add: mem_inv_def vector_max_size_def)


section \<open>Properties of the reader trees\<close>

text \<open>C25. An exact positioned read of any tree of readers returns the bytes of the range it asks for when
  the contents reach that far, however the parts cut the calls short, and otherwise fails with the end of
  file error.\<close>

theorem PReadExact_reader:
  assumes "reader_inv r"
  shows "PReadExact (PRead r) sz off [] =
    (if sz = 0 \<or> unat off + unat sz \<le> length (contents r)
     then Inr (take (unat sz) (drop (unat off) (contents r)))
     else Inl (CfError ''EOF, still want to read''))"
  using assms by (rule reader.PReadExact_spec)

lemma reader_inv_memory: "reader_inv (MemoryReader \<lparr>io_data = ''abc'', io_cursor = 1\<rparr>)"
  by (simp add: mem_inv_abc)

theorem PReadExact_reader_witness:
  "PReadExact (PRead (MemoryReader \<lparr>io_data = ''abc'', io_cursor = 1\<rparr>)) 2 1 [] = Inr ''bc'' \<and>
   PReadExact (PRead (MemoryReader \<lparr>io_data = ''abc'', io_cursor = 1\<rparr>)) 3 1 [] =
     Inl (CfError ''EOF, still want to read'')"
  using PReadExact_reader [OF reader_inv_memory, of 2 1] PReadExact_reader [OF reader_inv_memory, of 3 1]
  by simp

text \<open>C26. Concatenating readers succeeds and presents their contents one after the other, parts of length
  zero included: exact reads at any position, across part boundaries too, return the bytes of the
  concatenation.\<close>

theorem ConcatReaderSeeker_Create_correct:
  assumes "readers \<noteq> []" "\<forall>r \<in> set readers. exact_reader r"
    and "length (concat (map contents readers)) < 9223372036854775808"
  shows "\<exists>r. ConcatReaderSeeker_Create readers = Inr r \<and> exact_reader r \<and>
    contents r = concat (map contents readers) \<and>
    (\<forall>sz off. unat off + unat sz \<le> length (concat (map contents readers)) \<longrightarrow>
       PReadExact (PRead r) sz off [] =
         Inr (take (unat sz) (drop (unat off) (concat (map contents readers)))))"
proof -
  obtain r where r: "ConcatReaderSeeker_Create readers = Inr r" "exact_reader r"
      "contents r = concat (map contents readers)"
    using Create_ok [OF assms] by blast
  then show ?thesis
    using reader.PReadExact_in_range [of r] by (auto simp: exact_reader_def)
qed

theorem ConcatReaderSeeker_Create_correct_witness:
  "\<exists>r. ConcatReaderSeeker_Create
          [MemoryReader \<lparr>io_data = ''ab'', io_cursor = 0\<rparr>, MemoryReader \<lparr>io_data = [], io_cursor = 0\<rparr>,
           ReadWindowView (MemoryReader \<lparr>io_data = ''wxyz'', io_cursor = 0\<rparr>) 1 2] = Inr r \<and>
     exact_reader r \<and> contents r = ''abxy'' \<and>
     (\<forall>sz off. unat off + unat sz \<le> length ''abxy'' \<longrightarrow>
        PReadExact (PRead r) sz off [] = Inr (take (unat sz) (drop (unat off) ''abxy'')))"
  using ConcatReaderSeeker_Create_correct
    [of "[MemoryReader \<lparr>io_data = ''ab'', io_cursor = 0\<rparr>, MemoryReader \<lparr>io_data = [], io_cursor = 0\<rparr>,
          ReadWindowView (MemoryReader \<lparr>io_data = ''wxyz'', io_cursor = 0\<rparr>) 1 2]"]
  by (simp add: ReadWindowView_def ReaderFakeSeeker_def exact_reader_def mem_inv_def vector_max_size_def
      seeker_inv_def)

text \<open>C27. Copying any tree of readers to the in-memory file returns, and appends exactly the bytes the
  reader had left, whatever the sizes of the single reads and writes.\<close>

theorem Copy_to_memory:
  assumes "reader_inv r" "mem_inv io"
    and "length (mem_output io) + length (remaining r) \<le> vector_max_size"
  shows "\<exists>r' io'. Copy Read InMemoryIo_Write r io = Some (Inr (r', io')) \<and>
           remaining r' = [] \<and> mem_inv io' \<and> mem_output io' = mem_output io @ remaining r"
  using memory.Copy_ok [OF assms] by blast

theorem Copy_to_memory_witness:
  "\<exists>r' io'. Copy Read InMemoryIo_Write (MemoryReader \<lparr>io_data = ''abc'', io_cursor = 1\<rparr>)
       \<lparr>io_data = ''abc'', io_cursor = 1\<rparr> = Some (Inr (r', io')) \<and>
     remaining r' = [] \<and> mem_inv io' \<and> mem_output io' = ''abc''"
  using Copy_to_memory [OF reader_inv_memory mem_inv_abc]
  by (simp add: mem_output_def remaining_def vector_max_size_def)

text \<open>Every seek of a reader within its length lands there and keeps what the reader presents, its
  length is found without moving it, and a positioned read emulated by seeking restores the position.\<close>

theorem reader_seek_laws:
  assumes "reader_inv r" and "off \<le> reader_size r"
  shows "(\<exists>r'. SeekSet r off = Inr (off, r') \<and> position r' = off \<and> contents r' = contents r) \<and>
    reader_length r = Inr (reader_size r, r) \<and>
    (\<exists>bs. FakePRead SeekCur SeekSet Read r n off = Inr (bs, r) \<and>
       prefix bs (take (unat n) (drop (unat off) (contents r))))"
proof (intro conjI)
  obtain r' where "SeekSet r off = Inr (off, r')" "position r' = off" "rewound r' = rewound r"
    using SeekSet_ok [OF assms] by blast
  then show "\<exists>r'. SeekSet r off = Inr (off, r') \<and> position r' = off \<and> contents r' = contents r"
    by (metis contents_rewound)
  show "reader_length r = Inr (reader_size r, r)"
    unfolding reader_length_def using assms(1) by (rule reader.Length_ok)
  show "\<exists>bs. FakePRead SeekCur SeekSet Read r n off = Inr (bs, r) \<and>
      prefix bs (take (unat n) (drop (unat off) (contents r)))"
    using reader.FakePRead_ok [OF assms, of n] by simp
qed

theorem reader_seek_laws_witness:
  "reader_length (MemoryReader \<lparr>io_data = ''abc'', io_cursor = 1\<rparr>) =
     Inr (3, MemoryReader \<lparr>io_data = ''abc'', io_cursor = 1\<rparr>)"
  using reader_seek_laws [OF reader_inv_memory, of 2 0] by simp

end
