(* ===== verification/C_Text.thy ===== *)
theory C_Text
  imports Cf_Prelude
begin

text \<open>
  The text functions of the C library that the sources use: \<open>strlen\<close>, \<open>isspace\<close>, \<open>strtok\<close>, \<open>getline\<close>,
  \<open>atoi\<close>, \<open>strtol\<close> and the integer conversions of \<open>sscanf\<close>.  A \<open>char*\<close> is the list of the bytes before its
  terminator.  A conversion whose value the result type cannot hold is undefined, as in the standard.
\<close>

definition c_str :: "string \<Rightarrow> string" where
  "c_str s = takeWhile (\<lambda>c. c \<noteq> CHR 0x00) s"

definition isspace :: "char \<Rightarrow> bool" where
  "isspace c \<longleftrightarrow> c \<in> {CHR '' '', CHR 0x09, CHR 0x0A, CHR 0x0B, CHR 0x0C, CHR 0x0D}"

definition skip_space :: "string \<Rightarrow> string" where
  "skip_space s = dropWhile isspace s"

text \<open>One call of \<open>strtok\<close>: the token and what the next call continues with, or \<open>NULL\<close>.\<close>

definition strtok :: "string \<Rightarrow> string \<Rightarrow> (string \<times> string) option" where
  "strtok delims s =
     (let s = dropWhile (\<lambda>c. c \<in> set delims) s
      in if s = [] then None
         else Some (takeWhile (\<lambda>c. c \<notin> set delims) s, drop 1 (dropWhile (\<lambda>c. c \<notin> set delims) s)))"

text \<open>The lines of \<open>getline\<close>, each with its newline.\<close>

fun getlines :: "string \<Rightarrow> string list" where
  "getlines [] = []"
| "getlines (c # cs) =
     (if c = CHR 0x0A then [c] # getlines cs
      else case getlines cs of
             [] \<Rightarrow> [[c]]
           | l # ls \<Rightarrow> (c # l) # ls)"

definition digit_value :: "nat \<Rightarrow> char \<Rightarrow> nat option" where
  "digit_value base c =
     (let n = of_char c;
          v = (if 48 \<le> n \<and> n \<le> 57 then n - 48
               else if 97 \<le> n \<and> n \<le> 122 then n - 87
               else if 65 \<le> n \<and> n \<le> 90 then n - 55 else 99)
      in if v < base then Some v else None)"

fun digits_value :: "nat \<Rightarrow> nat \<Rightarrow> string \<Rightarrow> nat" where
  "digits_value base acc [] = acc"
| "digits_value base acc (c # cs) =
     (case digit_value base c of None \<Rightarrow> acc | Some v \<Rightarrow> digits_value base (acc * base + v) cs)"

definition is_digit :: "nat \<Rightarrow> char \<Rightarrow> bool" where
  "is_digit base c \<longleftrightarrow> digit_value base c \<noteq> None"

text \<open>
  An optional sign and at least one digit after white space: the value and the rest of the input.  In base 16 the
  digits may have the prefix \<open>0x\<close>.
\<close>

definition scan_int :: "nat \<Rightarrow> string \<Rightarrow> (int \<times> string) option" where
  "scan_int base s =
     (let s = skip_space s;
          neg = (s \<noteq> [] \<and> hd s = CHR ''-'');
          s = (if s \<noteq> [] \<and> (hd s = CHR ''-'' \<or> hd s = CHR ''+'') then tl s else s);
          s = (if base = 16 \<and> take 2 s \<in> {''0x'', ''0X''} \<and> drop 2 s \<noteq> [] \<and> is_digit base (s ! 2) then drop 2 s
               else s)
      in if s = [] \<or> \<not> is_digit base (hd s) then None
         else let v = int (digits_value base 0 s)
              in Some (if neg then - v else v, dropWhile (is_digit base) s))"

definition to_int32 :: "int \<Rightarrow> u32 result" where
  "to_int32 v =
     (if - 2147483648 \<le> v \<and> v < 2147483648 then Inr (word_of_int v)
      else Inl (UndefinedBehaviour ''value out of range''))"

definition to_uint32 :: "int \<Rightarrow> u32 result" where
  "to_uint32 v =
     (if - 4294967296 < v \<and> v < 4294967296 then Inr (word_of_int v)
      else Inl (UndefinedBehaviour ''value out of range''))"

lemma digits_value_append:
  "\<forall>c \<in> set s. digit_value b c \<noteq> None \<Longrightarrow>
   digits_value b acc (s @ t) = digits_value b (digits_value b acc s) t"
  by (induction s arbitrary: acc) auto

text \<open>\<open>atoi\<close>: zero when there is no number.\<close>

definition atoi :: "string \<Rightarrow> u32 result" where
  "atoi s = (case scan_int 10 s of None \<Rightarrow> Inr 0 | Some (v, _) \<Rightarrow> to_int32 v)"

text \<open>\<open>strtol\<close> without an end pointer: the value is clamped to the range of \<open>long\<close>.\<close>

definition strtol :: "nat \<Rightarrow> string \<Rightarrow> int" where
  "strtol base s =
     (case scan_int base s of
        None \<Rightarrow> 0
      | Some (v, _) \<Rightarrow> max (- 9223372036854775808) (min 9223372036854775807 v))"

end
