(* ===== verification/Cpio.thy ===== *)
theory Cpio
  imports Io_Readers C_Text
begin

text \<open>
  The archive reader of \<open>cuttlefish/io/cpio.cc\<close> for the three CPIO formats, with
  \<open>AlignToPowerOf2\<close> of \<open>size_utils.h\<close>.

  Sizes and offsets keep the widths of the source: the header fields are 32-bit (16-bit in the binary
  format), offsets 64-bit, and \<open>namesize - 1\<close> wraps for a name of size zero.  The entry map keeps the
  first entry of a name, as \<open>std::map::emplace\<close> does.  A parse loop stops only at the trailer or at an
  error; the lemmas show that on every reader it does stop.
\<close>

section \<open>Alignment and number fields\<close>

definition AlignToPowerOf2 :: "u64 \<Rightarrow> nat \<Rightarrow> u64" where
  "AlignToPowerOf2 val align_log =
     (let align = push_bit align_log 1 in ((val + (align - 1)) div align) * align)"

text \<open>
  \<open>std::from_chars\<close> for \<open>uint32_t\<close>: the longest run of digits at the start, without sign, space or
  prefix; an error when there is none or when the value does not fit.
\<close>

definition from_chars_u32 :: "string \<Rightarrow> nat \<Rightarrow> u32 option" where
  "from_chars_u32 s base =
     (if s = [] \<or> digit_value base (hd s) = None then None
      else let v = digits_value base 0 s in if v < 4294967296 then Some (of_nat v) else None)"

definition ParseHex :: "string \<Rightarrow> u32 result" where
  "ParseHex buf =
     (case from_chars_u32 buf 16 of
        None \<Rightarrow> Inl (CfError ''Failed to parse hex value'') | Some v \<Rightarrow> Inr v)"

definition ParseOctal :: "string \<Rightarrow> u32 result" where
  "ParseOctal buf =
     (case from_chars_u32 buf 8 of
        None \<Rightarrow> Inl (CfError ''Failed to parse octal value'') | Some v \<Rightarrow> Inr v)"

definition ReadUnaligned16 :: "string \<Rightarrow> bool \<Rightarrow> u16" where
  "ReadUnaligned16 ptr file_is_big_endian =
     (let bs = take 2 ptr
      in horner_sum of_char 256 (if file_is_big_endian then rev bs else bs))"

definition ReadUnaligned32 :: "string \<Rightarrow> bool \<Rightarrow> u32" where
  "ReadUnaligned32 ptr file_is_big_endian =
     (let bs = take 4 ptr
      in horner_sum of_char 256 (if file_is_big_endian then rev bs else bs))"

section \<open>The reader\<close>

record FileEntry =
  fe_offset :: u64
  fe_size :: u64
  fe_mode :: u32

type_synonym EntriesMap = "string \<rightharpoonup> FileEntry"

definition entries_emplace :: "EntriesMap \<Rightarrow> string \<Rightarrow> FileEntry \<Rightarrow> EntriesMap" where
  "entries_emplace entries name e = (if entries name = None then entries(name \<mapsto> e) else entries)"

definition kMagicNewc1 :: string where "kMagicNewc1 = ''070701''"
definition kMagicNewc2 :: string where "kMagicNewc2 = ''070702''"
definition kMagicOdc :: string where "kMagicOdc = ''070707''"
definition kTrailerName :: string where "kTrailerName = ''TRAILER!!!''"
definition kBinaryLeMagic :: string where "kBinaryLeMagic = [CHR 0xC7, CHR 0x71]"
definition kBinaryBeMagic :: string where "kBinaryBeMagic = [CHR 0x71, CHR 0xC7]"

text \<open>A member of a header that is a \<open>char\<close> array: its offset and its size.\<close>

definition header_field :: "nat \<Rightarrow> nat \<Rightarrow> string \<Rightarrow> string" where
  "header_field off sz header = take sz (drop off header)"

text \<open>
  \<open>CpioNewcHeader\<close>: \<open>magic\<close> at 0, \<open>mode\<close> at 14, \<open>filesize\<close> at 54, \<open>namesize\<close> at 94, and \<open>filename\<close> at
  110, the size of the header.  The result is the file size, the name size and the mode.
\<close>

definition CpioNewcHeader_size :: u64 where "CpioNewcHeader_size = 110"

definition read_newc_header :: "(u64 \<Rightarrow> u64 \<Rightarrow> string result) \<Rightarrow> u64 \<Rightarrow> (u32 \<times> u32 \<times> u32) result" where
  "read_newc_header pread offset =
     rbind (PReadExact pread CpioNewcHeader_size offset []) (\<lambda>header.
     let magic = header_field 0 6 header
     in rbind (cf_expect (magic = kMagicNewc1 \<or> magic = kMagicNewc2) ''Invalid magic in header'') (\<lambda>_.
        rbind (ParseHex (header_field 54 8 header)) (\<lambda>filesize.
        rbind (ParseHex (header_field 94 8 header)) (\<lambda>namesize.
        rbind (ParseHex (header_field 14 8 header)) (\<lambda>mode.
        Inr (filesize, namesize, mode))))))"

partial_function (option) newc_loop ::
    "(u64 \<Rightarrow> u64 \<Rightarrow> string result) \<Rightarrow> u64 \<Rightarrow> EntriesMap \<Rightarrow> EntriesMap result option" where
  "newc_loop pread offset0 entries =
     (let offset = AlignToPowerOf2 offset0 2
      in case read_newc_header pread offset of
           Inl e \<Rightarrow> Some (Inl e)
         | Inr (filesize, namesize, mode) \<Rightarrow>
             (case PReadExact pread (ucast (namesize - 1)) (offset + CpioNewcHeader_size) [] of
                Inl e \<Rightarrow> Some (Inl e)
              | Inr name \<Rightarrow>
                  if name = kTrailerName then Some (Inr entries)
                  else
                    let data_offset = AlignToPowerOf2 (offset + CpioNewcHeader_size + ucast namesize) 2
                    in newc_loop pread (data_offset + ucast filesize)
                         (entries_emplace entries name
                            \<lparr>fe_offset = data_offset, fe_size = ucast filesize, fe_mode = mode\<rparr>)))"

definition ParseNewc :: "(u64 \<Rightarrow> u64 \<Rightarrow> string result) \<Rightarrow> EntriesMap result option" where
  "ParseNewc pread = newc_loop pread 0 Map.empty"

text \<open>\<open>CpioOdcHeader\<close>: \<open>mode\<close> at 18, \<open>namesize\<close> at 59, \<open>filesize\<close> at 65, \<open>filename\<close> at 76.\<close>

definition CpioOdcHeader_size :: u64 where "CpioOdcHeader_size = 76"

definition read_odc_header :: "(u64 \<Rightarrow> u64 \<Rightarrow> string result) \<Rightarrow> u64 \<Rightarrow> (u32 \<times> u32 \<times> u32) result" where
  "read_odc_header pread offset =
     rbind (PReadExact pread CpioOdcHeader_size offset []) (\<lambda>header.
     rbind (cf_expect (header_field 0 6 header = kMagicOdc) ''Invalid magic in header'') (\<lambda>_.
     rbind (ParseOctal (header_field 18 6 header)) (\<lambda>mode.
     rbind (ParseOctal (header_field 59 6 header)) (\<lambda>namesize.
     rbind (ParseOctal (header_field 65 11 header)) (\<lambda>filesize.
     Inr (filesize, namesize, mode))))))"

partial_function (option) odc_loop ::
    "(u64 \<Rightarrow> u64 \<Rightarrow> string result) \<Rightarrow> u64 \<Rightarrow> EntriesMap \<Rightarrow> EntriesMap result option" where
  "odc_loop pread offset entries =
     (case read_odc_header pread offset of
        Inl e \<Rightarrow> Some (Inl e)
      | Inr (filesize, namesize, mode) \<Rightarrow>
          (case PReadExact pread (ucast (namesize - 1)) (offset + CpioOdcHeader_size) [] of
             Inl e \<Rightarrow> Some (Inl e)
           | Inr name \<Rightarrow>
               if name = kTrailerName then Some (Inr entries)
               else
                 let data_offset = offset + CpioOdcHeader_size + ucast namesize
                 in odc_loop pread (data_offset + ucast filesize)
                      (entries_emplace entries name
                         \<lparr>fe_offset = data_offset, fe_size = ucast filesize, fe_mode = mode\<rparr>)))"

definition ParseOdc :: "(u64 \<Rightarrow> u64 \<Rightarrow> string result) \<Rightarrow> EntriesMap result option" where
  "ParseOdc pread = odc_loop pread 0 Map.empty"

text \<open>
  \<open>CpioBinHeader\<close>: \<open>mode\<close> at 6, \<open>namesize\<close> at 20, \<open>filesize\<close> at 22, \<open>filename\<close> at 26.  The mode and the
  name size are 16-bit; \<open>namesize - 1\<close> is a signed \<open>int\<close>, so that a name of size zero asks the string
  constructor for more than its maximum size, which throws.
\<close>

definition CpioBinHeader_size :: u64 where "CpioBinHeader_size = 26"

definition read_bin_header ::
    "(u64 \<Rightarrow> u64 \<Rightarrow> string result) \<Rightarrow> bool \<Rightarrow> u64 \<Rightarrow> (u32 \<times> u16 \<times> u16) result" where
  "read_bin_header pread file_is_big_endian offset =
     rbind (PReadExact pread CpioBinHeader_size offset []) (\<lambda>header.
     rbind (cf_expect (header_field 0 2 header =
         (if file_is_big_endian then kBinaryBeMagic else kBinaryLeMagic)) ''header_magic'') (\<lambda>_.
     let mode = ReadUnaligned16 (header_field 6 2 header) file_is_big_endian;
         namesize = ReadUnaligned16 (header_field 20 2 header) file_is_big_endian;
         filesize = ReadUnaligned32 (header_field 22 4 header) file_is_big_endian
     in Inr (filesize, namesize, mode)))"

partial_function (option) bin_loop ::
    "(u64 \<Rightarrow> u64 \<Rightarrow> string result) \<Rightarrow> bool \<Rightarrow> u64 \<Rightarrow> EntriesMap \<Rightarrow> EntriesMap result option" where
  "bin_loop pread file_is_big_endian offset entries =
     (case read_bin_header pread file_is_big_endian offset of
        Inl e \<Rightarrow> Some (Inl e)
      | Inr (filesize, namesize, mode) \<Rightarrow>
          if namesize = 0 then Some (Inl (StdException ''length_error''))
          else
          (case PReadExact pread (ucast namesize - 1) (offset + CpioBinHeader_size) [] of
             Inl e \<Rightarrow> Some (Inl e)
           | Inr name \<Rightarrow>
               if name = kTrailerName then Some (Inr entries)
               else
                 let data_offset = AlignToPowerOf2 (offset + CpioBinHeader_size + ucast namesize) 1
                 in bin_loop pread file_is_big_endian (AlignToPowerOf2 (data_offset + ucast filesize) 1)
                      (entries_emplace entries name
                         \<lparr>fe_offset = data_offset, fe_size = ucast filesize, fe_mode = ucast mode\<rparr>)))"

definition ParseBin :: "(u64 \<Rightarrow> u64 \<Rightarrow> string result) \<Rightarrow> bool \<Rightarrow> EntriesMap result option" where
  "ParseBin pread file_is_big_endian = bin_loop pread file_is_big_endian 0 Map.empty"

definition Parse :: "(u64 \<Rightarrow> u64 \<Rightarrow> string result) \<Rightarrow> EntriesMap result option" where
  "Parse pread =
     (case PReadExact pread 6 0 [] of
        Inl e \<Rightarrow> Some (Inl e)
      | Inr magic \<Rightarrow>
          if prefix kBinaryLeMagic magic then ParseBin pread False
          else if prefix kBinaryBeMagic magic then ParseBin pread True
          else if magic = kMagicNewc1 \<or> magic = kMagicNewc2 then ParseNewc pread
          else if magic = kMagicOdc then ParseOdc pread
          else Some (Inl (CfError ''Unknown cpio magic'')))"

record CpioReader =
  cpio_reader :: ReaderSeeker
  cpio_entries :: EntriesMap

definition CpioReader_Open :: "ReaderSeeker option \<Rightarrow> CpioReader result option" where
  "CpioReader_Open reader =
     (case reader of
        None \<Rightarrow> Some (Inl (CfError ''Reader is null''))
      | Some r \<Rightarrow>
          map_option (\<lambda>res. rbind res (\<lambda>entries. Inr \<lparr>cpio_reader = r, cpio_entries = entries\<rparr>))
            (Parse (PRead r)))"

definition CpioReader_OpenReadOnly :: "CpioReader \<Rightarrow> string \<Rightarrow> ReaderSeeker result" where
  "CpioReader_OpenReadOnly c path =
     (case cpio_entries c path of
        None \<Rightarrow> Inl (CfError ''File not found in cpio'')
      | Some e \<Rightarrow> Inr (ReadWindowView (cpio_reader c) (fe_offset e) (fe_size e)))"

definition CpioReader_FileAttributes :: "CpioReader \<Rightarrow> string \<Rightarrow> u32 result" where
  "CpioReader_FileAttributes c path =
     (case cpio_entries c path of
        None \<Rightarrow> Inl (CfError ''File not found in cpio'')
      | Some e \<Rightarrow> Inr (fe_mode e))"

section \<open>The loops as iterated steps\<close>

type_synonym cpio_step = "(string \<times> FileEntry \<times> u64) option result"

definition newc_step :: "ReaderSeeker \<Rightarrow> u64 \<Rightarrow> cpio_step" where
  "newc_step r off =
     (let p = AlignToPowerOf2 off 2
      in rbind (read_newc_header (PRead r) p) (\<lambda>(filesize, namesize, mode).
         rbind (PReadExact (PRead r) (ucast (namesize - 1)) (p + CpioNewcHeader_size) []) (\<lambda>name.
         Inr (if name = kTrailerName then None
              else let d = AlignToPowerOf2 (p + CpioNewcHeader_size + ucast namesize) 2
                   in Some (name, \<lparr>fe_offset = d, fe_size = ucast filesize, fe_mode = mode\<rparr>,
                        d + ucast filesize)))))"

definition odc_step :: "ReaderSeeker \<Rightarrow> u64 \<Rightarrow> cpio_step" where
  "odc_step r p =
     rbind (read_odc_header (PRead r) p) (\<lambda>(filesize, namesize, mode).
     rbind (PReadExact (PRead r) (ucast (namesize - 1)) (p + CpioOdcHeader_size) []) (\<lambda>name.
     Inr (if name = kTrailerName then None
          else let d = p + CpioOdcHeader_size + ucast namesize
               in Some (name, \<lparr>fe_offset = d, fe_size = ucast filesize, fe_mode = mode\<rparr>,
                    d + ucast filesize))))"

definition bin_step :: "bool \<Rightarrow> ReaderSeeker \<Rightarrow> u64 \<Rightarrow> cpio_step" where
  "bin_step be r p =
     rbind (read_bin_header (PRead r) be p) (\<lambda>(filesize, namesize, mode).
     if namesize = 0 then Inl (StdException ''length_error'')
     else
     rbind (PReadExact (PRead r) (ucast namesize - 1) (p + CpioBinHeader_size) []) (\<lambda>name.
     Inr (if name = kTrailerName then None
          else let d = AlignToPowerOf2 (p + CpioBinHeader_size + ucast namesize) 1
               in Some (name, \<lparr>fe_offset = d, fe_size = ucast filesize, fe_mode = ucast mode\<rparr>,
                    AlignToPowerOf2 (d + ucast filesize) 1))))"

text \<open>
  What the three formats share: a loop over a step that reads one entry, where a step that reads an entry
  moves the offset forward past the entry's data.  Offsets stay below \<open>2 ^ 63 + 2 ^ 34\<close>: a step starts
  inside the contents, shorter than \<open>2 ^ 63\<close>, and its sizes are 32-bit.
\<close>

definition offset_bound :: nat where "offset_bound = 9223372036854775808 + 17179869184"

definition data_end :: "FileEntry \<Rightarrow> nat" where
  "data_end e = unat (fe_offset e) + unat (fe_size e)"

locale cpio_format =
  fixes loop :: "ReaderSeeker \<Rightarrow> u64 \<Rightarrow> EntriesMap \<Rightarrow> EntriesMap result option"
    and step :: "ReaderSeeker \<Rightarrow> u64 \<Rightarrow> cpio_step"
  assumes loop_unfold: "loop r off ents =
      (case step r off of
         Inl e \<Rightarrow> Some (Inl e)
       | Inr None \<Rightarrow> Some (Inr ents)
       | Inr (Some (name, e, next)) \<Rightarrow> loop r next (entries_emplace ents name e))"
    and step_inside: "reader_inv r \<Longrightarrow> unat off < offset_bound \<Longrightarrow> step r off = Inr x \<Longrightarrow>
      unat off \<le> length (contents r)"
    and step_forward: "reader_inv r \<Longrightarrow> unat off < offset_bound \<Longrightarrow>
      step r off = Inr (Some (name, e, next)) \<Longrightarrow>
      unat off < unat next \<and> data_end e \<le> unat next \<and> unat next < offset_bound"
begin

lemma loop_returns:
  assumes "reader_inv r" and "unat off < offset_bound"
  shows "\<exists>res. loop r off ents = Some res"
  using assms(2)
proof (induction "offset_bound - unat off" arbitrary: off ents rule: less_induct)
  case less
  show ?case
  proof (cases "step r off")
    case (Inl e)
    then show ?thesis by (subst loop_unfold) simp
  next
    case (Inr x)
    show ?thesis
    proof (cases x)
      case None
      with Inr show ?thesis by (subst loop_unfold) simp
    next
      case (Some y)
      obtain name e nxt where y: "y = (name, e, nxt)" by (metis prod_cases3)
      from step_forward [OF assms(1) less.prems] Inr Some y
      have "unat off < unat nxt" "unat nxt < offset_bound" by auto
      then have "\<exists>res. loop r nxt (entries_emplace ents name e) = Some res"
        using less.prems by (intro less.hyps) auto
      then show ?thesis using Inr Some y by (subst loop_unfold) simp
    qed
  qed
qed

text \<open>An archive that parses holds all the data of its entries.\<close>

lemma loop_entries_inside:
  assumes "reader_inv r" and "unat off < offset_bound"
    and "\<forall>n e. ents n = Some e \<longrightarrow> data_end e \<le> unat off"
    and "loop r off ents = Some (Inr m)" and "m n = Some e"
  shows "data_end e \<le> length (contents r)"
  using assms(2-4)
proof (induction "offset_bound - unat off" arbitrary: off ents rule: less_induct)
  case less
  from less.prems(3) obtain x where x: "step r off = Inr x"
    by (subst (asm) loop_unfold) (auto split: sum.splits)
  note inside = step_inside [OF assms(1) less.prems(1) x]
  show ?case
  proof (cases x)
    case None
    with x less.prems(3) have "m = ents" by (subst (asm) loop_unfold) simp
    with less.prems(2) assms(5) inside show ?thesis by fastforce
  next
    case (Some y)
    obtain name e' nxt where y: "y = (name, e', nxt)" by (metis prod_cases3)
    from step_forward [OF assms(1) less.prems(1)] x Some y
    have f: "unat off < unat nxt" "data_end e' \<le> unat nxt" "unat nxt < offset_bound" by auto
    show ?thesis
    proof (rule less.hyps [of nxt "entries_emplace ents name e'"])
      show "offset_bound - unat nxt < offset_bound - unat off" using f less.prems(1) by simp
      show "unat nxt < offset_bound" by (rule f)
      show "\<forall>n e. entries_emplace ents name e' n = Some e \<longrightarrow> data_end e \<le> unat nxt"
        using less.prems(2) f by (simp add: entries_emplace_def) (meson less_imp_le order_trans)
      show "loop r nxt (entries_emplace ents name e') = Some (Inr m)"
        using less.prems(3) x Some y by (subst (asm) loop_unfold) simp
    qed
  qed
qed

end

lemma unat_AlignToPowerOf2:
  assumes "unat v + 2 ^ k \<le> 18446744073709551616" and "k < 64"
  shows "unat (AlignToPowerOf2 v k) = (unat v + (2 ^ k - 1)) div 2 ^ k * 2 ^ k"
proof -
  have pk: "unat (2 ^ k :: u64) = 2 ^ k"
  proof -
    have "(2 :: nat) ^ k < 2 ^ 64" using assms(2) by (intro power_strict_increasing) auto
    then show ?thesis using unat_u64_of_nat [of "2 ^ k"] by simp
  qed
  have ak: "unat (2 ^ k - 1 :: u64) = 2 ^ k - 1"
    by (subst unat_u64_sub) (simp_all add: pk)
  have av: "unat (v + (2 ^ k - 1)) = unat v + (2 ^ k - 1)"
    using assms(1) by (subst unat_u64_add) (simp_all add: ak)
  have dv: "unat ((v + (2 ^ k - 1)) div 2 ^ k) = (unat v + (2 ^ k - 1)) div 2 ^ k"
    by (simp only: unat_div av pk)
  have "(unat v + (2 ^ k - 1)) div 2 ^ k * 2 ^ k \<le> unat v + (2 ^ k - 1)"
    by simp
  also have "\<dots> < 18446744073709551616" using assms(1) by (simp add: Suc_le_eq)
  finally show ?thesis
    by (simp add: AlignToPowerOf2_def Let_def unat_mult_lem [THEN iffD1] dv pk)
qed

lemma AlignToPowerOf2_bounds:
  assumes "unat v + 2 ^ k \<le> 18446744073709551616" and "k < 64"
  shows "unat v \<le> unat (AlignToPowerOf2 v k)" "unat (AlignToPowerOf2 v k) < unat v + 2 ^ k"
    "2 ^ k dvd unat (AlignToPowerOf2 v k)"
proof -
  let ?n = "unat v + (2 ^ k - 1)"
  have d: "?n div 2 ^ k * 2 ^ k = ?n - ?n mod 2 ^ k" by (simp add: minus_mod_eq_div_mult)
  have m: "?n mod 2 ^ k < 2 ^ k" by simp
  then have "?n mod 2 ^ k \<le> 2 ^ k - 1" by linarith
  then have "unat v \<le> ?n - ?n mod 2 ^ k" by linarith
  with d show "unat v \<le> unat (AlignToPowerOf2 v k)" by (simp only: unat_AlignToPowerOf2 [OF assms])
  have "?n < unat v + 2 ^ k" by simp
  with d show "unat (AlignToPowerOf2 v k) < unat v + 2 ^ k" 
    by (simp only: unat_AlignToPowerOf2 [OF assms] less_imp_diff_less)
  show "2 ^ k dvd unat (AlignToPowerOf2 v k)" by (simp add: unat_AlignToPowerOf2 [OF assms])
qed

lemma header_inside:
  assumes "reader_inv r" and "PReadExact (PRead r) sz p [] = Inr bs" and "0 < sz"
  shows "unat p + unat sz \<le> length (contents r)"
  using assms reader.PReadExact_spec [OF assms(1), of sz p] by (auto split: if_splits)

lemma unat_u32_less: "unat (x :: u32) < 4294967296"
  using unsigned_less [of x] by simp

lemma unat_u16_less: "unat (x :: u16) < 65536"
  using unsigned_less [of x] by simp

lemma unat_ucast_u32 [simp]: "unat (ucast (x :: u32) :: u64) = unat x"
  using unat_u32_less [of x] by (simp add: unsigned_ucast_eq take_bit_eq_mod)

lemma unat_ucast_u16 [simp]: "unat (ucast (x :: u16) :: u64) = unat x"
  using unat_u16_less [of x] by (simp add: unsigned_ucast_eq take_bit_eq_mod)

lemma read_newc_header_inside:
  assumes "reader_inv r" and "read_newc_header (PRead r) p = Inr x"
  shows "unat p + 110 \<le> length (contents r)"
proof -
  from assms(2) obtain h where "PReadExact (PRead r) CpioNewcHeader_size p [] = Inr h"
    by (auto simp: read_newc_header_def rbind_eq_Inr)
  from header_inside [OF assms(1) this] show ?thesis by (simp add: CpioNewcHeader_size_def)
qed

lemma read_odc_header_inside:
  assumes "reader_inv r" and "read_odc_header (PRead r) p = Inr x"
  shows "unat p + 76 \<le> length (contents r)"
proof -
  from assms(2) obtain h where "PReadExact (PRead r) CpioOdcHeader_size p [] = Inr h"
    by (auto simp: read_odc_header_def rbind_eq_Inr)
  from header_inside [OF assms(1) this] show ?thesis by (simp add: CpioOdcHeader_size_def)
qed

lemma read_bin_header_inside:
  assumes "reader_inv r" and "read_bin_header (PRead r) be p = Inr x"
  shows "unat p + 26 \<le> length (contents r)"
proof -
  from assms(2) obtain h where "PReadExact (PRead r) CpioBinHeader_size p [] = Inr h"
    by (auto simp: read_bin_header_def rbind_eq_Inr)
  from header_inside [OF assms(1) this] show ?thesis by (simp add: CpioBinHeader_size_def)
qed

text \<open>The offset of the data and the next offset, for a header of \<open>h\<close> bytes inside the contents.\<close>

lemma data_offset_bounds:
  fixes p h :: u64 and ns fs :: nat
  assumes "unat p + unat h \<le> len" "len < 9223372036854775808" "ns < 4294967296" "fs < 4294967296"
    and "d = p + h + of_nat ns" "k \<le> 2" "D = AlignToPowerOf2 d k"
  shows "unat d = unat p + unat h + ns" "unat d \<le> unat D" "unat D < unat d + 4"
    "unat (D + of_nat fs) = unat D + fs"
proof -
  have "(2 :: nat) ^ k \<le> 2 ^ 2" using assms(6) by (intro power_increasing) auto
  then have k: "(2 :: nat) ^ k \<le> 4" by simp
  have ph: "unat (p + h) = unat p + unat h" using assms(1,2) by (subst unat_u64_add) simp_all
  show d: "unat d = unat p + unat h + ns"
    using assms(1,2,3) unfolding assms(5) by (subst unat_u64_add) (simp_all add: ph unat_u64_of_nat)
  have b: "unat d + 2 ^ k \<le> 18446744073709551616" using d assms(1,2,3) k by linarith
  show l: "unat d \<le> unat D" and u: "unat D < unat d + 4"
    using AlignToPowerOf2_bounds [OF b] assms(6) k unfolding assms(7) by linarith+
  show "unat (D + of_nat fs) = unat D + fs"
    using u d assms(1-4) by (subst unat_u64_add) (simp_all add: unat_u64_of_nat)
qed

lemma of_nat_unat_u64 [simp]:
  "of_nat (unat (x :: u32)) = (ucast x :: u64)" "of_nat (unat (y :: u16)) = (ucast y :: u64)"
  by (simp_all add: unsigned_of_nat of_nat_unat)

lemma newc_loop_unfold:
  "newc_loop (PRead r) off ents =
     (case newc_step r off of
        Inl e \<Rightarrow> Some (Inl e)
      | Inr None \<Rightarrow> Some (Inr ents)
      | Inr (Some (name, e, next)) \<Rightarrow> newc_loop (PRead r) next (entries_emplace ents name e))"
  by (subst newc_loop.simps) (simp add: newc_step_def Let_def rbind_def split: sum.splits prod.splits)

lemma odc_loop_unfold:
  "odc_loop (PRead r) off ents =
     (case odc_step r off of
        Inl e \<Rightarrow> Some (Inl e)
      | Inr None \<Rightarrow> Some (Inr ents)
      | Inr (Some (name, e, next)) \<Rightarrow> odc_loop (PRead r) next (entries_emplace ents name e))"
  by (subst odc_loop.simps) (simp add: odc_step_def Let_def rbind_def split: sum.splits prod.splits)

lemma bin_loop_unfold:
  "bin_loop (PRead r) be off ents =
     (case bin_step be r off of
        Inl e \<Rightarrow> Some (Inl e)
      | Inr None \<Rightarrow> Some (Inr ents)
      | Inr (Some (name, e, next)) \<Rightarrow> bin_loop (PRead r) be next (entries_emplace ents name e))"
  by (subst bin_loop.simps) (simp add: bin_step_def Let_def rbind_def split: sum.splits prod.splits)

interpretation newc: cpio_format "\<lambda>r. newc_loop (PRead r)" newc_step
proof (unfold_locales, rule newc_loop_unfold)
  fix r and off :: u64 and x
  assume r: "reader_inv r" and off: "unat off < offset_bound"
  define p where "p = AlignToPowerOf2 off 2"
  have p: "unat off \<le> unat p"
    using AlignToPowerOf2_bounds(1) [of off 2] off by (simp add: p_def offset_bound_def)
  show "unat off \<le> length (contents r)" if "newc_step r off = Inr x"
  proof -
    from that obtain h where "read_newc_header (PRead r) p = Inr h"
      by (auto simp: newc_step_def Let_def rbind_eq_Inr p_def)
    from read_newc_header_inside [OF r this] p show ?thesis by simp
  qed
  fix name e nxt
  assume "newc_step r off = Inr (Some (name, e, nxt))"
  then obtain fs ns mo where h: "read_newc_header (PRead r) p = Inr (fs, ns, mo)"
    and e: "fe_offset e = AlignToPowerOf2 (p + CpioNewcHeader_size + ucast ns) 2"
      "fe_size e = ucast fs" "nxt = fe_offset e + ucast fs"
    by (auto simp: newc_step_def Let_def rbind_eq_Inr p_def split: if_splits)
  have i: "unat p + unat CpioNewcHeader_size \<le> length (contents r)"
    using read_newc_header_inside [OF r h] by (simp add: CpioNewcHeader_size_def)
  note b = data_offset_bounds [OF i contents_short [OF r] unat_u32_less [of ns] unat_u32_less [of fs] refl,
      of 2, OF _ refl, simplified]
  show "unat off < unat nxt \<and> data_end e \<le> unat nxt \<and> unat nxt < offset_bound"
    using b p i contents_short [OF r] unat_u32_less [of ns] unat_u32_less [of fs]
    by (simp add: e data_end_def offset_bound_def CpioNewcHeader_size_def)
qed

lemma AlignToPowerOf2_0 [simp]: "AlignToPowerOf2 v 0 = v"
  by (simp add: AlignToPowerOf2_def)

interpretation odc: cpio_format "\<lambda>r. odc_loop (PRead r)" odc_step
proof (unfold_locales, rule odc_loop_unfold)
  fix r and p :: u64 and x
  assume r: "reader_inv r" and off: "unat p < offset_bound"
  show "unat p \<le> length (contents r)" if "odc_step r p = Inr x"
  proof -
    from that obtain h where "read_odc_header (PRead r) p = Inr h"
      by (auto simp: odc_step_def Let_def rbind_eq_Inr)
    from read_odc_header_inside [OF r this] show ?thesis by simp
  qed
  fix name e nxt
  assume "odc_step r p = Inr (Some (name, e, nxt))"
  then obtain fs ns mo where h: "read_odc_header (PRead r) p = Inr (fs, ns, mo)"
    and e: "fe_offset e = p + CpioOdcHeader_size + ucast ns"
      "fe_size e = ucast fs" "nxt = fe_offset e + ucast fs"
    by (auto simp: odc_step_def Let_def rbind_eq_Inr split: if_splits)
  have i: "unat p + unat CpioOdcHeader_size \<le> length (contents r)"
    using read_odc_header_inside [OF r h] by (simp add: CpioOdcHeader_size_def)
  note b = data_offset_bounds [OF i contents_short [OF r] unat_u32_less [of ns] unat_u32_less [of fs] refl,
      of 0, OF _ refl, simplified]
  show "unat p < unat nxt \<and> data_end e \<le> unat nxt \<and> unat nxt < offset_bound"
    using b i contents_short [OF r] unat_u32_less [of ns] unat_u32_less [of fs]
    by (simp add: e data_end_def offset_bound_def CpioOdcHeader_size_def)
qed

interpretation bin: cpio_format "\<lambda>r. bin_loop (PRead r) be" "bin_step be" for be
proof (unfold_locales, rule bin_loop_unfold)
  fix r and p :: u64 and x
  assume r: "reader_inv r" and off: "unat p < offset_bound"
  show "unat p \<le> length (contents r)" if "bin_step be r p = Inr x"
  proof -
    from that obtain h where "read_bin_header (PRead r) be p = Inr h"
      by (auto simp: bin_step_def Let_def rbind_eq_Inr)
    from read_bin_header_inside [OF r this] show ?thesis by simp
  qed
  fix name e nxt
  assume "bin_step be r p = Inr (Some (name, e, nxt))"
  then obtain fs ns mo where h: "read_bin_header (PRead r) be p = Inr (fs, ns, mo)"
    and e: "fe_offset e = AlignToPowerOf2 (p + CpioBinHeader_size + ucast ns) 1"
      "fe_size e = ucast fs" "nxt = AlignToPowerOf2 (fe_offset e + ucast fs) 1"
    by (auto simp: bin_step_def Let_def rbind_eq_Inr split: if_splits)
  have i: "unat p + unat CpioBinHeader_size \<le> length (contents r)"
    using read_bin_header_inside [OF r h] by (simp add: CpioBinHeader_size_def)
  have ns: "unat ns < 4294967296" using unat_u16_less [of ns] by simp
  note b = data_offset_bounds [OF i contents_short [OF r] ns unat_u32_less [of fs] refl,
      of 1, OF _ refl, simplified]
  have s: "unat (fe_offset e + ucast fs) + 2 ^ 1 \<le> 18446744073709551616"
    using b i contents_short [OF r] ns unat_u32_less [of fs] by (simp add: e CpioBinHeader_size_def)
  show "unat p < unat nxt \<and> data_end e \<le> unat nxt \<and> unat nxt < offset_bound"
    using b i contents_short [OF r] ns unat_u32_less [of fs] AlignToPowerOf2_bounds [OF s]
    by (simp add: e data_end_def offset_bound_def CpioBinHeader_size_def)
qed

section \<open>Parsing returns, and only entries inside the archive\<close>

lemma offset_bound_0 [simp]: "0 < offset_bound"
  by (simp add: offset_bound_def)

lemma Parse_formats:
  "(\<exists>e. Parse (PRead r) = Some (Inl e)) \<or>
   Parse (PRead r) = newc_loop (PRead r) 0 Map.empty \<or>
   Parse (PRead r) = odc_loop (PRead r) 0 Map.empty \<or>
   (\<exists>be. Parse (PRead r) = bin_loop (PRead r) be 0 Map.empty)"
  by (auto simp: Parse_def ParseNewc_def ParseOdc_def ParseBin_def split: sum.split)

lemma Parse_returns:
  assumes "reader_inv r"
  shows "\<exists>res. Parse (PRead r) = Some res"
  using Parse_formats [of r] newc.loop_returns [OF assms, of 0 Map.empty]
    odc.loop_returns [OF assms, of 0 Map.empty] bin.loop_returns [OF assms, of 0 _ Map.empty]
  by (elim disjE exE) simp_all

lemma Parse_inside:
  assumes "reader_inv r" and "Parse (PRead r) = Some (Inr m)" and "m n = Some e"
  shows "data_end e \<le> length (contents r)"
  using Parse_formats [of r] newc.loop_entries_inside [OF assms(1), of 0 Map.empty m n e]
    odc.loop_entries_inside [OF assms(1), of 0 Map.empty m n e]
    bin.loop_entries_inside [OF assms(1), of 0 Map.empty _ m n e] assms(2,3)
  by (elim disjE exE) simp_all

declare newc_loop.simps [code] odc_loop.simps [code] bin_loop.simps [code]

text \<open>What opening an entry gives: a reader of exactly the data of the entry.\<close>

lemma ReadWindowView_inside:
  assumes "reader_inv r" and "unat off + unat sz \<le> length (contents r)"
  shows "reader_inv (ReadWindowView r off sz)"
    "contents (ReadWindowView r off sz) = take (unat sz) (drop (unat off) (contents r))"
    "length (contents (ReadWindowView r off sz)) = unat sz"
  using assms contents_short [OF assms(1)]
  by (simp_all add: ReadWindowView_def ReaderFakeSeeker_def seeker_inv_def)

text \<open>C7. Opening an archive returns, with a reader or an error, for any bytes in any of the three formats.
  When it returns a reader, every path it has opens to a reader of exactly the size and place the header
  gave, wholly inside the archive, and the attributes are the mode of the header; every other path is the
  not found error.\<close>

theorem CpioReader_Open_correct:
  assumes "reader_inv r"
  shows "\<exists>res. CpioReader_Open (Some r) = Some res \<and>
    (\<forall>c. res = Inr c \<longrightarrow>
       (\<forall>path. case cpio_entries c path of
            None \<Rightarrow> CpioReader_OpenReadOnly c path = Inl (CfError ''File not found in cpio'') \<and>
              CpioReader_FileAttributes c path = Inl (CfError ''File not found in cpio'')
          | Some e \<Rightarrow> CpioReader_FileAttributes c path = Inr (fe_mode e) \<and>
              (\<exists>w. CpioReader_OpenReadOnly c path = Inr w \<and> reader_inv w \<and>
                 length (contents w) = unat (fe_size e) \<and>
                 contents w = take (unat (fe_size e)) (drop (unat (fe_offset e)) (contents r)))))"
proof -
  obtain res where res: "Parse (PRead r) = Some res" using Parse_returns [OF assms] by blast
  show ?thesis
  proof (cases res)
    case (Inl e)
    then show ?thesis by (simp add: CpioReader_Open_def res)
  next
    case (Inr m)
    have "unat (fe_offset e) + unat (fe_size e) \<le> length (contents r)" if "m path = Some e" for path e
      using Parse_inside [OF assms, of m path e] that res Inr by (simp add: data_end_def)
    then show ?thesis
      using ReadWindowView_inside [OF assms]
      by (simp add: CpioReader_Open_def res Inr CpioReader_OpenReadOnly_def CpioReader_FileAttributes_def
          del: length_take split: option.split)
  qed
qed


text \<open>A little-endian binary archive with one file \<open>a\<close> of mode \<open>0100644\<close> that holds \<open>hi\<close>.\<close>

definition bin_header :: "char list \<Rightarrow> char list \<Rightarrow> char list \<Rightarrow> string" where
  "bin_header mode namesize filesize =
     kBinaryLeMagic @ replicate 4 CHR 0x00 @ mode @ replicate 12 CHR 0x00 @ namesize @ filesize"

definition sample_bin :: string where
  "sample_bin =
     bin_header [CHR 0xA4, CHR 0x81] [CHR 0x02, CHR 0x00] [CHR 0x02, CHR 0x00, CHR 0x00, CHR 0x00] @ ''a'' @ [CHR 0x00] @ ''hi'' @
     bin_header [CHR 0x00, CHR 0x00] [CHR 0x0B, CHR 0x00] [CHR 0x00, CHR 0x00, CHR 0x00, CHR 0x00] @ ''TRAILER!!!'' @ [CHR 0x00]"

theorem CpioReader_Open_correct_witness:
  "reader_inv (MemoryReader \<lparr>io_data = sample_bin, io_cursor = 0\<rparr>) \<and>
   (\<exists>c w. CpioReader_Open (Some (MemoryReader \<lparr>io_data = sample_bin, io_cursor = 0\<rparr>)) = Some (Inr c) \<and>
      cpio_entries c ''a'' = Some \<lparr>fe_offset = 28, fe_size = 2, fe_mode = 0x81A4\<rparr> \<and>
      CpioReader_OpenReadOnly c ''a'' = Inr w \<and> contents w = ''hi'')"
proof -
  let ?r = "MemoryReader \<lparr>io_data = sample_bin, io_cursor = 0\<rparr>"
  have inv: "reader_inv ?r"
    by (simp add: sample_bin_def bin_header_def mem_inv_def kBinaryLeMagic_def vector_max_size_def)
  have "map_option (\<lambda>res. case res of Inl e \<Rightarrow> None | Inr c \<Rightarrow> cpio_entries c ''a'') (CpioReader_Open (Some ?r)) =
     Some (Some \<lparr>fe_offset = 28, fe_size = 2, fe_mode = 0x81A4\<rparr>)"
    by code_simp
  note this [unfolded map_option_eq_Some]
  then obtain res where "CpioReader_Open (Some ?r) = Some res"
      "(case res of Inl e \<Rightarrow> None | Inr c \<Rightarrow> cpio_entries c ''a'') =
         Some \<lparr>fe_offset = 28, fe_size = 2, fe_mode = 0x81A4\<rparr>"
    by blast
  then obtain c where c: "CpioReader_Open (Some ?r) = Some (Inr c)"
      "cpio_entries c ''a'' = Some \<lparr>fe_offset = 28, fe_size = 2, fe_mode = 0x81A4\<rparr>"
    by (cases res) simp_all
  have "take 2 (drop 28 sample_bin) = ''hi''" by code_simp
  with CpioReader_Open_correct [OF inv] c show ?thesis
    using inv by (auto dest!: spec [of _ "''a''"])
qed

end
