(* ===== verification/Mkbootfs.thy ===== *)
theory Mkbootfs
  imports Cpio "HOL-Library.Multiset" "HOL-Library.List_Lexorder" "HOL-Library.Char_ord"
begin

unbundle bit_operations_syntax

text \<open>
  The archive writer \<open>mkbootfs/mkbootfs.cpp\<close>.

  The globals of the program (\<open>canned_config\<close>, \<open>target_out_path\<close>, \<open>total_size\<close>, the static \<open>next_inode\<close>)
  and its standard output are one record.  \<open>total_size\<close> is a signed \<open>int\<close>: an increment that leaves its
  range is \<open>UndefinedBehaviour\<close>.  \<open>err\<close> and \<open>errx\<close> end the process.  The directory tree the program walks
  is a datatype whose nodes carry what \<open>lstat\<close>, \<open>readdir\<close>, \<open>ReadFileToString\<close> and \<open>readlink\<close> give, \<open>None\<close>
  where the call fails.  The compiled-in \<open>fs_config\<close> of another repository is the parameter \<open>fs_config\<close>.

  The last section reads the output back with the reader of \<open>cpio.cc\<close>.
\<close>

section \<open>State\<close>

record stat =
  st_mode :: u32
  st_uid :: u32
  st_gid :: u32
  st_rdev :: "u64 option"  \<comment> \<open>\<open>None\<close>: never initialised\<close>

record fs_config_entry =
  fc_name :: string
  fc_uid :: u32
  fc_gid :: u32
  fc_mode :: u32

record mkbootfs =
  canned_config :: "fs_config_entry list option"
  target_out_path :: "string option"
  total_size :: int
  next_inode :: u32
  mk_out :: string

type_synonym fs_config = "string \<Rightarrow> bool \<Rightarrow> string option \<Rightarrow> u32 \<times> u32 \<times> u32 \<Rightarrow> u32 \<times> u32 \<times> u32"

definition mkbootfs_start :: mkbootfs where
  "mkbootfs_start = \<lparr>canned_config = None, target_out_path = None, total_size = 0, next_inode = 300000,
     mk_out = []\<rparr>"

definition S_ISREG :: "u32 \<Rightarrow> bool" where "S_ISREG m \<longleftrightarrow> m AND 0xF000 = 0x8000"
definition S_ISDIR :: "u32 \<Rightarrow> bool" where "S_ISDIR m \<longleftrightarrow> m AND 0xF000 = 0x4000"
definition S_ISLNK :: "u32 \<Rightarrow> bool" where "S_ISLNK m \<longleftrightarrow> m AND 0xF000 = 0xA000"
definition S_ISBLK :: "u32 \<Rightarrow> bool" where "S_ISBLK m \<longleftrightarrow> m AND 0xF000 = 0x6000"
definition S_ISCHR :: "u32 \<Rightarrow> bool" where "S_ISCHR m \<longleftrightarrow> m AND 0xF000 = 0x2000"
definition S_ISFIFO :: "u32 \<Rightarrow> bool" where "S_ISFIFO m \<longleftrightarrow> m AND 0xF000 = 0x1000"
definition S_ISSOCK :: "u32 \<Rightarrow> bool" where "S_ISSOCK m \<longleftrightarrow> m AND 0xF000 = 0xC000"

definition TRAILER :: string where "TRAILER = ''TRAILER!!!''"

section \<open>\<open>fix_stat\<close>\<close>

definition apply_config :: "fs_config_entry \<Rightarrow> stat \<Rightarrow> stat" where
  "apply_config p s = s\<lparr>st_uid := fc_uid p, st_gid := fc_gid p,
     st_mode := fc_mode p OR (st_mode s AND NOT 0xFFF)\<rparr>"

text \<open>The loop over the canned configuration: the matching entry, or the last one with an empty name.\<close>

fun canned_lookup ::
    "fs_config_entry list \<Rightarrow> string \<Rightarrow> fs_config_entry option \<Rightarrow> fs_config_entry + fs_config_entry option" where
  "canned_lookup [] path empty_path_config = Inr empty_path_config"
| "canned_lookup (p # ps) path empty_path_config =
     (let empty_path_config = (if fc_name p = [] then Some p else empty_path_config)
      in if fc_name p = path then Inl p else canned_lookup ps path empty_path_config)"

definition reset_rdev :: "stat \<Rightarrow> stat" where
  "reset_rdev s =
     (if S_ISREG (st_mode s) \<or> S_ISDIR (st_mode s) \<or> S_ISLNK (st_mode s) then s\<lparr>st_rdev := Some 0\<rparr> else s)"

definition fix_stat :: "fs_config \<Rightarrow> mkbootfs \<Rightarrow> string \<Rightarrow> stat \<Rightarrow> stat result" where
  "fix_stat fs_config st path s =
     (case canned_config st of
        Some cc \<Rightarrow>
          (case canned_lookup cc path None of
             Inl p \<Rightarrow> Inr (apply_config p s)
           | Inr None \<Rightarrow> Inl (UndefinedBehaviour ''empty_path_config is NULL'')
           | Inr (Some p) \<Rightarrow> Inr (reset_rdev (apply_config p s)))
      | None \<Rightarrow>
          let is_dir = (S_ISDIR (st_mode s) \<or> path = TRAILER);
              (uid, gid, mode) = fs_config path is_dir (target_out_path st) (st_uid s, st_gid s, st_mode s)
          in Inr (reset_rdev (s\<lparr>st_uid := uid, st_gid := gid, st_mode := mode\<rparr>)))"

section \<open>Writing an entry\<close>

definition int_add :: "int \<Rightarrow> int \<Rightarrow> int result" where
  "int_add a b =
     (if - 2147483648 \<le> a + b \<and> a + b < 2147483648 then Inr (a + b)
      else Inl (UndefinedBehaviour ''signed overflow''))"

declare rbind_cong [fundef_cong]

lemma int_and_mask: "(t :: int) AND mask k = t mod 2 ^ k"
  by (simp add: take_bit_eq_mask [symmetric] take_bit_eq_mod)

lemma neg_mod_Suc:
  assumes "(t :: int) mod m \<noteq> 0" and "0 < m"
  shows "(- t) mod m = (- (t + 1)) mod m + 1"
proof -
  have "(- t) mod m \<noteq> 0"
    using assms(1) by (simp add: mod_eq_0_iff_dvd)
  then have "1 \<le> (- t) mod m" "(- t) mod m - 1 < m"
    using assms(2) pos_mod_sign [of m "- t"] pos_mod_bound [of m "- t"] by linarith+
  moreover have "(- (t + 1)) mod m = ((- t) mod m - 1) mod m"
    by (simp add: mod_diff_left_eq)
  ultimately show ?thesis by (simp add: mod_pos_pos_trivial)
qed

text \<open>\<open>while (total_size & mask) { total_size++; putchar(0); }\<close>, for a mask of \<open>k\<close> bits.\<close>

function pad_to :: "nat \<Rightarrow> mkbootfs \<Rightarrow> mkbootfs result" where
  "pad_to k st =
     (if total_size st AND mask k = 0 then Inr st
      else rbind (int_add (total_size st) 1) (\<lambda>t.
        pad_to k (st\<lparr>total_size := t, mk_out := mk_out st @ [CHR 0x00]\<rparr>)))"
  by pat_completeness auto
termination
proof (relation "measure (\<lambda>(k, st). nat ((- total_size st) mod 2 ^ k))", simp, goal_cases)
  case (1 k st t)
  then have "t = total_size st + 1" by (simp add: int_add_def split: if_splits)
  moreover have "(- total_size st) mod 2 ^ k = (- (total_size st + 1)) mod 2 ^ k + 1"
    by (rule neg_mod_Suc) (use 1 in \<open>simp_all add: int_and_mask\<close>)
  ultimately show ?case by simp
qed

declare pad_to.simps [simp del]

definition hex_digit :: "nat \<Rightarrow> char" where
  "hex_digit d = (if d < 10 then char_of (48 + d) else char_of (87 + d))"

fun hex_digits :: "nat \<Rightarrow> string" where
  "hex_digits n = (if n < 16 then [hex_digit n] else hex_digits (n div 16) @ [hex_digit (n mod 16)])"

declare hex_digits.simps [simp del]

text \<open>The conversion \<open>%0<width>x\<close> of \<open>printf\<close>.\<close>

definition printf_x :: "nat \<Rightarrow> u32 \<Rightarrow> string" where
  "printf_x width v = (let ds = hex_digits (unat v) in replicate (width - length ds) CHR ''0'' @ ds)"

definition sys_major :: "u64 \<Rightarrow> u32" where
  "sys_major dev = ucast (drop_bit 8 (dev AND 0xFFF00) OR drop_bit 32 (dev AND 0xFFFFF00000000000))"

definition sys_minor :: "u64 \<Rightarrow> u32" where
  "sys_minor dev = ucast ((dev AND 0xFF) OR drop_bit 12 (dev AND 0xFFFFFF00000))"

definition eject_header :: "u32 \<Rightarrow> u32 \<Rightarrow> u32 \<Rightarrow> u64 \<Rightarrow> u32 \<Rightarrow> string" where
  "eject_header inode mode datasize rdev namesize =
     printf_x 6 0x070701 @ printf_x 8 inode @ printf_x 8 mode @ printf_x 8 0 @ printf_x 8 0 @
     printf_x 8 1 @ printf_x 8 0 @ printf_x 8 datasize @ printf_x 8 0 @ printf_x 8 0 @
     printf_x 8 (sys_major rdev) @ printf_x 8 (sys_minor rdev) @ printf_x 8 namesize @ printf_x 8 0"

text \<open>
  \<open>olen\<close> is the length the caller passes, checked against \<open>strlen(out)\<close> only after the header is written;
  \<open>datasize\<close> is an \<open>unsigned\<close>, so that only the low 32 bits of the length of the data count.
\<close>

definition eject :: "fs_config \<Rightarrow> stat \<Rightarrow> string \<Rightarrow> nat \<Rightarrow> string \<Rightarrow> mkbootfs \<Rightarrow> mkbootfs result" where
  "eject fs_config s out olen data st =
     rbind (pad_to 2 st) (\<lambda>st.
     rbind (fix_stat fs_config st out s) (\<lambda>s.
     case st_rdev s of
       None \<Rightarrow> Inl (UndefinedBehaviour ''st_rdev is not initialised'')
     | Some rdev \<Rightarrow>
       let datasize = of_nat (length data) :: u32;
           header = eject_header (next_inode st) (st_mode s) datasize rdev (of_nat (olen + 1));
           st = st\<lparr>next_inode := next_inode st + 1, mk_out := mk_out st @ header @ c_str out @ [CHR 0x00]\<rparr>
       in rbind (int_add (total_size st) (6 + 8 * 13 + int olen + 1)) (\<lambda>t.
          let st = st\<lparr>total_size := t\<rparr>
          in if length (c_str out) \<noteq> olen then Inl (CheckFailure ''ACK!'')
             else rbind (pad_to 2 st) (\<lambda>st.
               if datasize = 0 then Inr st
               else Inr (st\<lparr>mk_out := mk_out st @ take (unat datasize) data,
                      total_size := signed_take_bit 31 (total_size st + uint datasize)\<rparr>)))))"

definition eject_trailer :: "fs_config \<Rightarrow> mkbootfs \<Rightarrow> mkbootfs result" where
  "eject_trailer fs_config st =
     rbind (eject fs_config \<lparr>st_mode = 0, st_uid = 0, st_gid = 0, st_rdev = Some 0\<rparr> TRAILER 10 [] st) (\<lambda>st.
     pad_to 8 st)"

section \<open>Walking the tree\<close>

text \<open>
  A path of the file system: what \<open>lstat\<close> gives, what reading the file or the link gives, and the names
  and nodes of the directory.
\<close>

datatype fs_node =
    FsMissing
  | FsNode stat "string option" "(string \<times> fs_node) list option"

text \<open>\<open>_archive_dir\<close> skips names that start with a dot and the name \<open>root\<close>, and sorts by \<open>strcmp\<close>.\<close>

definition archived_name :: "string \<Rightarrow> bool" where
  "archived_name name \<longleftrightarrow> (name = [] \<or> hd name \<noteq> CHR ''.'') \<and> name \<noteq> ''root''"

definition dir_names :: "(string \<times> 'a) list \<Rightarrow> (string \<times> 'a) list" where
  "dir_names es = sort_key fst (filter (\<lambda>(name, _). archived_name name) es)"

fun node_weight :: "fs_node \<Rightarrow> nat" where
  "node_weight FsMissing = 1"
| "node_weight (FsNode s c None) = 2"
| "node_weight (FsNode s c (Some es)) = 3 + sum_list (map (\<lambda>(_, n). node_weight n + 1) es)"

lemma node_weight_pos [simp]: "0 < node_weight n"
  by (cases n rule: node_weight.cases) auto

lemma dir_names_weight: "sum_list (map f (dir_names es)) \<le> (sum_list (map f es) :: nat)"
proof -
  have "mset (map f (dir_names es)) = mset (map f (filter (\<lambda>(name, _). archived_name name) es))"
    by (simp add: dir_names_def)
  then have "sum_list (map f (dir_names es)) = sum_list (map f (filter (\<lambda>(name, _). archived_name name) es))"
    by (metis sum_mset_sum_list)
  also have "\<dots> \<le> sum_list (map f es)" by (rule sum_list_filter_le_nat)
  finally show ?thesis .
qed

text \<open>
  The paths are built in two buffers of 8192 bytes; a path that does not fit, with its terminator, is
  \<open>UndefinedBehaviour\<close>.
\<close>

definition path_buffer :: nat where "path_buffer = 8192"

definition join_out :: "string \<Rightarrow> string \<Rightarrow> string" where
  "join_out out name = (if length out > 0 then out @ ''/'' @ name else name)"

function archive_node :: "fs_config \<Rightarrow> string \<Rightarrow> string \<Rightarrow> fs_node \<Rightarrow> mkbootfs \<Rightarrow> mkbootfs result"
  and archive_dir :: "fs_config \<Rightarrow> string \<Rightarrow> string \<Rightarrow> (string \<times> fs_node) list option \<Rightarrow> mkbootfs \<Rightarrow> mkbootfs result"
  and archive_names :: "fs_config \<Rightarrow> string \<Rightarrow> string \<Rightarrow> (string \<times> fs_node) list \<Rightarrow> mkbootfs \<Rightarrow> mkbootfs result"
where
  "archive_node fsc inp out FsMissing st = Inl (CheckFailure ''could not stat'')"
| "archive_node fsc inp out (FsNode s content entries) st =
     (if S_ISREG (st_mode s) then
        (case content of
           None \<Rightarrow> Inl (CheckFailure ''cannot read'')
         | Some c \<Rightarrow> eject fsc s out (length out) c st)
      else if S_ISDIR (st_mode s) then
        rbind (eject fsc s out (length out) [] st) (\<lambda>st. archive_dir fsc inp out entries st)
      else if S_ISLNK (st_mode s) then
        (case content of
           None \<Rightarrow> Inl (CheckFailure ''cannot read symlink'')
         | Some c \<Rightarrow> eject fsc s out (length out) (take 1024 c) st)
      else if S_ISBLK (st_mode s) \<or> S_ISCHR (st_mode s) \<or> S_ISFIFO (st_mode s) \<or> S_ISSOCK (st_mode s) then
        eject fsc s out (length out) [] st
      else Inl (CheckFailure ''Unknown''))"
| "archive_dir fsc inp out None st = Inl (CheckFailure ''cannot open directory'')"
| "archive_dir fsc inp out (Some entries) st = archive_names fsc inp out (dir_names entries) st"
| "archive_names fsc inp out [] st = Inr st"
| "archive_names fsc inp out ((name, node) # es) st =
     (if length inp + 1 + length name + 1 > path_buffer \<or> length (join_out out name) + 1 > path_buffer
      then Inl (UndefinedBehaviour ''path buffer overflow'')
      else rbind (archive_node fsc (inp @ ''/'' @ name) (join_out out name) node st) (\<lambda>st.
        archive_names fsc inp out es st))"
  by pat_completeness auto
termination
  by (relation "measure (\<lambda>x. case x of
        Inl (_, _, _, n, _) \<Rightarrow> node_weight n
      | Inr (Inl (_, _, _, None, _)) \<Rightarrow> 1
      | Inr (Inl (_, _, _, Some es, _)) \<Rightarrow> 2 + sum_list (map (\<lambda>(_, n). node_weight n + 1) es)
      | Inr (Inr (_, _, _, es, _)) \<Rightarrow> 1 + sum_list (map (\<lambda>(_, n). node_weight n + 1) es))")
    (auto simp: le_imp_less_Suc dir_names_weight less_Suc_eq_le split: option.splits)

definition archive :: "fs_config \<Rightarrow> string \<Rightarrow> string \<Rightarrow> (string \<times> fs_node) list option \<Rightarrow> mkbootfs \<Rightarrow> mkbootfs result" where
  "archive fsc start pre entries st =
     (if length start + 1 > path_buffer \<or> length pre + 1 > path_buffer
      then Inl (UndefinedBehaviour ''path buffer overflow'')
      else archive_dir fsc start pre entries st)"

section \<open>The canned configuration file\<close>

definition require :: "'a option \<Rightarrow> 'a result" where
  "require x = (case x of None \<Rightarrow> Inl (UndefinedBehaviour ''null pointer'') | Some v \<Rightarrow> Inr v)"

definition space_newline :: string where "space_newline = [CHR '' '', CHR 0x0A]"
definition space_tab :: string where "space_tab = [CHR '' '', CHR 0x09]"

text \<open>The name and the user id of a line; a line that starts with white space has the empty name.\<close>

definition canned_name_uid :: "string \<Rightarrow> (string \<times> string \<times> string) result" where
  "canned_name_uid line =
     (if isspace (hd line) then
        rbind (require (strtok space_newline line)) (\<lambda>(uid, rest).
        Inr ([], uid, rest))
      else
        rbind (require (strtok space_newline line)) (\<lambda>(name, rest).
        rbind (require (strtok space_newline rest)) (\<lambda>(uid, rest).
        Inr (name, uid, rest))))"

definition canned_line :: "string \<Rightarrow> fs_config_entry result" where
  "canned_line line =
     rbind (canned_name_uid line) (\<lambda>(name, uid, rest).
     rbind (atoi uid) (\<lambda>uid.
     rbind (require (strtok space_newline rest)) (\<lambda>(gid, rest).
     rbind (atoi gid) (\<lambda>gid.
     rbind (require (strtok space_newline rest)) (\<lambda>(mode, rest).
     Inr \<lparr>fc_name = name, fc_uid = uid, fc_gid = gid, fc_mode = word_of_int (strtol 8 mode)\<rparr>)))))"

fun canned_lines :: "string list \<Rightarrow> fs_config_entry list \<Rightarrow> fs_config_entry list result" where
  "canned_lines [] acc = Inr acc"
| "canned_lines (line # ls) acc =
     (if c_str line = [] then Inr acc
      else rbind (canned_line (c_str line)) (\<lambda>cc. canned_lines ls (acc @ [cc])))"

type_synonym files = "string \<Rightarrow> string option"

definition read_canned_config :: "files \<Rightarrow> string \<Rightarrow> mkbootfs \<Rightarrow> mkbootfs result" where
  "read_canned_config files filename st =
     (case files filename of
        None \<Rightarrow> Inl (CheckFailure ''failed to open canned file'')
      | Some text \<Rightarrow>
          rbind (canned_lines (getlines text) []) (\<lambda>cc. Inr (st\<lparr>canned_config := Some cc\<rparr>)))"

section \<open>The device node description\<close>

text \<open>
  \<open>struct stat s\<close> is a local variable that only \<open>sscanf\<close> and the lines below it fill: the device of a
  directory stays uninitialised.  \<open>None\<close> is the return value \<open>-1\<close>.
\<close>

definition append_devnodes_desc_dir ::
    "fs_config \<Rightarrow> string \<Rightarrow> string \<Rightarrow> mkbootfs \<Rightarrow> mkbootfs option result" where
  "append_devnodes_desc_dir fsc path args st =
     (case scan_int 8 args of None \<Rightarrow> Inr None | Some (mode, rest) \<Rightarrow>
      case scan_int 10 rest of None \<Rightarrow> Inr None | Some (uid, rest) \<Rightarrow>
      case scan_int 10 rest of None \<Rightarrow> Inr None | Some (gid, _) \<Rightarrow>
        rbind (to_uint32 mode) (\<lambda>mode. rbind (to_int32 uid) (\<lambda>uid. rbind (to_int32 gid) (\<lambda>gid.
        rbind (eject fsc \<lparr>st_mode = mode OR 0x4000, st_uid = uid, st_gid = gid, st_rdev = None\<rparr>
          path (length path) [] st) (\<lambda>st. Inr (Some st))))))"

definition MKDEV :: "u32 \<Rightarrow> u32 \<Rightarrow> u64" where
  "MKDEV ma mi = scast (push_bit 8 ma OR mi)"

definition append_devnodes_desc_nod ::
    "fs_config \<Rightarrow> string \<Rightarrow> string \<Rightarrow> mkbootfs \<Rightarrow> mkbootfs option result" where
  "append_devnodes_desc_nod fsc path args st =
     (case scan_int 8 args of None \<Rightarrow> Inr None | Some (mode, rest) \<Rightarrow>
      case scan_int 10 rest of None \<Rightarrow> Inr None | Some (uid, rest) \<Rightarrow>
      case scan_int 10 rest of None \<Rightarrow> Inr None | Some (gid, rest) \<Rightarrow>
      case skip_space rest of [] \<Rightarrow> Inr None | dev # rest \<Rightarrow>
      case scan_int 10 rest of None \<Rightarrow> Inr None | Some (ma, rest) \<Rightarrow>
      case scan_int 10 rest of None \<Rightarrow> Inr None | Some (mi, _) \<Rightarrow>
        rbind (to_uint32 mode) (\<lambda>mode. rbind (to_int32 uid) (\<lambda>uid. rbind (to_int32 gid) (\<lambda>gid.
        rbind (to_int32 ma) (\<lambda>ma. rbind (to_int32 mi) (\<lambda>mi.
        let rdev = MKDEV ma mi;
            eject_as = (\<lambda>ifmt. rbind (eject fsc
              \<lparr>st_mode = mode OR ifmt, st_uid = uid, st_gid = gid, st_rdev = Some rdev\<rparr>
              path (length path) [] st) (\<lambda>st. Inr (Some st)))
        in if dev = CHR ''b'' then eject_as 0x6000
           else if dev = CHR ''c'' then eject_as 0x2000
           else Inr None))))))"

definition devnodes_desc_error :: "string \<Rightarrow> 'a result" where
  "devnodes_desc_error msg = Inl (CheckFailure msg)"

definition devnodes_line :: "fs_config \<Rightarrow> string \<Rightarrow> mkbootfs \<Rightarrow> mkbootfs result" where
  "devnodes_line fsc line st =
     (if line \<noteq> [] \<and> hd line = CHR ''#'' then Inr st
      else case strtok space_tab line of
        None \<Rightarrow> devnodes_desc_error ''a type is missing''
      | Some (type, rest) \<Rightarrow>
          if hd type = CHR 0x0A then Inr st
          else case strtok space_tab rest of
            None \<Rightarrow> devnodes_desc_error ''a path is missing''
          | Some (path, rest) \<Rightarrow>
              (case strtok [CHR 0x0A] rest of
                 None \<Rightarrow> devnodes_desc_error ''args are missing''
               | Some (args, _) \<Rightarrow>
                   if type = ''dir'' then
                     rbind (append_devnodes_desc_dir fsc path args st) (\<lambda>res.
                     case res of None \<Rightarrow> devnodes_desc_error ''bad arguments for dir'' | Some st \<Rightarrow> Inr st)
                   else if type = ''nod'' then
                     rbind (append_devnodes_desc_nod fsc path args st) (\<lambda>res.
                     case res of None \<Rightarrow> devnodes_desc_error ''bad arguments for nod'' | Some st \<Rightarrow> Inr st)
                   else devnodes_desc_error ''type unknown''))"

fun devnodes_lines :: "fs_config \<Rightarrow> string list \<Rightarrow> mkbootfs \<Rightarrow> mkbootfs result" where
  "devnodes_lines fsc [] st = Inr st"
| "devnodes_lines fsc (line # ls) st = rbind (devnodes_line fsc (c_str line) st) (devnodes_lines fsc ls)"

definition append_devnodes_desc :: "fs_config \<Rightarrow> files \<Rightarrow> string \<Rightarrow> mkbootfs \<Rightarrow> mkbootfs result" where
  "append_devnodes_desc fsc files filename st =
     (case files filename of
        None \<Rightarrow> Inl (CheckFailure ''failed to open nodes description file'')
      | Some text \<Rightarrow> devnodes_lines fsc (getlines text) st)"

section \<open>\<open>main\<close>\<close>

text \<open>
  \<open>getopt_long\<close> hands \<open>main\<close> a sequence of option letters, each with the \<open>optind\<close> it leaves.  \<open>main\<close> takes
  \<open>argv[optind - 1]\<close> for the argument of the option, not \<open>optarg\<close>.  The result is \<open>None\<close> when \<open>-h\<close> ends the
  program.
\<close>

fun main_options ::
    "fs_config \<Rightarrow> files \<Rightarrow> string list \<Rightarrow> (char \<times> nat) list \<Rightarrow> mkbootfs \<Rightarrow> mkbootfs option result" where
  "main_options fsc files argv [] st = Inr (Some st)"
| "main_options fsc files argv ((opt, optind) # opts) st =
     (let arg = argv ! (optind - 1)
      in if opt = CHR ''d'' then main_options fsc files argv opts (st\<lparr>target_out_path := Some arg\<rparr>)
         else if opt = CHR ''f'' then
           rbind (read_canned_config files arg st) (\<lambda>st. main_options fsc files argv opts st)
         else if opt = CHR ''h'' then Inr None
         else if opt = CHR ''n'' then
           rbind (append_devnodes_desc fsc files arg st) (\<lambda>st. main_options fsc files argv opts st)
         else Inl (CheckFailure ''Unknown option''))"

definition split_prefix :: "string \<Rightarrow> string \<times> string" where
  "split_prefix arg =
     (takeWhile (\<lambda>c. c \<noteq> CHR ''='') arg, drop 1 (dropWhile (\<lambda>c. c \<noteq> CHR ''='') arg))"

fun main_dirs ::
    "fs_config \<Rightarrow> (string \<Rightarrow> (string \<times> fs_node) list option) \<Rightarrow> string list \<Rightarrow> mkbootfs \<Rightarrow> mkbootfs result" where
  "main_dirs fsc opendir [] st = Inr st"
| "main_dirs fsc opendir (arg # args) st =
     (let (start, pre) = split_prefix arg
      in rbind (archive fsc start pre (opendir start) st) (main_dirs fsc opendir args))"

definition mkbootfs_main ::
    "fs_config \<Rightarrow> files \<Rightarrow> (string \<Rightarrow> (string \<times> fs_node) list option) \<Rightarrow> string list \<Rightarrow> (char \<times> nat) list \<Rightarrow>
     nat \<Rightarrow> mkbootfs option result" where
  "mkbootfs_main fsc files opendir argv opts optind =
     rbind (main_options fsc files argv opts mkbootfs_start) (\<lambda>res.
     case res of
       None \<Rightarrow> Inr None
     | Some st \<Rightarrow>
         rbind (main_dirs fsc opendir (drop optind argv) st) (\<lambda>st.
         rbind (eject_trailer fsc st) (\<lambda>st. Inr (Some st))))"

section \<open>Number fields\<close>

lemma digit_value_hex_digit [simp]:
  "d < 16 \<Longrightarrow> digit_value 16 (hex_digit d) = Some d"
  by (auto simp: digit_value_def hex_digit_def Let_def of_char_of)

lemma digit_value_0 [simp]: "digit_value 16 CHR ''0'' = Some 0"
  by (simp add: digit_value_def)

lemma hex_digits_are_digits: "\<forall>c \<in> set (hex_digits n). digit_value 16 c \<noteq> None"
  by (induction n rule: hex_digits.induct) (subst hex_digits.simps, auto)

lemma digits_value_hex_digits: "digits_value 16 0 (hex_digits n) = n"
proof (induction n rule: hex_digits.induct)
  case (1 n)
  then show ?case
    by (subst hex_digits.simps) (simp add: digits_value_append hex_digits_are_digits)
qed

lemma length_hex_digits: "n < 16 ^ Suc k \<Longrightarrow> length (hex_digits n) \<le> Suc k"
proof (induction k arbitrary: n)
  case 0
  then show ?case by (subst hex_digits.simps) simp
next
  case (Suc k)
  then have "n div 16 < 16 ^ Suc k" by (simp add: less_mult_imp_div_less mult.commute)
  with Suc.IH [of "n div 16"] show ?case by (subst hex_digits.simps) simp
qed

lemma digits_value_zeros: "digits_value 16 0 (replicate k CHR ''0'' @ s) = digits_value 16 0 s"
  by (induction k) auto

lemma length_printf_x8 [simp]: "length (printf_x 8 v) = 8"
  using length_hex_digits [of "unat v" 7] unat_u32_less [of v] by (simp add: printf_x_def Let_def)

lemma ParseHex_printf_x [simp]: "ParseHex (printf_x 8 v) = Inr v"
proof -
  have d: "\<forall>c \<in> set (printf_x 8 v). digit_value 16 c \<noteq> None"
    using hex_digits_are_digits [of "unat v"] by (auto simp: printf_x_def Let_def)
  have n: "printf_x 8 v \<noteq> []" using length_printf_x8 [of v] by force
  have "digits_value 16 0 (printf_x 8 v) = unat v"
    by (simp add: printf_x_def Let_def digits_value_zeros digits_value_hex_digits)
  moreover have "digit_value 16 (hd (printf_x 8 v)) \<noteq> None" using d n by simp
  ultimately show ?thesis
    using unat_u32_less [of v] n by (simp add: ParseHex_def from_chars_u32_def)
qed

lemma printf_x6_magic [simp]: "printf_x 6 0x070701 = kMagicNewc1"
proof -
  have "map char_of [48 :: nat, 49, 55] = ''017''" by code_simp
  then show ?thesis by (simp add: printf_x_def hex_digits.simps hex_digit_def kMagicNewc1_def)
qed

section \<open>The bytes of a record\<close>

definition padding :: "nat \<Rightarrow> nat \<Rightarrow> string" where
  "padding k n = replicate ((2 ^ k - n mod 2 ^ k) mod 2 ^ k) CHR 0x00"

lemma padding_aligned: "n mod 2 ^ k = 0 \<Longrightarrow> padding k n = []"
  by (simp add: padding_def)

lemma padding_step: "n mod 2 ^ k \<noteq> 0 \<Longrightarrow> padding k n = CHR 0x00 # padding k (Suc n)"
proof -
  assume nz: "n mod 2 ^ k \<noteq> 0"
  define m r where "m = (2 :: nat) ^ k" and "r = n mod m"
  have r: "r < m" "r \<noteq> 0" using nz by (simp_all add: m_def r_def)
  have "Suc n mod m = (if Suc r = m then 0 else Suc r)" by (simp add: mod_Suc r_def)
  with r have "(m - r) mod m = Suc ((m - Suc n mod m) mod m)" by auto
  then have "(2 ^ k - n mod 2 ^ k) mod 2 ^ k = Suc ((2 ^ k - Suc n mod 2 ^ k) mod 2 ^ k)"
    by (simp add: m_def r_def)
  then show ?thesis by (simp add: padding_def)
qed

lemma pad_to_ok:
  "total_size st = int n \<Longrightarrow> n + length (padding k n) < 2147483648 \<Longrightarrow>
   pad_to k st = Inr (st\<lparr>total_size := int (n + length (padding k n)), mk_out := mk_out st @ padding k n\<rparr>)"
proof (induction "length (padding k n)" arbitrary: n st)
  case 0
  then have "(2 ^ k - n mod 2 ^ k) mod 2 ^ k = 0" by (simp add: padding_def)
  then have "n mod 2 ^ k = 0" using padding_step [of n k] 0(1) by fastforce
  moreover from this have "int n mod 2 ^ k = 0" using of_nat_mod [of n "2 ^ k", where ?'a = int] by simp
  ultimately show ?case
    using 0(2) by (subst pad_to.simps) (cases st, simp add: int_and_mask padding_aligned)
next
  case (Suc l)
  have nz: "n mod 2 ^ k \<noteq> 0" using Suc.hyps(2) padding_aligned [of n k] by force
  note p = padding_step [OF nz]
  have nzi: "int n mod 2 ^ k \<noteq> 0" 
    using nz of_nat_mod [of n "2 ^ k", where ?'a = int] by simp
  have "pad_to k (st\<lparr>total_size := int (Suc n), mk_out := mk_out st @ [CHR 0x00]\<rparr>) =
      Inr (st\<lparr>total_size := int (Suc n + length (padding k (Suc n))),
        mk_out := (mk_out st @ [CHR 0x00]) @ padding k (Suc n)\<rparr>)"
    using Suc.hyps(1) [of "Suc n" "st\<lparr>total_size := int (Suc n), mk_out := mk_out st @ [CHR 0x00]\<rparr>"]
      Suc.hyps(2) Suc.prems by (simp add: p)
  moreover have "int_add (int n) 1 = Inr (int (Suc n))"
    using Suc.prems(2) by (simp add: int_add_def p)
  ultimately show ?case
    using nzi unfolding p by (subst pad_to.simps) (simp add: int_and_mask Suc.prems(1))
qed

definition newc_record :: "nat \<Rightarrow> u32 \<Rightarrow> u32 \<Rightarrow> u64 \<Rightarrow> string \<Rightarrow> string \<Rightarrow> string" where
  "newc_record n inode mode rdev name data =
     padding 2 n @ eject_header inode mode (of_nat (length data)) rdev (of_nat (length name + 1)) @
     name @ [CHR 0x00] @ padding 2 (110 + length name + 1) @ data"

lemma length_eject_header [simp]: "length (eject_header inode mode datasize rdev namesize) = 110"
  by (simp add: eject_header_def kMagicNewc1_def)

lemma padding_mod: "length (padding 2 n) \<le> 3" "(n + length (padding 2 n)) mod 4 = 0"
  "m mod 4 = 0 \<Longrightarrow> padding 2 (m + n) = padding 2 n"
proof -
  show "length (padding 2 n) \<le> 3" by (simp add: padding_def less_Suc_eq_le [symmetric])
  have "n mod 4 = 0 \<or> n mod 4 = 1 \<or> n mod 4 = 2 \<or> n mod 4 = 3" by linarith
  then show "(n + length (padding 2 n)) mod 4 = 0"
    by (elim disjE) (simp_all add: padding_def, presburger+)
  show "padding 2 (m + n) = padding 2 n" if "m mod 4 = 0"
  proof -
    have "(m + n) mod 4 = n mod 4" using that by presburger
    then show ?thesis by (simp add: padding_def)
  qed
qed

lemma length_newc_record:
  "length (newc_record n inode mode rdev name data) =
   length (padding 2 n) + 111 + length name + length (padding 2 (111 + length name)) + length data"
  by (simp add: newc_record_def)

text \<open>\<open>total_size\<close> counts the bytes written.\<close>

definition counted :: "mkbootfs \<Rightarrow> bool" where
  "counted st \<longleftrightarrow> total_size st = int (length (mk_out st))"

lemma fix_stat_globals:
  "canned_config st' = canned_config st \<Longrightarrow> target_out_path st' = target_out_path st \<Longrightarrow>
   fix_stat fsc st' out s = fix_stat fsc st out s"
  by (simp add: fix_stat_def split: option.split)

lemma unat_u32_of_nat: "n < 4294967296 \<Longrightarrow> unat (of_nat n :: u32) = n"
  by (simp add: unat_of_nat take_bit_eq_mod)

lemma eject_ok:
  assumes cnt: "counted st" and name: "c_str out = out" and fx: "fix_stat fsc st out s = Inr s'"
    and rd: "st_rdev s' = Some rdev" and rec: "rec = newc_record (length (mk_out st)) (next_inode st)
      (st_mode s') rdev out data"
    and fits: "length (mk_out st) + length rec < 2147483648"
  shows "eject fsc s out (length out) data st =
    Inr (st\<lparr>next_inode := next_inode st + 1, mk_out := mk_out st @ rec,
      total_size := int (length (mk_out st @ rec))\<rparr>)"
proof -
  let ?n = "length (mk_out st)"
  let ?p = "padding 2 ?n"
  let ?q = "padding 2 (111 + length out)"
  note fits' = fits [unfolded rec length_newc_record]
  define st1 where "st1 = st\<lparr>total_size := int (?n + length ?p), mk_out := mk_out st @ ?p\<rparr>"
  have 1: "pad_to 2 st = Inr st1"
    unfolding st1_def by (rule pad_to_ok) (use cnt fits' in \<open>simp_all add: counted_def\<close>)
  have 2: "fix_stat fsc st1 out s = Inr s'"
    using fix_stat_globals [of st1 st fsc out s] fx by (simp add: st1_def)
  have al: "(?n + length ?p) mod 4 = 0" by (rule padding_mod)
  define m where "m = ?n + length ?p + (111 + length out)"
  have q: "padding 2 m = ?q" unfolding m_def by (rule padding_mod(3) [OF al])
  have 3: "int_add (total_size st1) (6 + 8 * 13 + int (length out) + 1) = Inr (int m)"
    using fits' by (simp add: int_add_def st1_def m_def)
  define st2 where "st2 = st1\<lparr>next_inode := next_inode st1 + 1,
    mk_out := mk_out st1 @ eject_header (next_inode st1) (st_mode s') (of_nat (length data)) rdev
      (of_nat (length out + 1)) @ out @ [CHR 0x00], total_size := int m\<rparr>"
  have 4: "pad_to 2 st2 = Inr (st2\<lparr>total_size := int (m + length ?q), mk_out := mk_out st2 @ ?q\<rparr>)"
    using pad_to_ok [of st2 m 2] fits' unfolding q by (simp add: st2_def m_def)
  have len: "length data < 4294967296" using fits' by simp
  have ul: "unat (of_nat (length data) :: u32) = length data" by (rule unat_u32_of_nat [OF len])
  have ui: "uint (of_nat (length data) :: u32) = int (length data)" using ul by (simp add: uint_nat)
  have d0: "data = []" if "(of_nat (length data) :: u32) = 0"
    using ul unfolding that by simp
  have sg: "signed_take_bit 31 (int (m + length ?q) + int (length data)) = int (m + length ?q + length data)"
    using fits' by (simp add: signed_take_bit_int_eq_self_iff m_def)
  have out: "mk_out st2 @ ?q @ data = mk_out st @ rec"
    by (simp add: st2_def st1_def rec newc_record_def)
  have lout: "int (m + length ?q + length data) = int (length (mk_out st @ rec))"
    by (simp add: rec length_newc_record m_def)
  have ej: "eject fsc s out (length out) data st = rbind (pad_to 2 st2) (\<lambda>st.
      if (of_nat (length data) :: u32) = 0 then Inr st
      else Inr (st\<lparr>mk_out := mk_out st @ take (unat (of_nat (length data) :: u32)) data,
        total_size := signed_take_bit 31 (total_size st + uint (of_nat (length data) :: u32))\<rparr>))"
    using 3 by (simp add: eject_def 1 2 rd name Let_def st2_def)
  have fin: "st2\<lparr>total_size := int (m + length ?q + length data), mk_out := mk_out st2 @ ?q @ data\<rparr> =
      st\<lparr>next_inode := next_inode st + 1, mk_out := mk_out st @ rec,
        total_size := int (length (mk_out st @ rec))\<rparr>"
    unfolding out lout by (simp add: st2_def st1_def)
  show ?thesis
  proof (cases "(of_nat (length data) :: u32) = 0")
    case True
    then show ?thesis using d0 [OF True] unfolding ej 4 fin [symmetric] by simp
  next
    case False
    then show ?thesis using sg unfolding fin [symmetric] by (simp add: ej 4 ul ui)
  qed
qed

section \<open>Reading a record back\<close>

lemma header_fields:
  assumes "h = eject_header inode mode datasize rdev namesize"
  shows "header_field 0 6 h = kMagicNewc1" "header_field 54 8 h = printf_x 8 datasize"
    "header_field 94 8 h = printf_x 8 namesize" "header_field 14 8 h = printf_x 8 mode"
  by (simp_all add: assms eject_header_def header_field_def kMagicNewc1_def)

lemma align_padding:
  assumes "n < 9223372036854775808"
  shows "unat (AlignToPowerOf2 (of_nat n) 2) = n + length (padding 2 n)"
proof -
  have "unat (AlignToPowerOf2 (of_nat n) 2) = (n + 3) div 4 * 4"
    using unat_AlignToPowerOf2 [of "of_nat n" 2] assms by (simp add: unat_u64_of_nat)
  moreover have "n mod 4 = 0 \<or> n mod 4 = 1 \<or> n mod 4 = 2 \<or> n mod 4 = 3" by linarith
  then have "(n + 3) div 4 * 4 = n + length (padding 2 n)"
    by (elim disjE) (simp_all add: padding_def, presburger+)
  ultimately show ?thesis by simp
qed

lemma u64_eqI: "unat (x :: u64) = n \<Longrightarrow> x = of_nat n"
  by auto

lemma ucast_of_nat_u32: "n < 4294967296 \<Longrightarrow> ucast (of_nat n :: u32) = (of_nat n :: u64)"
  by (rule u64_eqI) (simp add: unat_u32_of_nat)

lemma AlignToPowerOf2_of_nat:
  assumes "n < 9223372036854775808"
  shows "AlignToPowerOf2 (of_nat n) 2 = of_nat (n + length (padding 2 n))"
  by (rule u64_eqI [OF align_padding [OF assms]])

lemma PReadExact_middle:
  assumes "reader_inv r" and "contents r = a @ b @ c" and "off = of_nat (length a)"
    and "sz = of_nat (length b)"
  shows "PReadExact (PRead r) sz off [] = Inr b"
proof -
  have l: "length a + length b < 9223372036854775808"
    using contents_short [OF assms(1)] by (simp add: assms(2))
  then have "unat off = length a" "unat sz = length b"
    by (simp_all add: assms(3,4) unat_u64_of_nat)
  then show ?thesis
    using reader.PReadExact_spec [OF assms(1), of sz off] by (simp add: assms(2))
qed

lemma newc_step_record:
  assumes inv: "reader_inv r" and short: "length (contents r) < 4294967296"
    and con: "contents r = a @ newc_record (length a) inode mode rdev name data @ b"
  shows "newc_step r (of_nat (length a)) = Inr
    (if name = kTrailerName then None
     else Some (name,
       \<lparr>fe_offset = of_nat (length a + length (newc_record (length a) inode mode rdev name data) - length data),
        fe_size = of_nat (length data), fe_mode = mode\<rparr>,
       of_nat (length (a @ newc_record (length a) inode mode rdev name data))))"
proof -
  let ?p = "padding 2 (length a)" and ?q = "padding 2 (111 + length name)"
  let ?h = "eject_header inode mode (of_nat (length data)) rdev (of_nat (length name + 1))"
  have c1: "contents r = (a @ ?p) @ ?h @ name @ CHR 0x00 # ?q @ data @ b"
    by (simp add: con newc_record_def)
  have c2: "contents r = (a @ ?p @ ?h) @ name @ CHR 0x00 # ?q @ data @ b" by (simp add: c1)
  have len: "length a + length ?p + 111 + length name + length ?q + length data < 4294967296"
    using short by (simp add: c1)
  define P where "P = length a + length ?p"
  have p: "AlignToPowerOf2 (of_nat (length a)) 2 = of_nat P"
    using AlignToPowerOf2_of_nat [of "length a"] len by (simp add: P_def)
  have "PReadExact (PRead r) CpioNewcHeader_size (of_nat P) [] = Inr ?h"
    by (rule PReadExact_middle [OF inv c1]) (simp_all add: CpioNewcHeader_size_def P_def)
  then have hd: "read_newc_header (PRead r) (of_nat P) =
      Inr (of_nat (length data), of_nat (length name + 1), mode)"
    by (simp add: read_newc_header_def header_fields [OF refl] Let_def)
  have ns: "ucast (of_nat (length name + 1) - 1 :: u32) = (of_nat (length name) :: u64)"
    using ucast_of_nat_u32 [of "length name"] len by simp
  have nm: "PReadExact (PRead r) (ucast (of_nat (length name + 1) - 1 :: u32))
      (of_nat P + CpioNewcHeader_size) [] = Inr name"
    unfolding ns by (rule PReadExact_middle [OF inv c2]) (simp_all add: CpioNewcHeader_size_def P_def)
  have un: "ucast (of_nat (length name + 1) :: u32) = (of_nat (length name + 1) :: u64)"
    by (rule ucast_of_nat_u32) (use len in simp)
  have ud: "ucast (of_nat (length data) :: u32) = (of_nat (length data) :: u64)"
    by (rule ucast_of_nat_u32) (use len in simp)
  have al: "P mod 4 = 0" unfolding P_def by (rule padding_mod)
  have q: "padding 2 (P + (111 + length name)) = ?q" by (rule padding_mod(3) [OF al])
  have "of_nat P + CpioNewcHeader_size + ucast (of_nat (length name + 1) :: u32) =
      (of_nat (P + (111 + length name)) :: u64)"
    unfolding un by (simp add: CpioNewcHeader_size_def)
  then have d: "AlignToPowerOf2 (of_nat P + CpioNewcHeader_size + ucast (of_nat (length name + 1) :: u32)) 2 =
      of_nat (P + 111 + length name + length ?q)"
    using AlignToPowerOf2_of_nat [of "P + (111 + length name)", unfolded q] len
    by (simp only: add.assoc) (simp add: P_def)
  show ?thesis
    unfolding newc_step_def p Let_def hd rbind_simps prod.case nm d ud
    by (simp add: length_newc_record P_def add.assoc)
qed

section \<open>A sequence of entries\<close>

type_synonym archived = "string \<times> stat \<times> string"

fun eject_all :: "fs_config \<Rightarrow> archived list \<Rightarrow> mkbootfs \<Rightarrow> mkbootfs result" where
  "eject_all fsc [] st = Inr st"
| "eject_all fsc ((out, s, data) # es) st =
     rbind (eject fsc s out (length out) data st) (eject_all fsc es)"

definition fixable :: "fs_config \<Rightarrow> mkbootfs \<Rightarrow> string \<Rightarrow> stat \<Rightarrow> bool" where
  "fixable fsc st out s \<longleftrightarrow> (case fix_stat fsc st out s of Inl _ \<Rightarrow> False | Inr s' \<Rightarrow> st_rdev s' \<noteq> None)"

definition archived_mode :: "fs_config \<Rightarrow> mkbootfs \<Rightarrow> string \<Rightarrow> stat \<Rightarrow> u32" where
  "archived_mode fsc st out s = (case fix_stat fsc st out s of Inl _ \<Rightarrow> 0 | Inr s' \<Rightarrow> st_mode s')"

definition good_entry :: "fs_config \<Rightarrow> mkbootfs \<Rightarrow> archived \<Rightarrow> bool" where
  "good_entry fsc st = (\<lambda>(out, s, data). CHR 0x00 \<notin> set out \<and> fixable fsc st out s \<and> out \<noteq> TRAILER)"

definition entry_bytes :: "archived \<Rightarrow> nat" where
  "entry_bytes = (\<lambda>(out, s, data). 117 + length out + length data)"

text \<open>The entry map of a reader describes a list of entries: the first entry of a name counts.\<close>

definition describes :: "fs_config \<Rightarrow> mkbootfs \<Rightarrow> ReaderSeeker \<Rightarrow> EntriesMap \<Rightarrow> archived list \<Rightarrow> bool" where
  "describes fsc st r m es \<longleftrightarrow> (\<forall>name.
     case map_of es name of
       None \<Rightarrow> m name = None
     | Some (s, data) \<Rightarrow> (\<exists>e. m name = Some e \<and> fe_mode e = archived_mode fsc st name s \<and>
         unat (fe_size e) = length data \<and>
         take (length data) (drop (unat (fe_offset e)) (contents r)) = data))"

lemma describes_emplace:
  assumes "describes fsc st r m es" and "fe_mode e = archived_mode fsc st name s"
    and "unat (fe_size e) = length data" and "take (length data) (drop (unat (fe_offset e)) (contents r)) = data"
  shows "describes fsc st r (entries_emplace m name e) (es @ [(name, s, data)])"
  unfolding describes_def
proof
  fix n
  have d: "case map_of es n of None \<Rightarrow> m n = None
     | Some (s, data) \<Rightarrow> (\<exists>e. m n = Some e \<and> fe_mode e = archived_mode fsc st n s \<and>
         unat (fe_size e) = length data \<and>
         take (length data) (drop (unat (fe_offset e)) (contents r)) = data)"
    using assms(1) by (simp add: describes_def)
  show "case map_of (es @ [(name, s, data)]) n of None \<Rightarrow> entries_emplace m name e n = None
     | Some (s, data) \<Rightarrow> (\<exists>e'. entries_emplace m name e n = Some e' \<and> fe_mode e' = archived_mode fsc st n s \<and>
         unat (fe_size e') = length data \<and>
         take (length data) (drop (unat (fe_offset e')) (contents r)) = data)"
  proof (cases "map_of es n")
    case None
    then show ?thesis using d assms(2-4) by (auto simp: entries_emplace_def map_add_def)
  next
    case (Some y)
    obtain s' data' where y: "y = (s', data')" by (cases y)
    from d obtain e' where "m n = Some e'" "fe_mode e' = archived_mode fsc st n s'"
        "unat (fe_size e') = length data'"
        "take (length data') (drop (unat (fe_offset e')) (contents r)) = data'"
      by (auto simp: Some y)
    then show ?thesis by (auto simp: Some y entries_emplace_def map_add_def)
  qed
qed

lemma c_str_id: "CHR 0x00 \<notin> set out \<Longrightarrow> c_str out = out"
  by (auto simp: c_str_def takeWhile_eq_all_conv)

text \<open>One entry: what it appends, and how a reader of it moves on.\<close>

definition reads_on ::
    "fs_config \<Rightarrow> mkbootfs \<Rightarrow> mkbootfs \<Rightarrow> archived list \<Rightarrow> bool" where
  "reads_on fsc st st' es \<longleftrightarrow> (\<forall>r b before m.
     reader_inv r \<longrightarrow> length (contents r) < 4294967296 \<longrightarrow> contents r = mk_out st' @ b \<longrightarrow>
     describes fsc st r m before \<longrightarrow>
     (\<exists>m'. describes fsc st r m' (before @ es) \<and>
        newc_loop (PRead r) (of_nat (length (mk_out st))) m =
        newc_loop (PRead r) (of_nat (length (mk_out st'))) m'))"

definition extends :: "mkbootfs \<Rightarrow> mkbootfs \<Rightarrow> nat \<Rightarrow> bool" where
  "extends st st' k \<longleftrightarrow> counted st' \<and> canned_config st' = canned_config st \<and>
     target_out_path st' = target_out_path st \<and> prefix (mk_out st) (mk_out st') \<and>
     length (mk_out st') \<le> length (mk_out st) + k"

lemma eject_entry:
  assumes "counted st" and "good_entry fsc st (out, s, data)"
    and "length (mk_out st) + entry_bytes (out, s, data) < 2147483648"
  shows "\<exists>st'. eject fsc s out (length out) data st = Inr st' \<and>
    extends st st' (entry_bytes (out, s, data)) \<and> reads_on fsc st st' [(out, s, data)]"
proof -
  from assms(2) obtain s' rdev where fx: "fix_stat fsc st out s = Inr s'" "st_rdev s' = Some rdev"
    by (auto simp: good_entry_def fixable_def split: sum.splits)
  from assms(2) have name: "c_str out = out" "out \<noteq> kTrailerName"
    by (simp_all add: good_entry_def c_str_id TRAILER_def kTrailerName_def)
  define rec where "rec = newc_record (length (mk_out st)) (next_inode st) (st_mode s') rdev out data"
  have lrec: "length rec \<le> entry_bytes (out, s, data)"
    using padding_mod(1) [of "length (mk_out st)"] padding_mod(1) [of "111 + length out"]
    by (simp add: rec_def length_newc_record entry_bytes_def)
  define st' where "st' = st\<lparr>next_inode := next_inode st + 1, mk_out := mk_out st @ rec,
    total_size := int (length (mk_out st @ rec))\<rparr>"
  have ej: "eject fsc s out (length out) data st = Inr st'"
    unfolding st'_def by (rule eject_ok [OF assms(1) name(1) fx rec_def]) (use assms(3) lrec in simp)
  have ext: "extends st st' (entry_bytes (out, s, data))"
    using lrec by (simp add: extends_def counted_def st'_def)
  have mode: "archived_mode fsc st out s = st_mode s'" by (simp add: archived_mode_def fx)
  have "reads_on fsc st st' [(out, s, data)]"
    unfolding reads_on_def
  proof (intro allI impI)
    fix r b before m
    assume r: "reader_inv r" "length (contents r) < 4294967296" "contents r = mk_out st' @ b"
      and m: "describes fsc st r m before"
    have con: "contents r = mk_out st @ rec @ b" using r(3) by (simp add: st'_def)
    define off where "off = length (mk_out st) + length rec - length data"
    define e where "e = \<lparr>fe_offset = of_nat off, fe_size = of_nat (length data), fe_mode = st_mode s'\<rparr>"
    note step = newc_step_record [OF r(1,2) con [unfolded rec_def], folded rec_def]
    have len: "length data \<le> length rec" by (simp add: rec_def length_newc_record)
    have lo: "off < 4294967296" "length data < 4294967296" using r(2) len by (simp_all add: con off_def)
    have "drop off (mk_out st @ rec) = data"
      by (simp add: off_def rec_def newc_record_def length_newc_record)
    then have "take (length data) (drop off (contents r)) = data"
      using len by (simp add: con off_def append_assoc [symmetric] del: append_assoc)
    then have "describes fsc st r (entries_emplace m out e) (before @ [(out, s, data)])"
      using lo by (intro describes_emplace [OF m]) (simp_all add: e_def mode unat_u64_of_nat)
    moreover have "newc_loop (PRead r) (of_nat (length (mk_out st))) m =
        newc_loop (PRead r) (of_nat (length (mk_out st'))) (entries_emplace m out e)"
      by (subst newc.loop_unfold) (simp add: step name(2) e_def off_def st'_def)
    ultimately show "\<exists>m'. describes fsc st r m' (before @ [(out, s, data)]) \<and>
        newc_loop (PRead r) (of_nat (length (mk_out st))) m =
        newc_loop (PRead r) (of_nat (length (mk_out st'))) m'" by blast
  qed
  with ej ext show ?thesis by blast
qed

lemma describes_globals:
  assumes "canned_config st' = canned_config st" and "target_out_path st' = target_out_path st"
  shows "describes fsc st' = describes fsc st" "good_entry fsc st' = good_entry fsc st"
    "fixable fsc st' = fixable fsc st"
proof -
  note fx = fix_stat_globals [OF assms, of fsc]
  have am: "archived_mode fsc st' = archived_mode fsc st" by (simp add: archived_mode_def fun_eq_iff fx)
  show "describes fsc st' = describes fsc st" unfolding describes_def [abs_def] am ..
  show fixable: "fixable fsc st' = fixable fsc st" by (simp add: fixable_def fun_eq_iff fx)
  show "good_entry fsc st' = good_entry fsc st" by (simp add: good_entry_def fixable)
qed

lemma extends_trans: "extends st st' k \<Longrightarrow> extends st' st'' l \<Longrightarrow> extends st st'' (k + l)"
  by (auto simp: extends_def)

lemma reads_on_trans:
  assumes "reads_on fsc st st' es" and "reads_on fsc st' st'' es'" and "extends st st' k" and "extends st' st'' l"
  shows "reads_on fsc st st'' (es @ es')"
  unfolding reads_on_def
proof (intro allI impI)
  fix r b before m
  assume r: "reader_inv r" "length (contents r) < 4294967296" "contents r = mk_out st'' @ b"
    and m: "describes fsc st r m before"
  from assms(4) obtain c where c: "mk_out st'' = mk_out st' @ c" by (auto simp: extends_def prefix_def)
  then have con: "contents r = mk_out st' @ c @ b" by (simp add: r(3))
  have g: "describes fsc st' = describes fsc st"
    using assms(3) by (intro describes_globals(1)) (simp_all add: extends_def)
  from assms(1) r(1,2) con m obtain m' where m': "describes fsc st r m' (before @ es)"
      "newc_loop (PRead r) (of_nat (length (mk_out st))) m =
       newc_loop (PRead r) (of_nat (length (mk_out st'))) m'"
    unfolding reads_on_def by blast
  from assms(2) r m'(1) obtain m'' where "describes fsc st r m'' ((before @ es) @ es')"
      "newc_loop (PRead r) (of_nat (length (mk_out st'))) m' =
       newc_loop (PRead r) (of_nat (length (mk_out st''))) m''"
    unfolding reads_on_def g by blast
  with m'(2) show "\<exists>m'. describes fsc st r m' (before @ es @ es') \<and>
        newc_loop (PRead r) (of_nat (length (mk_out st))) m =
        newc_loop (PRead r) (of_nat (length (mk_out st''))) m'" by auto
qed

lemma eject_all_ok:
  assumes "counted st" and "\<forall>x \<in> set es. good_entry fsc st x"
    and "length (mk_out st) + sum_list (map entry_bytes es) < 2147483648"
  shows "\<exists>st'. eject_all fsc es st = Inr st' \<and> extends st st' (sum_list (map entry_bytes es)) \<and>
    reads_on fsc st st' es"
  using assms
proof (induction es arbitrary: st)
  case Nil
  then show ?case by (auto simp: extends_def reads_on_def)
next
  case (Cons x es)
  obtain out s data where x: "x = (out, s, data)" by (cases x)
  obtain st1 where st1: "eject fsc s out (length out) data st = Inr st1"
      "extends st st1 (entry_bytes x)" "reads_on fsc st st1 [x]"
    using eject_entry [of st fsc out s data] Cons.prems by (auto simp: x)
  have g: "good_entry fsc st1 = good_entry fsc st"
    using st1(2) by (intro describes_globals(2)) (simp_all add: extends_def)
  have "\<exists>st'. eject_all fsc es st1 = Inr st' \<and> extends st1 st' (sum_list (map entry_bytes es)) \<and>
      reads_on fsc st1 st' es"
    by (rule Cons.IH) (use st1(2) Cons.prems in \<open>auto simp: extends_def g\<close>)
  then obtain st' where st': "eject_all fsc es st1 = Inr st'"
      "extends st1 st' (sum_list (map entry_bytes es))" "reads_on fsc st1 st' es"
    by blast
  have "eject_all fsc (x # es) st = Inr st'" by (simp add: x st1(1) st'(1))
  moreover have "extends st st' (sum_list (map entry_bytes (x # es)))"
    using extends_trans [OF st1(2) st'(2)] by simp
  moreover have "reads_on fsc st st' (x # es)"
    using reads_on_trans [OF st1(3) st'(3) st1(2) st'(2)] by simp
  ultimately show ?case by blast
qed

definition trailer_stat :: stat where
  "trailer_stat = \<lparr>st_mode = 0, st_uid = 0, st_gid = 0, st_rdev = Some 0\<rparr>"

lemma eject_trailer_ok:
  assumes "counted st" and "fixable fsc st TRAILER trailer_stat" and "length (mk_out st) + 400 < 2147483648"
  shows "\<exists>st' t. eject_trailer fsc st = Inr st' \<and> mk_out st' = mk_out st @ t \<and> length t \<le> 400 \<and>
    (\<forall>r m. reader_inv r \<longrightarrow> contents r = mk_out st' \<longrightarrow>
       newc_loop (PRead r) (of_nat (length (mk_out st))) m = Some (Inr m))"
proof -
  from assms(2) obtain s' rdev where fx: "fix_stat fsc st TRAILER trailer_stat = Inr s'" "st_rdev s' = Some rdev"
    by (auto simp: fixable_def split: sum.splits)
  define rec where "rec = newc_record (length (mk_out st)) (next_inode st) (st_mode s') rdev TRAILER []"
  have lt: "length TRAILER = 10" "c_str TRAILER = TRAILER" by (simp_all add: TRAILER_def c_str_def)
  have lrec: "length rec \<le> 127"
    using padding_mod(1) [of "length (mk_out st)"] padding_mod(1) [of "111 + length TRAILER"]
    by (simp add: rec_def length_newc_record lt)
  define st1 where "st1 = st\<lparr>next_inode := next_inode st + 1, mk_out := mk_out st @ rec,
    total_size := int (length (mk_out st @ rec))\<rparr>"
  have ej: "eject fsc trailer_stat TRAILER 10 [] st = Inr st1"
    using eject_ok [OF assms(1) lt(2) fx rec_def] lrec assms(3) by (simp add: st1_def lt)
  define q where "q = padding 8 (length (mk_out st1))"
  have "(256 - length (mk_out st1) mod 256) mod 256 < (256 :: nat)" by simp
  then have lq: "length q \<le> 256" unfolding q_def padding_def by simp
  have pad: "pad_to 8 st1 = Inr (st1\<lparr>total_size := int (length (mk_out st1) + length q), mk_out := mk_out st1 @ q\<rparr>)"
    using pad_to_ok [of st1 "length (mk_out st1)" 8, folded q_def] lq lrec assms(3) by (simp add: st1_def)
  have "newc_loop (PRead r) (of_nat (length (mk_out st))) m = Some (Inr m)"
    if "reader_inv r" "contents r = mk_out st1 @ q" for r m
  proof -
    have "length (contents r) < 4294967296" using that(2) lq lrec assms(3) by (simp add: st1_def)
    moreover have "contents r = mk_out st @ newc_record (length (mk_out st)) (next_inode st) (st_mode s') rdev TRAILER [] @ q"
      using that(2) by (simp add: st1_def rec_def)
    ultimately have "newc_step r (of_nat (length (mk_out st))) = Inr None"
      using newc_step_record [OF that(1)] by (simp add: TRAILER_def kTrailerName_def)
    then show ?thesis by (subst newc.loop_unfold) simp
  qed
  then show ?thesis
    using lrec lq ej pad by (simp add: eject_trailer_def trailer_stat_def [symmetric] st1_def)
qed

lemma Parse_newc_loop:
  assumes "reader_inv r" and "newc_loop (PRead r) 0 Map.empty = Some (Inr m)"
  shows "Parse (PRead r) = Some (Inr m)"
proof -
  have al: "AlignToPowerOf2 0 2 = 0" by (simp add: AlignToPowerOf2_def Let_def)
  from assms(2) obtain x where "newc_step r 0 = Inr x"
    by (subst (asm) newc.loop_unfold) (auto split: sum.splits)
  then obtain h where h: "PReadExact (PRead r) CpioNewcHeader_size 0 [] = Inr h"
      "header_field 0 6 h = kMagicNewc1 \<or> header_field 0 6 h = kMagicNewc2"
    by (auto simp: newc_step_def read_newc_header_def rbind_eq_Inr al Let_def)
  have "110 \<le> length (contents r)" "h = take 110 (contents r)"
    using h(1) reader.PReadExact_spec [OF assms(1), of CpioNewcHeader_size 0]
    by (auto simp: CpioNewcHeader_size_def split: if_splits)
  then have "PReadExact (PRead r) 6 0 [] = Inr (header_field 0 6 h)"
    using reader.PReadExact_spec [OF assms(1), of 6 0] by (simp add: header_field_def min_def)
  then show ?thesis
    using h(2) assms(2) by (auto simp: Parse_def ParseNewc_def kMagicNewc1_def kMagicNewc2_def
        kBinaryLeMagic_def kBinaryBeMagic_def)
qed

section \<open>The entries of a tree\<close>

text \<open>The entries the walk of a readable tree writes, in order.\<close>

function walk_node :: "string \<Rightarrow> string \<Rightarrow> fs_node \<Rightarrow> archived list option"
  and walk_names :: "string \<Rightarrow> string \<Rightarrow> (string \<times> fs_node) list \<Rightarrow> archived list option"
where
  "walk_node inp out FsMissing = None"
| "walk_node inp out (FsNode s content entries) =
     (if S_ISREG (st_mode s) then map_option (\<lambda>c. [(out, s, c)]) content
      else if S_ISDIR (st_mode s) then
        (case entries of
           None \<Rightarrow> None
         | Some es \<Rightarrow> map_option (\<lambda>ws. (out, s, []) # ws) (walk_names inp out (dir_names es)))
      else if S_ISLNK (st_mode s) then map_option (\<lambda>c. [(out, s, take 1024 c)]) content
      else if S_ISBLK (st_mode s) \<or> S_ISCHR (st_mode s) \<or> S_ISFIFO (st_mode s) \<or> S_ISSOCK (st_mode s)
      then Some [(out, s, [])]
      else None)"
| "walk_names inp out [] = Some []"
| "walk_names inp out ((name, node) # es) =
     (if length inp + 1 + length name + 1 > path_buffer \<or> length (join_out out name) + 1 > path_buffer then None
      else case (walk_node (inp @ ''/'' @ name) (join_out out name) node, walk_names inp out es) of
        (Some ws, Some ws') \<Rightarrow> Some (ws @ ws')
      | _ \<Rightarrow> None)"
  by pat_completeness auto
termination
  by (relation "measure (\<lambda>x. case x of
        Inl (_, _, n) \<Rightarrow> node_weight n
      | Inr (_, _, es) \<Rightarrow> 1 + sum_list (map (\<lambda>(_, n). node_weight n + 1) es))")
    (auto simp: le_imp_less_Suc dir_names_weight less_Suc_eq_le le_SucI)

lemma eject_all_append: "eject_all fsc (xs @ ys) st = rbind (eject_all fsc xs st) (eject_all fsc ys)"
proof (induction xs arbitrary: st)
  case (Cons x xs)
  then show ?case by (cases x) (auto simp: rbind_assoc intro!: rbind_cong)
qed simp

text \<open>The walk does to the output what writing those entries in order does.\<close>

lemma archive_walk:
  "walk_node inp out node = Some ws \<Longrightarrow> archive_node fsc inp out node st = eject_all fsc ws st"
  "walk_names inp out es = Some ws \<Longrightarrow> archive_names fsc inp out es st = eject_all fsc ws st"
proof (induction inp out node and inp out es arbitrary: ws st and ws st rule: walk_node_walk_names.induct)
  case (2 inp out s content entries)
  then show ?case by (auto split: if_splits option.splits simp: rbind_def split: sum.splits)
next
  case (4 inp out name node es)
  then show ?case by (auto split: if_splits option.splits simp: eject_all_append intro!: rbind_cong)
qed auto

text \<open>C1. The archive that \<open>mkbootfs\<close> writes for a readable tree is read back by the CPIO reader: writing
  succeeds when the configuration covers the entries and the sizes stay below the range of \<open>total_size\<close>;
  the reader opens the output; every path of the tree has the mode \<open>fix_stat\<close> gave it and opens to the
  bytes of the file, the target of the link, or nothing; and no other path is found.\<close>

theorem mkbootfs_cpio_roundtrip:
  assumes "length start < path_buffer" "length pre < path_buffer"
    and "walk_names start pre (dir_names es) = Some ws"
    and "\<forall>x \<in> set ws. good_entry fsc mkbootfs_start x"
    and "fixable fsc mkbootfs_start TRAILER trailer_stat"
    and "sum_list (map entry_bytes ws) + 400 < 2147483648"
  shows "\<exists>st c. rbind (archive fsc start pre (Some es) mkbootfs_start) (eject_trailer fsc) = Inr st \<and>
    CpioReader_Open (Some (MemoryReader \<lparr>io_data = mk_out st, io_cursor = 0\<rparr>)) = Some (Inr c) \<and>
    (\<forall>path. case map_of ws path of
       None \<Rightarrow> CpioReader_OpenReadOnly c path = Inl (CfError ''File not found in cpio'')
     | Some (s, data) \<Rightarrow>
         CpioReader_FileAttributes c path = Inr (archived_mode fsc mkbootfs_start path s) \<and>
         (\<exists>w. CpioReader_OpenReadOnly c path = Inr w \<and> contents w = data))"
proof -
  let ?st0 = mkbootfs_start
  have st0: "counted ?st0" "mk_out ?st0 = []" by (simp_all add: counted_def mkbootfs_start_def)
  obtain st1 where st1: "eject_all fsc ws ?st0 = Inr st1" "extends ?st0 st1 (sum_list (map entry_bytes ws))"
      "reads_on fsc ?st0 st1 ws"
    using eject_all_ok [OF st0(1) assms(4)] assms(6) by (auto simp: st0)
  have ar: "archive fsc start pre (Some es) ?st0 = Inr st1"
    using archive_walk(2) [OF assms(3), of fsc ?st0] assms(1,2) st1(1) by (simp add: archive_def)
  have fx: "fixable fsc st1 TRAILER trailer_stat"
    using assms(5) st1(2) describes_globals(3) [of st1 ?st0 fsc] by (simp add: extends_def)
  have len: "length (mk_out st1) + 400 < 2147483648"
    using st1(2) assms(6) by (simp add: extends_def st0)
  obtain st t where st: "eject_trailer fsc st1 = Inr st" "mk_out st = mk_out st1 @ t" "length t \<le> 400"
      "\<forall>r m. reader_inv r \<longrightarrow> contents r = mk_out st \<longrightarrow>
         newc_loop (PRead r) (of_nat (length (mk_out st1))) m = Some (Inr m)"
    using eject_trailer_ok [OF _ fx len] st1(2) unfolding extends_def by blast
  let ?r = "MemoryReader \<lparr>io_data = mk_out st, io_cursor = 0\<rparr>"
  have r: "reader_inv ?r" using st(2,3) len by (simp add: mem_inv_def vector_max_size_def)
  have "describes fsc ?st0 ?r Map.empty []" by (simp add: describes_def)
  then obtain m where m: "describes fsc ?st0 ?r m ws"
      "newc_loop (PRead ?r) 0 Map.empty = newc_loop (PRead ?r) (of_nat (length (mk_out st1))) m"
    using st1(3) [unfolded reads_on_def, rule_format, of ?r t Map.empty "[]"] r st(2,3) len
    by (auto simp: st0)
  have "newc_loop (PRead ?r) 0 Map.empty = Some (Inr m)"
    unfolding m(2) by (rule st(4) [rule_format, OF r]) simp
  then have ps: "Parse (PRead ?r) = Some (Inr m)" by (rule Parse_newc_loop [OF r])
  define c where "c = \<lparr>cpio_reader = ?r, cpio_entries = m\<rparr>"
  have op: "CpioReader_Open (Some ?r) = Some (Inr c)" using ps by (simp add: CpioReader_Open_def c_def)
  have "case map_of ws path of
       None \<Rightarrow> CpioReader_OpenReadOnly c path = Inl (CfError ''File not found in cpio'')
     | Some (s, data) \<Rightarrow>
         CpioReader_FileAttributes c path = Inr (archived_mode fsc mkbootfs_start path s) \<and>
         (\<exists>w. CpioReader_OpenReadOnly c path = Inr w \<and> contents w = data)" for path
  proof (cases "map_of ws path")
    case None
    with m(1) have "m path = None" unfolding describes_def by (auto dest: spec [of _ path])
    then show ?thesis by (simp add: None CpioReader_OpenReadOnly_def c_def)
  next
    case (Some y)
    obtain s data where y: "y = (s, data)" by (cases y)
    from m(1) obtain e where e: "m path = Some e" "fe_mode e = archived_mode fsc ?st0 path s"
        "unat (fe_size e) = length data"
        "take (length data) (drop (unat (fe_offset e)) (contents ?r)) = data"
      unfolding describes_def using Some y by (auto dest!: spec [of _ path])
    then show ?thesis
      by (simp add: Some y CpioReader_OpenReadOnly_def CpioReader_FileAttributes_def c_def ReadWindowView_def)
  qed
  with ar st(1) op show ?thesis by (intro exI [of _ st] exI [of _ c]) simp
qed

definition plain_fs_config :: fs_config where
  "plain_fs_config path is_dir target ids = ids"

definition sample_file :: stat where
  "sample_file = \<lparr>st_mode = 0x81A4, st_uid = 0, st_gid = 0, st_rdev = Some 0\<rparr>"

theorem mkbootfs_cpio_roundtrip_witness:
  "\<exists>st c w. rbind (archive plain_fs_config ''out'' ''sys''
      (Some [(''b'', FsNode sample_file (Some ''hi'') None), (''.git'', FsMissing)]) mkbootfs_start)
      (eject_trailer plain_fs_config) = Inr st \<and>
    CpioReader_Open (Some (MemoryReader \<lparr>io_data = mk_out st, io_cursor = 0\<rparr>)) = Some (Inr c) \<and>
    CpioReader_FileAttributes c ''sys/b'' = Inr 0x81A4 \<and>
    CpioReader_OpenReadOnly c ''sys/b'' = Inr w \<and> contents w = ''hi'' \<and>
    CpioReader_OpenReadOnly c ''sys/.git'' = Inl (CfError ''File not found in cpio'')"
proof -
  let ?es = "[(''b'', FsNode sample_file (Some ''hi'') None), (''.git'', FsMissing)]"
  let ?ws = "[(''sys/b'', sample_file, ''hi'')]"
  have fx: "fix_stat plain_fs_config mkbootfs_start ''sys/b'' sample_file = Inr sample_file"
    by (simp add: fix_stat_def plain_fs_config_def mkbootfs_start_def sample_file_def reset_rdev_def
        S_ISREG_def S_ISDIR_def S_ISLNK_def TRAILER_def)
  have ft: "fixable plain_fs_config mkbootfs_start TRAILER trailer_stat"
    by (simp add: fixable_def fix_stat_def plain_fs_config_def mkbootfs_start_def trailer_stat_def reset_rdev_def
        S_ISREG_def S_ISDIR_def S_ISLNK_def TRAILER_def)
  have walk: "walk_names ''out'' ''sys'' (dir_names ?es) = Some ?ws"
    by (simp add: dir_names_def archived_name_def path_buffer_def join_out_def sample_file_def S_ISREG_def)
  have good: "\<forall>x \<in> set ?ws. good_entry plain_fs_config mkbootfs_start x"
    by (simp add: good_entry_def fixable_def fx TRAILER_def) (simp add: sample_file_def)
  have md: "archived_mode plain_fs_config mkbootfs_start ''sys/b'' sample_file = 0x81A4"
    by (simp add: archived_mode_def fx) (simp add: sample_file_def)
  have p: "length ''out'' < path_buffer" "length ''sys'' < path_buffer" by (simp_all add: path_buffer_def)
  have sz: "sum_list (map entry_bytes ?ws) + 400 < 2147483648" by (simp add: entry_bytes_def)
  obtain st c where rt: "rbind (archive plain_fs_config ''out'' ''sys'' (Some ?es) mkbootfs_start)
        (eject_trailer plain_fs_config) = Inr st"
      "CpioReader_Open (Some (MemoryReader \<lparr>io_data = mk_out st, io_cursor = 0\<rparr>)) = Some (Inr c)"
      "\<forall>path. case map_of ?ws path of
         None \<Rightarrow> CpioReader_OpenReadOnly c path = Inl (CfError ''File not found in cpio'')
       | Some (s, data) \<Rightarrow>
           CpioReader_FileAttributes c path = Inr (archived_mode plain_fs_config mkbootfs_start path s) \<and>
           (\<exists>w. CpioReader_OpenReadOnly c path = Inr w \<and> contents w = data)"
    using mkbootfs_cpio_roundtrip [OF p walk good ft sz] by blast
  from rt(3) [rule_format, of "''sys/b''"] rt(3) [rule_format, of "''sys/.git''"] rt(1,2)
  show ?thesis by (auto simp: md)
qed

section \<open>The device of a directory line\<close>

text \<open>C28. A directory line of the device node description whose path has an entry of its own in the canned
  configuration reaches the header with a device number that was never initialised: \<open>fix_stat\<close> returns
  from its loop before the assignment that would clear it.\<close>

theorem devnodes_dir_uninitialised:
  assumes "counted st" and "length (mk_out st) + 3 < 2147483648" and "canned_config st = Some cc"
    and "canned_lookup cc path None = Inl p"
    and "scan_int 8 args = Some (mode, r1)" "scan_int 10 r1 = Some (uid, r2)" "scan_int 10 r2 = Some (gid, r3)"
    and "to_uint32 mode = Inr m" "to_int32 uid = Inr u" "to_int32 gid = Inr g"
  shows "append_devnodes_desc_dir fsc path args st = Inl (UndefinedBehaviour ''st_rdev is not initialised'')"
proof -
  let ?s = "\<lparr>st_mode = m OR 0x4000, st_uid = u, st_gid = g, st_rdev = None\<rparr>"
  have "pad_to 2 st = Inr (st\<lparr>total_size := int (length (mk_out st) + length (padding 2 (length (mk_out st)))),
      mk_out := mk_out st @ padding 2 (length (mk_out st))\<rparr>)"
    by (rule pad_to_ok) (use assms(1,2) padding_mod(1) [of "length (mk_out st)"] in \<open>simp_all add: counted_def\<close>)
  moreover have "fix_stat fsc st' path ?s = Inr (apply_config p ?s)" if "canned_config st' = Some cc" for st'
    using that assms(4) by (simp add: fix_stat_def)
  ultimately have "eject fsc ?s path (length path) [] st = Inl (UndefinedBehaviour ''st_rdev is not initialised'')"
    using assms(3) by (simp add: eject_def apply_config_def)
  then show ?thesis using assms(5-10) by (simp add: append_devnodes_desc_dir_def)
qed

definition dev_config :: "fs_config_entry list" where
  "dev_config = [\<lparr>fc_name = [], fc_uid = 0, fc_gid = 0, fc_mode = 0x1ED\<rparr>,
     \<lparr>fc_name = ''dev'', fc_uid = 0, fc_gid = 0, fc_mode = 0x1ED\<rparr>]"

theorem devnodes_dir_uninitialised_witness:
  "append_devnodes_desc_dir plain_fs_config ''dev'' ''0755 0 0'' (mkbootfs_start\<lparr>canned_config := Some dev_config\<rparr>) =
     Inl (UndefinedBehaviour ''st_rdev is not initialised'')"
proof (rule devnodes_dir_uninitialised)
  show "counted (mkbootfs_start\<lparr>canned_config := Some dev_config\<rparr>)"
    "length (mk_out (mkbootfs_start\<lparr>canned_config := Some dev_config\<rparr>)) + 3 < 2147483648"
    "canned_config (mkbootfs_start\<lparr>canned_config := Some dev_config\<rparr>) = Some dev_config"
    by (simp_all add: counted_def mkbootfs_start_def)
  show "canned_lookup dev_config ''dev'' None =
      Inl \<lparr>fc_name = ''dev'', fc_uid = 0, fc_gid = 0, fc_mode = 0x1ED\<rparr>"
    by (simp add: dev_config_def)
  show "scan_int 8 ''0755 0 0'' = Some (493, '' 0 0'')" "scan_int 10 '' 0 0'' = Some (0, '' 0'')"
    "scan_int 10 '' 0'' = Some (0, [])"
    by (simp_all add: scan_int_def skip_space_def isspace_def is_digit_def digit_value_def)
  show "to_uint32 493 = Inr 493" "to_int32 0 = Inr 0" "to_int32 0 = Inr 0"
    by (simp_all add: to_uint32_def to_int32_def)
qed

end
