(* ===== verification/Modem_Text.thy ===== *)
theory Modem_Text
  imports C_Text
begin

text \<open>
  Text of the modem simulator: the parts of \<open>std::string\<close>, \<open>std::string_view\<close> and \<open>std::stringstream\<close> its
  services use, and the AT command parser of \<open>host/commands/modem_simulator/command_parser.{h,cpp}\<close>.  The parser
  object is the text that remains of the command (\<open>command_\<close>); an operation that returns a value and moves
  forward gives the value and the new remaining text.  A C++ \<open>int\<close> is an \<open>int\<close> in the range of 32 bits.
\<close>

section \<open>Strings\<close>

fun to_base :: "string \<Rightarrow> nat \<Rightarrow> nat \<Rightarrow> string" where
  "to_base digits b n =
     (if n < b \<or> b < 2 then [digits ! n] else to_base digits b (n div b) @ [digits ! (n mod b)])"

declare to_base.simps [simp del]

definition to_dec :: "nat \<Rightarrow> string" where
  "to_dec n = to_base ''0123456789'' 10 n"

text \<open>\<open>std::to_string\<close> and \<open>stream << n\<close>\<close>

definition to_string :: "int \<Rightarrow> string" where
  "to_string n = (if n < 0 then CHR ''-'' # to_dec (nat (- n)) else to_dec (nat n))"

text \<open>\<open>stream << b\<close> for a \<open>bool\<close>\<close>

definition print_bool :: "bool \<Rightarrow> string" where
  "print_bool b = (if b then ''1'' else ''0'')"

text \<open>\<open>stream << std::hex << n\<close> for an \<open>int\<close>, which is printed as its 32 bits, and with \<open>std::uppercase\<close>\<close>

definition to_hex :: "int \<Rightarrow> string" where
  "to_hex n = to_base ''0123456789abcdef'' 16 (nat (n mod 4294967296))"

definition to_hex_upper :: "int \<Rightarrow> string" where
  "to_hex_upper n = to_base ''0123456789ABCDEF'' 16 (nat (n mod 4294967296))"

text \<open>\<open>std::setfill('0') << std::setw(n)\<close>\<close>

definition setw0 :: "nat \<Rightarrow> string \<Rightarrow> string" where
  "setw0 n s = replicate (n - length s) CHR ''0'' @ s"

text \<open>\<open>s.find(c)\<close> and \<open>s.find_last_of(c)\<close>; \<open>npos\<close> is \<open>None\<close>.\<close>

definition find_char :: "char \<Rightarrow> string \<Rightarrow> nat option" where
  "find_char c s = (if c \<in> set s then Some (length (takeWhile (\<lambda>d. d \<noteq> c) s)) else None)"

definition find_last_of :: "char \<Rightarrow> string \<Rightarrow> nat option" where
  "find_last_of c s = map_option (\<lambda>n. length s - 1 - n) (find_char c (rev s))"

text \<open>\<open>s.substr(pos)\<close> and \<open>s.substr(pos, n)\<close>\<close>

definition substr_from :: "string \<Rightarrow> nat \<Rightarrow> string result" where
  "substr_from s pos =
     (if length s < pos then Inl (StdException ''out_of_range'') else Inr (drop pos s))"

definition substr :: "string \<Rightarrow> nat \<Rightarrow> nat \<Rightarrow> string result" where
  "substr s pos n =
     (if length s < pos then Inl (StdException ''out_of_range'') else Inr (take n (drop pos s)))"

definition starts_with :: "string \<Rightarrow> string \<Rightarrow> bool" where
  "starts_with p s \<longleftrightarrow> take (length p) s = p"

definition in_int32 :: "int \<Rightarrow> bool" where
  "in_int32 v \<longleftrightarrow> - 2147483648 \<le> v \<and> v < 2147483648"

text \<open>The conversion of a \<open>long\<close> to \<open>int\<close>\<close>

definition wrap_int32 :: "int \<Rightarrow> int" where
  "wrap_int32 v = (v + 2147483648) mod 4294967296 - 2147483648"

text \<open>\<open>std::stoi\<close> with its two exceptions\<close>

definition stoi :: "nat \<Rightarrow> string \<Rightarrow> int result" where
  "stoi base s =
     (case scan_int base (c_str s) of
        None \<Rightarrow> Inl (StdException ''invalid_argument'')
      | Some (v, _) \<Rightarrow> if in_int32 v then Inr v else Inl (StdException ''out_of_range''))"

section \<open>The command parser\<close>

text \<open>The text after the first \<open>c\<close>, or the whole text if there is none\<close>

definition skip_past :: "char \<Rightarrow> string \<Rightarrow> string" where
  "skip_past c s = (case find_char c s of None \<Rightarrow> s | Some pos \<Rightarrow> drop (min (pos + 1) (length s)) s)"

definition SkipPrefix :: "string \<Rightarrow> string" where
  "SkipPrefix cmd = skip_past (CHR ''='') cmd"

definition SkipComma :: "string \<Rightarrow> string" where
  "SkipComma cmd = skip_past (CHR '','') cmd"

definition SkipWhiteSpace :: "string \<Rightarrow> string" where
  "SkipWhiteSpace cmd = skip_past (CHR '' '') cmd"

text \<open>\<open>SkipPrefixAT\<close> is one call of \<open>absl::ConsumePrefix\<close>, given as the text it leaves.\<close>

definition SkipPrefixAT :: "(string \<Rightarrow> string \<Rightarrow> string) \<Rightarrow> string \<Rightarrow> string" where
  "SkipPrefixAT ConsumePrefix cmd = ConsumePrefix cmd ''AT''"

definition GetNextStr :: "string \<Rightarrow> string \<times> string" where
  "GetNextStr cmd =
     (case find_char (CHR 0x22) cmd of
        None \<Rightarrow> ([], cmd)
      | Some fpos \<Rightarrow>
          (let after = drop (fpos + 1) cmd
           in case find_char (CHR 0x22) after of
                None \<Rightarrow> ([], after)
              | Some n \<Rightarrow> (take n after, SkipComma (drop (n + 1) after))))"

definition GetNextStrFlag :: "char \<Rightarrow> string \<Rightarrow> string \<times> string" where
  "GetNextStrFlag flag cmd =
     (case find_char flag cmd of
        None \<Rightarrow> (cmd, [])
      | Some pos \<Rightarrow> (take pos cmd, drop (min (pos + 1) (length cmd)) cmd))"

definition parse_int :: "string \<Rightarrow> nat \<Rightarrow> int" where
  "parse_int snumber base =
     (if snumber = [] then -1
      else case scan_int base (c_str snumber) of
             None \<Rightarrow> -1
           | Some (lval, _) \<Rightarrow>
               if lval < - 9223372036854775808 \<or> 9223372036854775807 < lval then -1
               else wrap_int32 lval)"

definition GetNextInt :: "string \<Rightarrow> int \<times> string" where
  "GetNextInt cmd =
     (if cmd = [] then (-1, [])
      else let (sub, rest) = GetNextStrFlag (CHR '','') cmd in (parse_int sub 10, rest))"

definition GetNextHexInt :: "string \<Rightarrow> int \<times> string" where
  "GetNextHexInt cmd =
     (if cmd = [] then (-1, [])
      else let (sub, rest) = GetNextStrFlag (CHR '','') cmd in (parse_int sub 16, rest))"

definition GetNextStrDeciToHex :: "string \<Rightarrow> string \<times> string" where
  "GetNextStrDeciToHex cmd =
     (let (v, rest) = GetNextInt cmd in if v = -1 then ([], rest) else (to_hex_upper v, rest))"

section \<open>Text that is printed is parsed back\<close>

lemma to_dec_unfold:
  "to_dec n = (if n < 10 then [''0123456789'' ! n] else to_dec (n div 10) @ [''0123456789'' ! (n mod 10)])"
  unfolding to_dec_def by (subst to_base.simps) simp

lemma digit_value_dec [simp]: "d < 10 \<Longrightarrow> digit_value 10 (''0123456789'' ! d) = Some d"
proof -
  have "digit_value 10 (''0123456789'' ! d) = Some d" if "d \<in> set [0..<10]" for d
    using that by (auto simp: upt_rec digit_value_def)
  then show "d < 10 \<Longrightarrow> ?thesis" by simp
qed

lemma to_dec_nonempty [simp]: "to_dec n \<noteq> []"
  by (subst to_dec_unfold) simp

lemma to_dec_digits: "\<forall>c \<in> set (to_dec n). digit_value 10 c \<noteq> None"
proof (induction n rule: less_induct)
  case (less n)
  show ?case using less [of "n div 10"] by (subst to_dec_unfold) auto
qed

lemma digits_value_to_dec: "digits_value 10 0 (to_dec n) = n"
proof (induction n rule: less_induct)
  case (less n)
  show ?case
    using less [of "n div 10"] by (subst to_dec_unfold) (simp add: digits_value_append to_dec_digits)
qed

lemma digit_char_code:
  assumes "digit_value 10 c = Some v"
  shows "48 \<le> (of_char c :: nat) \<and> (of_char c :: nat) \<le> 57"
  using assms by (auto simp: digit_value_def Let_def split: if_splits)

lemma digit_char_neq:
  assumes "digit_value 10 c \<noteq> None" and "(of_char d :: nat) < 48 \<or> 57 < (of_char d :: nat)"
  shows "c \<noteq> d"
  using assms digit_char_code [of c] by auto

lemma digit_not_space: "digit_value 10 c \<noteq> None \<Longrightarrow> \<not> isspace c"
  unfolding isspace_def using digit_char_neq [of c] by auto

lemma digits_value_stop:
  "\<forall>c \<in> set s. digit_value b c \<noteq> None \<Longrightarrow> rest = [] \<or> digit_value b (hd rest) = None \<Longrightarrow>
   digits_value b acc (s @ rest) = digits_value b acc s"
  by (cases rest) (auto simp: digits_value_append)

lemma scan_int_to_string:
  assumes "rest = [] \<or> digit_value 10 (hd rest) = None"
  shows "scan_int 10 (to_string v @ rest) = Some (v, rest)"
proof -
  let ?s = "to_dec (nat \<bar>v\<bar>)"
  have digits: "\<forall>c \<in> set ?s. digit_value 10 c \<noteq> None" by (rule to_dec_digits)
  have hd: "hd ?s \<in> set ?s" by simp
  have "dropWhile (is_digit 10) (?s @ rest) = dropWhile (is_digit 10) rest"
    using digits by (simp add: is_digit_def)
  also have "\<dots> = rest" using assms by (cases rest) (auto simp: is_digit_def)
  finally have rest: "dropWhile (is_digit 10) (?s @ rest) = rest" .
  have val: "digits_value 10 0 (?s @ rest) = nat \<bar>v\<bar>"
    using digits_value_stop [OF digits assms] by (simp add: digits_value_to_dec)
  have space: "dropWhile isspace (?s @ rest) = ?s @ rest"
    using digit_not_space digits hd by (cases ?s) auto
  have "hd ?s \<noteq> CHR ''-'' \<and> hd ?s \<noteq> CHR ''+'' \<and> is_digit 10 (hd ?s)"
    using digits hd digit_char_neq [of "hd ?s"] by (auto simp: is_digit_def)
  then have "scan_int 10 (?s @ rest) = Some (int (nat \<bar>v\<bar>), rest)"
    and "scan_int 10 (CHR ''-'' # ?s @ rest) = Some (- int (nat \<bar>v\<bar>), rest)"
    using rest val space by (simp_all add: scan_int_def skip_space_def isspace_def)
  then show ?thesis by (cases "v < 0") (simp_all add: to_string_def)
qed

lemma c_str_no_nul: "CHR 0x00 \<notin> set s \<Longrightarrow> c_str s = s"
  unfolding c_str_def by (rule takeWhile_eq_all_conv [THEN iffD2]) auto

lemma to_string_chars: "c \<in> set (to_string v) \<Longrightarrow> c = CHR ''-'' \<or> digit_value 10 c \<noteq> None"
  using to_dec_digits by (auto simp: to_string_def split: if_splits)

lemma to_string_nonempty [simp]: "to_string v \<noteq> []"
  by (simp add: to_string_def)

lemma to_string_not_in:
  "(of_char d :: nat) < 48 \<or> 57 < (of_char d :: nat) \<Longrightarrow> d \<noteq> CHR ''-'' \<Longrightarrow> d \<notin> set (to_string v)"
  using to_string_chars digit_char_neq by blast

lemma wrap_int32_id [simp]: "in_int32 v \<Longrightarrow> wrap_int32 v = v"
  by (simp add: wrap_int32_def in_int32_def)

lemma in_int32_wrap [simp, intro]: "in_int32 (wrap_int32 v)"
  by (simp add: wrap_int32_def in_int32_def)

lemma stoi_to_string: "in_int32 v \<Longrightarrow> stoi 10 (to_string v) = Inr v"
  using scan_int_to_string [of "[]" v] by (simp add: stoi_def c_str_no_nul to_string_not_in)

lemma parse_int_to_string: "in_int32 v \<Longrightarrow> parse_int (to_string v) 10 = v"
  using scan_int_to_string [of "[]" v]
  by (auto simp: parse_int_def c_str_no_nul to_string_not_in in_int32_def wrap_int32_def)

lemma find_char_first [simp]: "c \<notin> set s \<Longrightarrow> find_char c (s @ c # t) = Some (length s)"
  by (simp add: find_char_def takeWhile_append)

lemma find_char_none [simp]: "c \<notin> set s \<Longrightarrow> find_char c s = None"
  by (simp add: find_char_def)

lemma find_char_Cons [simp]: "find_char c (c # t) = Some 0"
  by (simp add: find_char_def)

lemma find_char_SomeD: "find_char c s = Some n \<Longrightarrow> n < length s \<and> s ! n = c \<and> c \<notin> set (take n s)"
proof (induction s arbitrary: n)
  case (Cons d s)
  then show ?case by (cases n) (auto simp: find_char_def split: if_splits)
qed (simp add: find_char_def)

lemma skip_past_first [simp]: "c \<notin> set s \<Longrightarrow> skip_past c (s @ c # t) = t"
  by (simp add: skip_past_def)

lemma skip_past_none [simp]: "c \<notin> set s \<Longrightarrow> skip_past c s = s"
  by (simp add: skip_past_def)

lemma GetNextStrFlag_first [simp]: "c \<notin> set s \<Longrightarrow> GetNextStrFlag c (s @ c # t) = (s, t)"
  by (simp add: GetNextStrFlag_def)

lemma GetNextStrFlag_none [simp]: "c \<notin> set s \<Longrightarrow> GetNextStrFlag c s = (s, [])"
  by (simp add: GetNextStrFlag_def)

lemma GetNextInt_to_string [simp]:
  "in_int32 v \<Longrightarrow> GetNextInt (to_string v @ CHR '','' # t) = (v, t)"
  by (simp add: GetNextInt_def parse_int_to_string to_string_not_in)

lemma GetNextInt_to_string_end [simp]:
  "in_int32 v \<Longrightarrow> GetNextInt (to_string v) = (v, [])"
  by (simp add: GetNextInt_def parse_int_to_string to_string_not_in)

lemma GetNextStr_quoted [simp]:
  "CHR 0x22 \<notin> set s \<Longrightarrow> GetNextStr (CHR 0x22 # s @ CHR 0x22 # CHR '','' # t) = (s, t)"
  using skip_past_first [of "CHR '',''" "[]" t] by (simp add: GetNextStr_def SkipComma_def)

lemma in_int32_parse_int [simp, intro]: "in_int32 (parse_int s b)"
  by (auto simp: parse_int_def in_int32_def split: option.split) (auto simp: wrap_int32_def)

lemma in_int32_GetNextInt: "in_int32 (fst (GetNextInt s))"
  by (auto simp: GetNextInt_def split: prod.split) (simp add: in_int32_def)

end
