(* ===== verification/Flag_Parser.thy ===== *)
theory Flag_Parser
  imports Modem_Text "HOL-Library.Sublist"
begin

text \<open>
  The command line flags of the host tools (\<open>flag_parser/flag.{h,cpp}\<close>, \<open>flag_parser/gflags_compat.{h,cpp}\<close>): how an
  argument matches a flag, the loop that consumes the arguments in place, and the flags for the types of values.

  The variables that flags refer to are a state \<open>'s\<close>: a setter, a validator or a getter is a function on it, and a
  reference is a pair of functions that read and write.  Abseil and \<open>fmt\<close> are a record of functions.
\<close>

section \<open>The libraries\<close>

record absl =
  ConsumePrefix :: "string \<Rightarrow> string \<Rightarrow> bool \<times> string"  \<comment> \<open>whether the prefix was removed, and the new text\<close>
  StrReplaceAll :: "(string \<times> string) list \<Rightarrow> string \<Rightarrow> string"
  StrSplit :: "char \<Rightarrow> string \<Rightarrow> string list"
  StrSplitSkipEmpty :: "string \<Rightarrow> string \<Rightarrow> string list"  \<comment> \<open>at any of the characters, without empty parts\<close>
  StrJoin :: "string \<Rightarrow> string list \<Rightarrow> string"
  AsciiStrToUpper :: "string \<Rightarrow> string"
  SimpleAtoi :: "int \<Rightarrow> int \<Rightarrow> string \<Rightarrow> int \<Rightarrow> bool \<times> int"  \<comment> \<open>for the range of a type; the variable is written in any case\<close>
  SimpleAtob :: "string \<Rightarrow> bool option"
  format_int :: "int \<Rightarrow> string"
  format_bool :: "bool \<Rightarrow> string"

text \<open>What the libraries document\<close>

fun split_on :: "char \<Rightarrow> string \<Rightarrow> string list" where
  "split_on c [] = [[]]"
| "split_on c (x # s) = (if x = c then [] # split_on c s else (x # hd (split_on c s)) # tl (split_on c s))"

fun join_with :: "string \<Rightarrow> string list \<Rightarrow> string" where
  "join_with sep [] = []"
| "join_with sep [s] = s"
| "join_with sep (s # t # ss) = s @ sep @ join_with sep (t # ss)"

definition prefix_laws :: "absl \<Rightarrow> bool" where
  "prefix_laws lib \<longleftrightarrow>
     (\<forall>p s. ConsumePrefix lib p s = (if starts_with p s then (True, drop (length p) s) else (False, s))) \<and>
     (\<forall>a b s. StrReplaceAll lib [([a], [b])] s = map (\<lambda>c. if c = a then b else c) s)"

definition list_laws :: "absl \<Rightarrow> bool" where
  "list_laws lib \<longleftrightarrow> (\<forall>c s. StrSplit lib c s = split_on c s) \<and> (\<forall>sep ss. StrJoin lib sep ss = join_with sep ss)"

definition number_laws :: "absl \<Rightarrow> bool" where
  "number_laws lib \<longleftrightarrow>
     (\<forall>v. format_int lib v = to_string v) \<and>
     (\<forall>lo hi v old. lo \<le> v \<longrightarrow> v \<le> hi \<longrightarrow> SimpleAtoi lib lo hi (to_string v) old = (True, v))"

section \<open>Flags\<close>

text \<open>A callback returns, fails, or ends the program.\<close>

datatype stop_reason = Fails cf_error | Exits int

type_synonym 'a outcome = "stop_reason + 'a"

datatype flag_style = String_Style | Bool_Style

record 's flag =
  aliases :: "string list"
  style :: flag_style
  help_text :: string
  value_name_hint :: string
  getter :: "'s \<Rightarrow> string"
  setter :: "string \<Rightarrow> 's \<Rightarrow> unit outcome \<times> 's"
  validators :: "('s \<Rightarrow> unit outcome \<times> 's) list"

definition fail :: "string \<Rightarrow> stop_reason" where
  "fail msg = Fails (CfError msg)"

definition ConsumeDashes :: "absl \<Rightarrow> string \<Rightarrow> bool \<times> string" where
  "ConsumeDashes lib flag_arg =
     (case ConsumePrefix lib ''-'' flag_arg of
        (False, s) \<Rightarrow> (False, s)
      | (True, s) \<Rightarrow> (True, snd (ConsumePrefix lib ''-'' s)))"

definition MatchNormalized :: "absl \<Rightarrow> string \<Rightarrow> string \<Rightarrow> bool" where
  "MatchNormalized lib str1 str2 \<longleftrightarrow> StrReplaceAll lib [(''-'', ''_'')] str1 = StrReplaceAll lib [(''-'', ''_'')] str2"

definition DefaultValueNameHint :: "absl \<Rightarrow> string \<Rightarrow> string" where
  "DefaultValueNameHint lib name =
     (case StrSplitSkipEmpty lib ''-_'' name of
        [] \<Rightarrow> ''VAL''
      | parts \<Rightarrow> AsciiStrToUpper lib (last parts))"

definition ValidateAlias :: "string list \<Rightarrow> string \<Rightarrow> unit result" where
  "ValidateAlias als alias =
     (if starts_with ''-'' alias then Inl (CheckFailure ''Flag aliases should not start with a dash'')
      else if alias \<in> set als then Inl (CheckFailure ''Duplicate flag alias'')
      else Inr ())"

text \<open>A flag has no setter at first: a call of the empty function throws.\<close>

definition Flag :: "absl \<Rightarrow> string \<Rightarrow> flag_style \<Rightarrow> 's flag result" where
  "Flag lib name st =
     rbind (ValidateAlias [] name) (\<lambda>_.
       Inr \<lparr>aliases = [name], style = st, help_text = [], value_name_hint = DefaultValueNameHint lib name, getter = (\<lambda>_. []),
            setter = (\<lambda>_ s. (Inl (Fails (StdException ''bad_function_call'')), s)), validators = []\<rparr>)"

definition StringFlag :: "absl \<Rightarrow> string \<Rightarrow> 's flag result" where
  "StringFlag lib name = Flag lib name String_Style"

definition BoolFlag :: "absl \<Rightarrow> string \<Rightarrow> 's flag result" where
  "BoolFlag lib name = Flag lib name Bool_Style"

definition Alias :: "string \<Rightarrow> 's flag \<Rightarrow> 's flag result" where
  "Alias alias f = rbind (ValidateAlias (aliases f) alias) (\<lambda>_. Inr (f\<lparr>aliases := aliases f @ [alias]\<rparr>))"

definition AddValidator :: "('s \<Rightarrow> unit outcome \<times> 's) \<Rightarrow> 's flag \<Rightarrow> 's flag" where
  "AddValidator v f = f\<lparr>validators := validators f @ [v]\<rparr>"

definition Name :: "'s flag \<Rightarrow> string" where
  "Name f = hd (aliases f)"

definition Synopsis :: "absl \<Rightarrow> 's flag \<Rightarrow> string" where
  "Synopsis lib f =
     StrJoin lib '', '' (map (\<lambda>alias. case style f of
       String_Style \<Rightarrow> ''--'' @ alias @ ''='' @ value_name_hint f
     | Bool_Style \<Rightarrow> ''--[no]'' @ alias) (aliases f))"

text \<open>\<open>operator<<\<close>\<close>

definition print_flag :: "absl \<Rightarrow> 's flag \<Rightarrow> 's \<Rightarrow> string" where
  "print_flag lib f s =
     Synopsis lib f @ [CHR 0x0A] @ (if help_text f = [] then [] else help_text f @ [CHR 0x0A]) @
     ''Current value: '' @ [CHR 0x22] @ getter f s @ [CHR 0x22, CHR 0x0A]"

section \<open>Matching an argument\<close>

fun run_validators :: "('s \<Rightarrow> unit outcome \<times> 's) list \<Rightarrow> 's \<Rightarrow> unit outcome \<times> 's" where
  "run_validators [] s = (Inr (), s)"
| "run_validators (v # vs) s = (case v s of (Inl e, s) \<Rightarrow> (Inl e, s) | (Inr _, s) \<Rightarrow> run_validators vs s)"

definition SetAndValidate :: "'s flag \<Rightarrow> string \<Rightarrow> 's \<Rightarrow> unit outcome \<times> 's" where
  "SetAndValidate f value s =
     (case setter f value s of (Inl e, s) \<Rightarrow> (Inl e, s) | (Inr _, s) \<Rightarrow> run_validators (validators f) s)"

text \<open>The number of arguments that are consumed, after the value was set\<close>

definition consumed :: "nat \<Rightarrow> unit outcome \<times> 's \<Rightarrow> nat outcome \<times> 's" where
  "consumed n r = (case r of (Inl e, s) \<Rightarrow> (Inl e, s) | (Inr _, s) \<Rightarrow> (Inr n, s))"

definition set_after_equals :: "'s flag \<Rightarrow> string \<Rightarrow> string \<Rightarrow> 's \<Rightarrow> nat outcome \<times> 's" where
  \<comment> \<open>\<open>SetAndValidate(current_arg.substr(alias.size() + 1))\<close>\<close>
  "set_after_equals f alias arg s =
     (case substr_from arg (length alias + 1) of
        Inl e \<Rightarrow> (Inl (Fails e), s)
      | Inr v \<Rightarrow> consumed 1 (SetAndValidate f v s))"

definition matches_equals :: "absl \<Rightarrow> string \<Rightarrow> string \<Rightarrow> bool" where
  "matches_equals lib arg alias \<longleftrightarrow> MatchNormalized lib (take (length alias + 1) arg) (alias @ ''='')"

definition MatchStringStyleFlag :: "absl \<Rightarrow> 's flag \<Rightarrow> string \<Rightarrow> string list \<Rightarrow> 's \<Rightarrow> nat outcome \<times> 's" where
  "MatchStringStyleFlag lib f current_arg following_args s =
     (case ConsumeDashes lib current_arg of
        (False, _) \<Rightarrow> (Inr 0, s)
      | (True, arg) \<Rightarrow>
          (case find (matches_equals lib arg) (aliases f) of
             Some alias \<Rightarrow> set_after_equals f alias arg s
           | None \<Rightarrow>
               if list_ex (MatchNormalized lib arg) (aliases f) then
                 case following_args of
                   [] \<Rightarrow> (Inl (fail ''No argument provided for flag''), s)
                 | v # _ \<Rightarrow> consumed 2 (SetAndValidate f v s)
               else (Inr 0, s)))"

fun match_bool_aliases :: "absl \<Rightarrow> 's flag \<Rightarrow> string \<Rightarrow> string list \<Rightarrow> 's \<Rightarrow> nat outcome \<times> 's" where
  "match_bool_aliases lib f arg [] s = (Inr 0, s)"
| "match_bool_aliases lib f arg (alias # als) s =
     (if matches_equals lib arg alias then set_after_equals f alias arg s
      else if MatchNormalized lib arg alias then consumed 1 (SetAndValidate f ''yes'' s)
      else if MatchNormalized lib arg (''no'' @ alias) then consumed 1 (SetAndValidate f ''no'' s)
      else match_bool_aliases lib f arg als s)"

definition MatchBoolStyleFlag :: "absl \<Rightarrow> 's flag \<Rightarrow> string \<Rightarrow> 's \<Rightarrow> nat outcome \<times> 's" where
  "MatchBoolStyleFlag lib f current_arg s =
     (case ConsumeDashes lib current_arg of
        (False, _) \<Rightarrow> (Inr 0, s)
      | (True, arg) \<Rightarrow> match_bool_aliases lib f arg (aliases f) s)"

definition Match :: "absl \<Rightarrow> 's flag \<Rightarrow> string \<Rightarrow> string list \<Rightarrow> 's \<Rightarrow> nat outcome \<times> 's" where
  "Match lib f current_arg following_args s =
     (case style f of
        String_Style \<Rightarrow> MatchStringStyleFlag lib f current_arg following_args s
      | Bool_Style \<Rightarrow> MatchBoolStyleFlag lib f current_arg s)"

section \<open>Consuming the arguments\<close>

record consume_flags_opts =
  stop_at_double_dashes :: bool
  fail_on_unexpected_argument :: bool

fun match_flags :: "absl \<Rightarrow> 's flag list \<Rightarrow> string \<Rightarrow> string list \<Rightarrow> 's \<Rightarrow> nat outcome \<times> 's" where
  "match_flags lib [] arg following s = (Inr 0, s)"
| "match_flags lib (f # fs) arg following s =
     (case Match lib f arg following s of
        (Inl e, s) \<Rightarrow> (Inl e, s)
      | (Inr n, s) \<Rightarrow> if n \<noteq> 0 then (Inr n, s) else match_flags lib fs arg following s)"

text \<open>
  The loop over the vector of arguments: \<open>slot\<close> and \<open>mt\<close> are the two iterators, \<open>lim\<close> the position of the end.  An
  argument that is moved from is left with some text \<open>moved\<close>.
\<close>

function consume_loop ::
    "absl \<Rightarrow> 's flag list \<Rightarrow> bool \<Rightarrow> string \<Rightarrow> nat \<Rightarrow> nat \<Rightarrow> nat \<Rightarrow> string list \<Rightarrow> 's \<Rightarrow>
     stop_reason option \<times> nat \<times> nat \<times> string list \<times> 's" where
  "consume_loop lib flags strict moved lim slot mt args s =
     (if mt = lim then (None, slot, mt, args, s)
      else if lim < mt \<or> length args \<le> mt then (Some (Fails (UndefinedBehaviour ''iterator past the end'')), slot, mt, args, s)
      else case match_flags lib flags (args ! mt) (take (lim - (mt + 1)) (drop (mt + 1) args)) s of
        (Inl e, s) \<Rightarrow> (Some e, slot, mt, args, s)
      | (Inr n, s) \<Rightarrow>
          if n \<noteq> 0 then consume_loop lib flags strict moved lim slot (mt + n) args s
          else if strict then (Some (fail ''Unexpected argument''), slot, mt, args, s)
          else let args = (if slot \<noteq> mt then args[slot := args ! mt, mt := moved] else args)
               in consume_loop lib flags strict moved lim (slot + 1) (mt + 1) args s)"
  by pat_completeness auto
termination
  by (relation "measure (\<lambda>(lib, flags, strict, moved, lim, slot, mt, args, s). lim - mt)") auto

declare consume_loop.simps [simp del]

text \<open>What is done when the function is left: the consumed arguments are erased, and the separator.\<close>

definition delete_args :: "consume_flags_opts \<Rightarrow> nat \<Rightarrow> nat \<Rightarrow> string list \<Rightarrow> string list" where
  "delete_args opts slot mt args =
     (let rest = drop mt args
      in take slot args @
         (if stop_at_double_dashes opts \<and> rest \<noteq> [] \<and> hd rest = ''--'' then tl rest else rest))"

definition ConsumeFlags ::
    "absl \<Rightarrow> string \<Rightarrow> 's flag list \<Rightarrow> consume_flags_opts \<Rightarrow> string list \<Rightarrow> 's \<Rightarrow> stop_reason option \<times> string list \<times> 's" where
  "ConsumeFlags lib moved flags opts args s =
     (if \<not> distinct (concat (map aliases flags)) then (Some (fail ''Ambiguous argument parsing possible''), args, s)
      else let lim = (if stop_at_double_dashes opts then length (takeWhile (\<lambda>a. a \<noteq> ''--'') args) else length args);
               (r, slot, mt, args, s) = consume_loop lib flags (fail_on_unexpected_argument opts) moved lim 0 0 args s
           in (r, delete_args opts slot mt args, s))"

section \<open>Values as text\<close>

datatype coerce_to_nullopt = CoerceNone | UnsetKeyword | EmptyString

definition ShouldBeNullOpt :: "string \<Rightarrow> coerce_to_nullopt \<Rightarrow> bool" where
  "ShouldBeNullOpt value opt =
     (case opt of CoerceNone \<Rightarrow> False | UnsetKeyword \<Rightarrow> value = ''unset'' | EmptyString \<Rightarrow> value = [])"

definition NullOptValue :: "coerce_to_nullopt \<Rightarrow> string" where
  "NullOptValue opt = (case opt of CoerceNone \<Rightarrow> ''[not set]'' | UnsetKeyword \<Rightarrow> ''unset'' | EmptyString \<Rightarrow> [])"

definition ParseFlagValue_string :: "string \<Rightarrow> string result" where
  "ParseFlagValue_string str = Inr str"

text \<open>An integral type has a lowest and a highest value.\<close>

definition ParseFlagValue_integral :: "absl \<Rightarrow> int \<Rightarrow> int \<Rightarrow> string \<Rightarrow> int result" where
  "ParseFlagValue_integral lib lo hi str =
     (case SimpleAtoi lib lo hi str 0 of (ok, v) \<Rightarrow> if ok then Inr v else Inl (CfError ''SimpleAtoi''))"

definition ParseFlagValue_bool :: "absl \<Rightarrow> string \<Rightarrow> bool result" where
  "ParseFlagValue_bool lib str =
     (case SimpleAtob lib str of None \<Rightarrow> Inl (CfError ''SimpleAtob'') | Some b \<Rightarrow> Inr b)"

definition FlagValueToString_vector :: "absl \<Rightarrow> ('v \<Rightarrow> string) \<Rightarrow> 'v list \<Rightarrow> string" where
  "FlagValueToString_vector lib show_v values = StrJoin lib '','' (map show_v values)"

fun parse_elements :: "(string \<Rightarrow> 'v result) \<Rightarrow> 'v \<Rightarrow> string list \<Rightarrow> 'v list result" where
  "parse_elements parse dflt [] = Inr []"
| "parse_elements parse dflt (e # es) =
     rbind (if e = [] then Inr dflt else parse e) (\<lambda>v. rbind (parse_elements parse dflt es) (\<lambda>vs. Inr (v # vs)))"

definition ParseFlagVectorValue :: "absl \<Rightarrow> (string \<Rightarrow> 'v result) \<Rightarrow> 'v \<Rightarrow> string \<Rightarrow> 'v list result" where
  "ParseFlagVectorValue lib parse dflt str =
     (if str = [] then Inr [] else parse_elements parse dflt (StrSplit lib (CHR '','') str))"

definition FlagValueToString_optional :: "('v \<Rightarrow> string) \<Rightarrow> 'v option \<Rightarrow> coerce_to_nullopt \<Rightarrow> string" where
  "FlagValueToString_optional show_v value opt = (case value of None \<Rightarrow> NullOptValue opt | Some v \<Rightarrow> show_v v)"

definition ParseFlagOptionalValue :: "(string \<Rightarrow> 'v result) \<Rightarrow> string \<Rightarrow> coerce_to_nullopt \<Rightarrow> 'v option result" where
  "ParseFlagOptionalValue parse str opt =
     (if ShouldBeNullOpt str opt then Inr None else rbind (parse str) (\<lambda>v. Inr (Some v)))"

section \<open>Flags of a type\<close>

text \<open>A reference to a variable of the state\<close>

record ('s, 'v) reference =
  rd :: "'s \<Rightarrow> 'v"
  wr :: "'v \<Rightarrow> 's \<Rightarrow> 's"

definition assign :: "('s, 'v) reference \<Rightarrow> 'v result \<Rightarrow> 's \<Rightarrow> unit outcome \<times> 's" where
  \<comment> \<open>\<open>value = CF_EXPECT(...); return {};\<close>\<close>
  "assign r x s = (case x of Inl e \<Rightarrow> (Inl (Fails e), s) | Inr v \<Rightarrow> (Inr (), wr r v s))"

definition int32_range :: "int \<times> int" where "int32_range = (- 2147483648, 2147483647)"
definition int64_range :: "int \<times> int" where "int64_range = (- 9223372036854775808, 9223372036854775807)"
definition uint32_range :: "int \<times> int" where "uint32_range = (0, 4294967295)"
definition uint64_range :: "int \<times> int" where "uint64_range = (0, 18446744073709551615)"

definition integral_flag :: "absl \<Rightarrow> int \<times> int \<Rightarrow> string \<Rightarrow> ('s, int) reference \<Rightarrow> 's flag result" where
  "integral_flag lib range_t name r =
     rbind (StringFlag lib name) (\<lambda>f.
       Inr (f\<lparr>getter := (\<lambda>s. to_string (rd r s)),
              setter := (\<lambda>arg s. let (ok, v) = SimpleAtoi lib (fst range_t) (snd range_t) arg (rd r s)
                                 in (if ok then Inr () else Inl (fail ''Failed to parse as an integer''), wr r v s))\<rparr>))"

definition vector_flag ::
    "absl \<Rightarrow> ('v \<Rightarrow> string) \<Rightarrow> (string \<Rightarrow> 'v result) \<Rightarrow> 'v \<Rightarrow> string \<Rightarrow> ('s, 'v list) reference \<Rightarrow> 's flag result" where
  "vector_flag lib show_v parse dflt name r =
     rbind (StringFlag lib name) (\<lambda>f.
       Inr (f\<lparr>getter := (\<lambda>s. FlagValueToString_vector lib show_v (rd r s)),
              setter := (\<lambda>arg. assign r (ParseFlagVectorValue lib parse dflt arg))\<rparr>))"

definition optional_flag ::
    "absl \<Rightarrow> ('v \<Rightarrow> string) \<Rightarrow> (string \<Rightarrow> 'v result) \<Rightarrow> string \<Rightarrow> ('s, 'v option) reference \<Rightarrow> coerce_to_nullopt \<Rightarrow>
     's flag result" where
  "optional_flag lib show_v parse name r opt =
     rbind (StringFlag lib name) (\<lambda>f.
       Inr (f\<lparr>getter := (\<lambda>s. FlagValueToString_optional show_v (rd r s) opt),
              setter := (\<lambda>arg. assign r (ParseFlagOptionalValue parse arg opt))\<rparr>))"

definition WithVectorNameValueHint :: "'s flag \<Rightarrow> 's flag" where
  "WithVectorNameValueHint f = f\<lparr>value_name_hint := value_name_hint f @ ''[,'' @ value_name_hint f @ ''...]''\<rparr>"

definition GflagsCompatFlag_string :: "absl \<Rightarrow> string \<Rightarrow> ('s, string) reference \<Rightarrow> 's flag result" where
  "GflagsCompatFlag_string lib name r =
     rbind (StringFlag lib name) (\<lambda>f. Inr (f\<lparr>getter := rd r, setter := (\<lambda>arg s. (Inr (), wr r arg s))\<rparr>))"

definition GflagsCompatFlag_int32 :: "absl \<Rightarrow> string \<Rightarrow> ('s, int) reference \<Rightarrow> 's flag result" where
  "GflagsCompatFlag_int32 lib = integral_flag lib int32_range"

definition GflagsCompatFlag_size :: "absl \<Rightarrow> string \<Rightarrow> ('s, int) reference \<Rightarrow> 's flag result" where
  "GflagsCompatFlag_size lib = integral_flag lib uint64_range"

definition GflagsCompatFlag_bool :: "absl \<Rightarrow> string \<Rightarrow> ('s, bool) reference \<Rightarrow> 's flag result" where
  "GflagsCompatFlag_bool lib name r =
     rbind (BoolFlag lib name) (\<lambda>f.
       Inr (f\<lparr>getter := (\<lambda>s. format_bool lib (rd r s)), setter := (\<lambda>arg. assign r (ParseFlagValue_bool lib arg))\<rparr>))"

definition map_result :: "('a \<Rightarrow> 'b) \<Rightarrow> 'a result \<Rightarrow> 'b result" where
  "map_result f x = rbind x (\<lambda>v. Inr (f v))"

definition GflagsCompatFlag_strings :: "absl \<Rightarrow> string \<Rightarrow> ('s, string list) reference \<Rightarrow> 's flag result" where
  "GflagsCompatFlag_strings lib name r =
     map_result WithVectorNameValueHint (vector_flag lib (\<lambda>v. v) ParseFlagValue_string [] name r)"

definition GflagsCompatFlag_unsigneds :: "absl \<Rightarrow> string \<Rightarrow> ('s, int list) reference \<Rightarrow> 's flag result" where
  "GflagsCompatFlag_unsigneds lib name r =
     map_result WithVectorNameValueHint
       (vector_flag lib (format_int lib) (ParseFlagValue_integral lib (fst uint32_range) (snd uint32_range)) 0 name r)"

definition GflagsCompatFlag_bools :: "absl \<Rightarrow> string \<Rightarrow> ('s, bool list) reference \<Rightarrow> bool \<Rightarrow> 's flag result" where
  "GflagsCompatFlag_bools lib name r default_value =
     map_result WithVectorNameValueHint
       (vector_flag lib (format_bool lib) (ParseFlagValue_bool lib) default_value name r)"

definition GflagsCompatFlag_optional_string ::
    "absl \<Rightarrow> string \<Rightarrow> ('s, string option) reference \<Rightarrow> coerce_to_nullopt \<Rightarrow> 's flag result" where
  "GflagsCompatFlag_optional_string lib = optional_flag lib (\<lambda>v. v) ParseFlagValue_string"

text \<open>\<open>int\<close>, \<open>size_t\<close>, \<open>unsigned\<close> and \<open>int64_t\<close>\<close>

definition GflagsCompatFlag_optional_integral ::
    "int \<times> int \<Rightarrow> absl \<Rightarrow> string \<Rightarrow> ('s, int option) reference \<Rightarrow> coerce_to_nullopt \<Rightarrow> 's flag result" where
  "GflagsCompatFlag_optional_integral range_t lib =
     optional_flag lib (format_int lib) (ParseFlagValue_integral lib (fst range_t) (snd range_t))"

definition GflagsCompatFlag_optional_bool ::
    "absl \<Rightarrow> string \<Rightarrow> ('s, bool option) reference \<Rightarrow> coerce_to_nullopt \<Rightarrow> 's flag result" where
  "GflagsCompatFlag_optional_bool lib name r opt =
     rbind (BoolFlag lib name) (\<lambda>f.
       Inr (f\<lparr>getter := (\<lambda>s. case rd r s of None \<Rightarrow> [] | Some b \<Rightarrow> format_bool lib b),
              setter := (\<lambda>arg. assign r (ParseFlagOptionalValue (ParseFlagValue_bool lib) arg opt))\<rparr>))"

definition GflagsCompatFlag_optional_strings ::
    "absl \<Rightarrow> string \<Rightarrow> ('s, string list option) reference \<Rightarrow> coerce_to_nullopt \<Rightarrow> 's flag result" where
  "GflagsCompatFlag_optional_strings lib name r opt =
     map_result WithVectorNameValueHint
       (optional_flag lib (FlagValueToString_vector lib (\<lambda>v. v)) (ParseFlagVectorValue lib ParseFlagValue_string []) name r opt)"

definition GflagsCompatFlag_optional_unsigneds ::
    "absl \<Rightarrow> string \<Rightarrow> ('s, int list option) reference \<Rightarrow> coerce_to_nullopt \<Rightarrow> 's flag result" where
  "GflagsCompatFlag_optional_unsigneds lib name r opt =
     map_result WithVectorNameValueHint
       (optional_flag lib (FlagValueToString_vector lib (format_int lib))
          (ParseFlagVectorValue lib (ParseFlagValue_integral lib (fst uint32_range) (snd uint32_range)) 0) name r opt)"

section \<open>Help\<close>

definition XmlEscape :: "absl \<Rightarrow> string \<Rightarrow> string" where
  "XmlEscape lib s = StrReplaceAll lib [(''<'', ''&lt;''), (''>'', ''&gt;'')] s"

abbreviation newline :: string where "newline \<equiv> [CHR 0x0A]"

definition WriteGflagsCompatXml :: "absl \<Rightarrow> 's flag \<Rightarrow> 's \<Rightarrow> string" where
  "WriteGflagsCompatXml lib f s =
     (let type_str = (case style f of String_Style \<Rightarrow> ''string'' | Bool_Style \<Rightarrow> ''bool'');
          value = XmlEscape lib (getter f s)
      in ''<flag>'' @ newline @ ''  <file>file.cc</file>'' @ newline @ ''  <name>'' @ Name f @ ''</name>'' @ newline @
         ''  <meaning>'' @ XmlEscape lib (help_text f) @ ''</meaning>'' @ newline @
         ''  <default>'' @ value @ ''</default>'' @ newline @ ''  <current>'' @ value @ ''</current>'' @ newline @
         ''  <type>'' @ type_str @ ''</type>'' @ newline @ ''</flag>'' @ newline)"

definition HelpFlag :: "absl \<Rightarrow> 's flag result" where
  "HelpFlag lib = rbind (BoolFlag lib ''help'') (\<lambda>f. Inr (f\<lparr>setter := (\<lambda>_ s. (Inl (Exits 1), s))\<rparr>))"

text \<open>\<open>out\<close> is the text that was written to the stream.\<close>

definition HelpXmlFlag ::
    "absl \<Rightarrow> 's flag list \<Rightarrow> ('s, string) reference \<Rightarrow> ('s, bool) reference \<Rightarrow> string \<Rightarrow> 's flag result" where
  "HelpXmlFlag lib flags out print_xml msg =
     rbind (BoolFlag lib ''helpxml'') (\<lambda>f.
       Inr (f\<lparr>setter := (\<lambda>arg s.
         case ParseFlagValue_bool lib arg of
           Inl e \<Rightarrow> (Inl (Fails e), s)
         | Inr b \<Rightarrow>
             let s = wr print_xml b s
             in if \<not> b then (Inr (), s)
                else (Inl (Exits 1),
                      wr out (rd out s @ (if msg = [] then [] else msg @ newline) @
                        ''<?xml version='' @ [CHR 0x22] @ ''1.0'' @ [CHR 0x22] @ ''?>'' @ newline @ ''<AllFlags>'' @ newline @
                        concat (map (\<lambda>f. WriteGflagsCompatXml lib f s) flags) @ ''</AllFlags>'' @ newline) s))\<rparr>))"

section \<open>The loop and a recursion over the arguments\<close>

lemma consumed_le: "consumed n r = (Inr k, s) \<Longrightarrow> k = n"
  by (auto simp: consumed_def split: prod.splits sum.splits)

lemma set_after_equals_le: "set_after_equals f alias arg s = (Inr k, s') \<Longrightarrow> k = 1"
  by (auto simp: set_after_equals_def consumed_le split: sum.splits dest: consumed_le)

lemma match_bool_aliases_le: "match_bool_aliases lib f arg als s = (Inr k, s') \<Longrightarrow> k \<le> 1"
  by (induction als) (auto split: if_splits dest: consumed_le set_after_equals_le)

lemma Match_le: "Match lib f arg following s = (Inr k, s') \<Longrightarrow> k \<le> Suc (length following)"
  by (auto simp: Match_def MatchStringStyleFlag_def MatchBoolStyleFlag_def
      split: flag_style.splits prod.splits bool.splits option.splits if_splits list.splits
      dest!: consumed_le set_after_equals_le match_bool_aliases_le)

lemma match_flags_le: "match_flags lib flags arg following s = (Inr k, s') \<Longrightarrow> k \<le> Suc (length following)"
  by (induction flags arbitrary: s) (auto split: prod.splits sum.splits if_splits dest: Match_le)

text \<open>
  The reference: the result, the arguments that are kept, and those that are left when it stops early.
\<close>

function consume_spec ::
    "absl \<Rightarrow> 's flag list \<Rightarrow> bool \<Rightarrow> string list \<Rightarrow> 's \<Rightarrow> stop_reason option \<times> string list \<times> string list \<times> 's" where
  "consume_spec lib flags strict [] s = (None, [], [], s)"
| "consume_spec lib flags strict (a # as) s =
     (case match_flags lib flags a as s of
        (Inl e, s) \<Rightarrow> (Some e, [], a # as, s)
      | (Inr n, s) \<Rightarrow>
          if n \<noteq> 0 then consume_spec lib flags strict (drop (n - 1) as) s
          else if strict then (Some (fail ''Unexpected argument''), [], a # as, s)
          else let (r, kept, rest, s) = consume_spec lib flags strict as s in (r, a # kept, rest, s))"
  by pat_completeness auto
termination
  by (relation "measure (\<lambda>(lib, flags, strict, args, s). length args)") auto

lemma consume_spec_rest:
  "consume_spec lib flags strict args s = (r, kept, rest, s') \<Longrightarrow> suffix rest args \<and> (r = None \<longrightarrow> rest = [])"
proof (induction lib flags strict args s arbitrary: r kept rest s' rule: consume_spec.induct)
  case (2 lib flags strict a as s)
  obtain res t where m: "match_flags lib flags a as s = (res, t)" by fastforce
  show ?case
  proof (cases res)
    case (Inr n)
    show ?thesis
    proof (cases "n = 0")
      case True
      with "2.IH"(2) [OF m [symmetric] Inr] "2.prems" m Inr show ?thesis
        by (cases strict) (auto split: prod.splits simp: suffix_Cons)
    next
      case False
      with "2.IH"(1) [OF m [symmetric] Inr] "2.prems" m Inr show ?thesis
        by (auto intro: suffix_ConsI suffix_order.trans [OF _ suffix_drop])
    qed
  qed (use "2.prems" m in auto)
qed simp

lemma consume_loop_step:
  assumes "mt < lim" and "lim \<le> length args"
  shows "consume_loop lib flags strict moved lim slot mt args s =
    (case match_flags lib flags (args ! mt) (take (lim - (mt + 1)) (drop (mt + 1) args)) s of
       (Inl e, s) \<Rightarrow> (Some e, slot, mt, args, s)
     | (Inr n, s) \<Rightarrow>
         if n \<noteq> 0 then consume_loop lib flags strict moved lim slot (mt + n) args s
         else if strict then (Some (fail ''Unexpected argument''), slot, mt, args, s)
         else let args = (if slot \<noteq> mt then args[slot := args ! mt, mt := moved] else args)
              in consume_loop lib flags strict moved lim (slot + 1) (mt + 1) args s)"
  using assms by (simp add: consume_loop.simps [of lib flags strict moved lim slot mt])

text \<open>Moving the argument at the second position to the first\<close>

lemma move_args:
  fixes moved :: string
  assumes "slot \<le> mt" and "mt < length args"
  defines "args2 \<equiv> (if slot \<noteq> mt then args[slot := args ! mt, mt := moved] else args)"
  shows "length args2 = length args" and "take (Suc slot) args2 = take slot args @ [args ! mt]"
    and "Suc mt \<le> k \<Longrightarrow> drop k args2 = drop k args"
  using assms by (auto simp: args2_def take_Suc_conv_app_nth drop_update_cancel)

lemma remaining_args:
  assumes "mt < lim" and "lim \<le> length args"
  shows "take (lim - mt) (drop mt args) = args ! mt # take (lim - (mt + 1)) (drop (mt + 1) args)"
    and "drop mt args = args ! mt # take (lim - (mt + 1)) (drop (mt + 1) args) @ drop lim args"
proof -
  show split: "take (lim - mt) (drop mt args) = args ! mt # take (lim - (mt + 1)) (drop (mt + 1) args)"
    using assms by (simp add: take_Cons' flip: Cons_nth_drop_Suc)
  show "drop mt args = args ! mt # take (lim - (mt + 1)) (drop (mt + 1) args) @ drop lim args"
    using append_take_drop_id [of "lim - mt" "drop mt args"] assms unfolding split by simp
qed

lemma consume_loop_spec:
  assumes "slot \<le> mt" and "mt \<le> lim" and "lim \<le> length args"
    and "consume_loop lib flags strict moved lim slot mt args s = (r, slot', mt', args', s')"
    and "consume_spec lib flags strict (take (lim - mt) (drop mt args)) s = (r1, kept, rest, s1)"
  shows "r1 = r \<and> s1 = s' \<and> take slot' args' = take slot args @ kept \<and> drop mt' args' = rest @ drop lim args"
  using assms
proof (induction "lim - mt" arbitrary: slot mt args s r slot' mt' args' s' r1 kept rest s1 rule: less_induct)
  case less
  show ?case
  proof (cases "mt = lim")
    case True
    with less.prems(4,5) show ?thesis by (auto simp: consume_loop.simps [of lib flags strict moved lim slot lim])
  next
    case False
    then have lt: "mt < lim" "mt < length args" using less.prems by auto
    define as where "as = take (lim - (mt + 1)) (drop (mt + 1) args)"
    obtain res t where m: "match_flags lib flags (args ! mt) as s = (res, t)" by fastforce
    note split = remaining_args(1) [OF lt(1) less.prems(3), folded as_def]
    note rest = remaining_args(2) [OF lt(1) less.prems(3), folded as_def]
    note spec = less.prems(5) [unfolded split consume_spec.simps m]
    note loop = less.prems(4) [unfolded consume_loop_step [OF lt(1) less.prems(3)] as_def [symmetric] m]
    show ?thesis
    proof (cases res)
      case (Inl e)
      with loop spec rest show ?thesis by auto
    next
      case (Inr n)
      show ?thesis
      proof (cases "n = 0")
        case True
        define args2 where "args2 = (if slot \<noteq> mt then args[slot := args ! mt, mt := moved] else args)"
        note mv = move_args [OF less.prems(1) lt(2), where moved = moved, folded args2_def]
        have as2: "take (lim - (mt + 1)) (drop (mt + 1) args2) = as" "drop lim args2 = drop lim args"
          using mv(3) [of "Suc mt"] mv(3) [of lim] lt(1) by (simp_all add: as_def)
        show ?thesis
        proof (cases strict)
          case True
          with loop spec rest Inr \<open>n = 0\<close> show ?thesis by auto
        next
          case False
          obtain r2 kept2 rest2 s2 where "consume_spec lib flags strict as t = (r2, kept2, rest2, s2)" by (metis prod_cases4)
          moreover have "consume_loop lib flags strict moved lim (slot + 1) (mt + 1) args2 t = (r, slot', mt', args', s')"
            using loop Inr \<open>n = 0\<close> False by (simp add: args2_def)
          ultimately show ?thesis
            using less.hyps [of "mt + 1" "slot + 1" args2 t r slot' mt' args' s' r2 kept2 rest2 s2]
              less.prems(1-3) lt mv(1,2) as2 spec Inr \<open>n = 0\<close> False by auto
        qed
      next
        case n: False
        have "n \<le> lim - mt" using match_flags_le [OF m [unfolded Inr]] lt by (auto simp: as_def)
        moreover have "take (lim - (mt + n)) (drop (mt + n) args) = drop (n - 1) as"
          using n by (simp add: as_def drop_take add.commute)
        ultimately show ?thesis
          using less.hyps [of "mt + n" slot args] less.prems(1-3) lt n Inr loop spec by auto
      qed
    qed
  qed
qed

lemma delete_args_append:
  assumes "drop mt args = rest @ after"
    and "stop_at_double_dashes opts \<Longrightarrow> rest \<noteq> [] \<Longrightarrow> hd rest \<noteq> ''--''"
    and "stop_at_double_dashes opts \<Longrightarrow> after \<noteq> [] \<Longrightarrow> hd after = ''--''"
    and "\<not> stop_at_double_dashes opts \<Longrightarrow> after = []"
  shows "delete_args opts slot mt args = take slot args @ rest @ (if rest = [] then tl after else after)"
  using assms by (cases rest; cases after; cases "stop_at_double_dashes opts") (simp_all add: delete_args_def Let_def)

text \<open>The arguments up to the separator, and from the separator on\<close>

definition before_dashes :: "consume_flags_opts \<Rightarrow> string list \<Rightarrow> string list" where
  "before_dashes opts args = (if stop_at_double_dashes opts then takeWhile (\<lambda>a. a \<noteq> ''--'') args else args)"

definition after_dashes :: "consume_flags_opts \<Rightarrow> string list \<Rightarrow> string list" where
  "after_dashes opts args = (if stop_at_double_dashes opts then dropWhile (\<lambda>a. a \<noteq> ''--'') args else [])"

lemma dashes_split:
  "before_dashes opts args = take (length (before_dashes opts args)) args"
  "after_dashes opts args = drop (length (before_dashes opts args)) args"
  by (auto simp: before_dashes_def after_dashes_def dropWhile_eq_drop
      simp flip: takeWhile_eq_take [of "\<lambda>a. a \<noteq> ''--''" args])

lemma before_dashes_hd: "stop_at_double_dashes opts \<Longrightarrow> suffix rest (before_dashes opts args) \<Longrightarrow> rest \<noteq> [] \<Longrightarrow> hd rest \<noteq> ''--''"
  using set_mono_suffix hd_in_set by (fastforce simp: before_dashes_def dest: set_takeWhileD)

lemma after_dashes_hd: "stop_at_double_dashes opts \<Longrightarrow> after_dashes opts args \<noteq> [] \<Longrightarrow> hd (after_dashes opts args) = ''--''"
  using hd_dropWhile [of "\<lambda>a. a \<noteq> ''--''" args] unfolding after_dashes_def by argo

text \<open>
  C11. The in-place loop of \<open>ConsumeFlags\<close>, which moves the arguments it keeps to the front of the vector while it
  walks it with two iterators and erases what is between them when it returns, is equivalent to a plain recursion over
  the arguments before the separator: the result and the state of the flags are those of the recursion, and the vector is
  left with the arguments that no flag consumed, in their order, then those not yet visited, then those after the
  separator, without the separator itself exactly when everything before it was visited.  The text that moving from a string
  leaves behind never shows.
\<close>
theorem ConsumeFlags_equivalent:
  "ConsumeFlags lib moved flags opts args s =
     (if \<not> distinct (concat (map aliases flags)) then (Some (fail ''Ambiguous argument parsing possible''), args, s)
      else let (r, kept, rest, s) = consume_spec lib flags (fail_on_unexpected_argument opts) (before_dashes opts args) s;
               after = after_dashes opts args
           in (r, kept @ rest @ (if rest = [] then tl after else after), s))"
proof (cases "distinct (concat (map aliases flags))")
  case True
  define lim where "lim = length (before_dashes opts args)"
  obtain r slot mt args' s' where loop:
    "consume_loop lib flags (fail_on_unexpected_argument opts) moved lim 0 0 args s = (r, slot, mt, args', s')"
    by (metis prod_cases5)
  obtain r1 kept rest s1 where spec:
    "consume_spec lib flags (fail_on_unexpected_argument opts) (before_dashes opts args) s = (r1, kept, rest, s1)"
    by (metis prod_cases4)
  have "take (lim - 0) (drop 0 args) = before_dashes opts args" using dashes_split(1) [of opts args] by (simp add: lim_def)
  moreover have "lim \<le> length args" by (simp add: lim_def before_dashes_def length_takeWhile_le)
  ultimately have eq: "r1 = r" "s1 = s'" "take slot args' = kept" "drop mt args' = rest @ after_dashes opts args"
    using consume_loop_spec [OF _ _ _ loop, of r1 kept rest s1] spec dashes_split(2) [of opts args]
    by (simp_all add: lim_def)
  have "delete_args opts slot mt args' = kept @ rest @ (if rest = [] then tl (after_dashes opts args) else after_dashes opts args)"
    using delete_args_append [OF eq(4), of opts slot] before_dashes_hd [of opts rest args] consume_spec_rest [OF spec]
      after_dashes_hd [of opts args] eq(3)
    by (fastforce simp: after_dashes_def)
  moreover have "lim = (if stop_at_double_dashes opts then length (takeWhile (\<lambda>a. a \<noteq> ''--'') args) else length args)"
    by (simp add: lim_def before_dashes_def)
  ultimately show ?thesis using True loop spec eq(1,2) by (simp add: ConsumeFlags_def Let_def)
qed (simp add: ConsumeFlags_def)

section \<open>Matching as a lookup by name\<close>

text \<open>
  The specification of how an argument is matched: the text after one or two dashes is a name, up to the first equals sign, and
  a value; names are looked up with dashes and underscores identified.
\<close>

definition normalize :: "string \<Rightarrow> string" where
  "normalize = map (\<lambda>c. if c = CHR ''-'' then CHR ''_'' else c)"

definition own_names :: "'s flag \<Rightarrow> string list" where
  "own_names f = map normalize (aliases f)"

definition no_names :: "'s flag \<Rightarrow> string list" where
  "no_names f = (if style f = Bool_Style then map (\<lambda>alias. normalize (''no'' @ alias)) (aliases f) else [])"

definition unambiguous :: "'s flag list \<Rightarrow> bool" where
  "unambiguous flags \<longleftrightarrow>
     distinct (concat (map (\<lambda>f. own_names f @ no_names f) flags)) \<and>
     list_all (\<lambda>f. list_all (\<lambda>alias. CHR ''='' \<notin> set alias) (aliases f)) flags"

definition arg_body :: "string \<Rightarrow> string" where
  "arg_body arg = (if starts_with ''--'' arg then drop 2 arg else drop 1 arg)"

definition arg_name :: "string \<Rightarrow> string" where
  "arg_name body = normalize (takeWhile (\<lambda>c. c \<noteq> CHR ''='') body)"

definition arg_value :: "string \<Rightarrow> string option" where
  "arg_value body = (case dropWhile (\<lambda>c. c \<noteq> CHR ''='') body of [] \<Rightarrow> None | _ # v \<Rightarrow> Some v)"

definition set_own :: "'s flag \<Rightarrow> string option \<Rightarrow> string list \<Rightarrow> 's \<Rightarrow> nat outcome \<times> 's" where
  "set_own f value following s =
     (case value of
        Some v \<Rightarrow> consumed 1 (SetAndValidate f v s)
      | None \<Rightarrow>
          (case style f of
             Bool_Style \<Rightarrow> consumed 1 (SetAndValidate f ''yes'' s)
           | String_Style \<Rightarrow>
               (case following of
                  [] \<Rightarrow> (Inl (fail ''No argument provided for flag''), s)
                | v # _ \<Rightarrow> consumed 2 (SetAndValidate f v s))))"

definition match_spec :: "'s flag list \<Rightarrow> string \<Rightarrow> string list \<Rightarrow> 's \<Rightarrow> nat outcome \<times> 's" where
  "match_spec flags arg following s =
     (let n = arg_name (arg_body arg); value = arg_value (arg_body arg)
      in if \<not> starts_with ''-'' arg then (Inr 0, s)
         else case find (\<lambda>f. n \<in> set (own_names f)) flags of
           Some f \<Rightarrow> set_own f value following s
         | None \<Rightarrow>
             (case find (\<lambda>f. value = None \<and> n \<in> set (no_names f)) flags of
                Some f \<Rightarrow> consumed 1 (SetAndValidate f ''no'' s)
              | None \<Rightarrow> (Inr 0, s)))"

lemma ConsumeDashes_body:
  assumes "prefix_laws lib"
  shows "starts_with ''-'' arg \<Longrightarrow> ConsumeDashes lib arg = (True, arg_body arg)"
    and "\<not> starts_with ''-'' arg \<Longrightarrow> \<exists>t. ConsumeDashes lib arg = (False, t)"
  using assms
  by (cases arg; cases "tl arg"; auto simp: ConsumeDashes_def prefix_laws_def arg_body_def starts_with_def)+

lemma MatchNormalized_normalize: "prefix_laws lib \<Longrightarrow> MatchNormalized lib a b \<longleftrightarrow> normalize a = normalize b"
  by (simp add: MatchNormalized_def prefix_laws_def normalize_def)

lemma normalize_simps [simp]:
  "length (normalize s) = length s" "normalize (a @ b) = normalize a @ normalize b" "normalize [] = []"
  "CHR ''='' \<in> set (normalize s) \<longleftrightarrow> CHR ''='' \<in> set s"
  by (auto simp: normalize_def)

lemma normalize_equals [simp]: "normalize ''='' = ''=''" "normalize t = ''='' \<longleftrightarrow> t = ''=''"
  by (cases t; auto simp: normalize_def)+

lemma normalize_length: "normalize a = normalize b \<Longrightarrow> length a = length b"
  by (metis normalize_simps(1))

lemma normalize_Cons: "normalize (c # s) = (if c = CHR ''-'' then CHR ''_'' else c) # normalize s"
  by (simp add: normalize_def)

lemma takeWhile_no_equals: "CHR ''='' \<notin> set s \<Longrightarrow> takeWhile (\<lambda>c. c \<noteq> CHR ''='') s = s"
  by (induction s) auto

text \<open>The two ways in which an argument is compared with an alias\<close>

lemma body_cases:
  obtains "CHR ''='' \<notin> set body" "arg_value body = None" "arg_name body = normalize body"
  | n v where "body = n @ CHR ''='' # v" "CHR ''='' \<notin> set n" "arg_value body = Some v" "arg_name body = normalize n"
proof (cases "CHR ''='' \<in> set body")
  case True
  then obtain n v where "body = n @ CHR ''='' # v" "CHR ''='' \<notin> set n" by (meson split_list_first)
  with that(2) [of n v] show ?thesis by (simp add: arg_value_def arg_name_def takeWhile_append dropWhile_append)
next
  case False
  then have "dropWhile (\<lambda>c. c \<noteq> CHR ''='') body = []" by auto
  with False that(1) show ?thesis by (simp add: arg_value_def arg_name_def takeWhile_no_equals)
qed

lemma matches_equals_iff:
  assumes "prefix_laws lib" and "CHR ''='' \<notin> set alias"
  shows "matches_equals lib body alias \<longleftrightarrow> arg_value body \<noteq> None \<and> arg_name body = normalize alias"
proof (cases body rule: body_cases)
  case 1
  then have "CHR ''='' \<notin> set (normalize (take (length alias + 1) body))" by (auto dest: in_set_takeD)
  moreover have "CHR ''='' \<in> set (normalize (alias @ ''=''))" by simp
  ultimately show ?thesis using 1 assms by (auto simp: matches_equals_def MatchNormalized_normalize simp del: normalize_simps)
next
  case (2 n v)
  have "normalize n = normalize alias" if "matches_equals lib body alias"
  proof -
    have "normalize body = normalize (take (length alias + 1) body) @ normalize (drop (length alias + 1) body)"
      unfolding normalize_simps(2) [symmetric] append_take_drop_id ..
    also have "normalize (take (length alias + 1) body) = normalize alias @ ''=''"
      using that assms(1) by (simp add: matches_equals_def MatchNormalized_normalize)
    finally have "normalize n @ CHR ''='' # normalize v = normalize alias @ CHR ''='' # normalize (drop (length alias + 1) body)"
      unfolding 2(1) by (simp add: normalize_Cons)
    then have "takeWhile (\<lambda>c. c \<noteq> CHR ''='') (normalize n @ CHR ''='' # normalize v) =
        takeWhile (\<lambda>c. c \<noteq> CHR ''='') (normalize alias @ CHR ''='' # normalize (drop (length alias + 1) body))"
      by (rule arg_cong)
    then show ?thesis using 2(2) assms(2) by (simp add: takeWhile_tail takeWhile_no_equals)
  qed
  moreover have "matches_equals lib body alias" if "normalize n = normalize alias"
    using that 2(1) assms(1) normalize_length [OF that] by (simp add: matches_equals_def MatchNormalized_normalize)
  ultimately show ?thesis using 2 by auto
qed

lemma set_after_equals_value:
  assumes "arg_value body = Some v" and "arg_name body = normalize alias"
  shows "set_after_equals f alias body s = consumed 1 (SetAndValidate f v s)"
proof (cases body rule: body_cases)
  case (2 n w)
  then have "normalize n = normalize alias" using assms(2) by simp
  then have "length n = length alias" by (rule normalize_length)
  with 2 assms(1) show ?thesis by (simp add: set_after_equals_def substr_from_def)
qed (use assms in simp)

lemma MatchNormalized_iff:
  assumes "prefix_laws lib" and "CHR ''='' \<notin> set alias"
  shows "MatchNormalized lib body alias \<longleftrightarrow> arg_value body = None \<and> arg_name body = normalize alias"
proof (cases body rule: body_cases)
  case (2 n v)
  have "normalize body \<noteq> normalize alias"
    using assms(2) 2(1) normalize_simps(4) [of body] normalize_simps(4) [of "alias"] by (metis in_set_conv_decomp)
  with 2 assms(1) show ?thesis by (simp add: MatchNormalized_normalize)
qed (use assms in \<open>simp add: MatchNormalized_normalize\<close>)

text \<open>One flag\<close>

definition plain_aliases :: "'s flag \<Rightarrow> bool" where
  "plain_aliases f \<longleftrightarrow> list_all (\<lambda>alias. CHR ''='' \<notin> set alias) (aliases f)"

lemma match_string:
  assumes "prefix_laws lib" and "plain_aliases f" and "starts_with ''-'' arg" and "style f = String_Style"
  shows "Match lib f arg following s =
    (if arg_name (arg_body arg) \<in> set (own_names f) then set_own f (arg_value (arg_body arg)) following s else (Inr 0, s))"
proof -
  define body where "body = arg_body arg"
  have eqs: "matches_equals lib body alias \<longleftrightarrow> arg_value body \<noteq> None \<and> arg_name body = normalize alias"
    "MatchNormalized lib body alias \<longleftrightarrow> arg_value body = None \<and> arg_name body = normalize alias"
    if "alias \<in> set (aliases f)" for "alias"
    using that assms(1,2) by (simp_all add: plain_aliases_def list_all_iff matches_equals_iff MatchNormalized_iff)
  show ?thesis
  proof (cases "arg_value body")
    case None
    then have "find (matches_equals lib body) (aliases f) = None" by (auto simp: find_None_iff eqs)
    moreover have "list_ex (MatchNormalized lib body) (aliases f) \<longleftrightarrow> arg_name body \<in> set (own_names f)"
      using None by (auto simp: list_ex_iff eqs own_names_def)
    ultimately show ?thesis using None assms(4) ConsumeDashes_body(1) [OF assms(1,3)]
      by (auto simp: Match_def MatchStringStyleFlag_def set_own_def body_def split: list.split)
  next
    case (Some v)
    show ?thesis
    proof (cases "find (matches_equals lib body) (aliases f)")
      case None
      then have "arg_name body \<notin> set (own_names f)" "\<not> list_ex (MatchNormalized lib body) (aliases f)"
        using Some by (auto simp: find_None_iff list_ex_iff eqs own_names_def)
      with None assms(4) ConsumeDashes_body(1) [OF assms(1,3)] show ?thesis
        by (simp add: Match_def MatchStringStyleFlag_def body_def)
    next
      case (Some al)
      then have "al \<in> set (aliases f)" "matches_equals lib body al" by (auto simp: find_Some_iff)
      then have "arg_name body = normalize al" "arg_name body \<in> set (own_names f)" by (auto simp: eqs own_names_def)
      with \<open>arg_value body = Some v\<close> Some assms(4) ConsumeDashes_body(1) [OF assms(1,3)] show ?thesis
        by (simp add: Match_def MatchStringStyleFlag_def body_def set_own_def set_after_equals_value)
    qed
  qed
qed

lemma match_bool_names:
  assumes "prefix_laws lib" and "list_all (\<lambda>alias. CHR ''='' \<notin> set alias) als"
    and "distinct (map normalize als @ map (\<lambda>alias. normalize (''no'' @ alias)) als)"
  shows "match_bool_aliases lib f body als s =
    (if arg_name body \<in> set (map normalize als) then
       consumed 1 (SetAndValidate f (case arg_value body of Some v \<Rightarrow> v | None \<Rightarrow> ''yes'') s)
     else if arg_value body = None \<and> arg_name body \<in> set (map (\<lambda>alias. normalize (''no'' @ alias)) als) then
       consumed 1 (SetAndValidate f ''no'' s)
     else (Inr 0, s))"
  using assms(2,3)
proof (induction als)
  case (Cons a als)
  then have a: "CHR ''='' \<notin> set a" "CHR ''='' \<notin> set (CHR ''n'' # CHR ''o'' # a)" by auto
  note iffs = matches_equals_iff [OF assms(1) a(1)] MatchNormalized_iff [OF assms(1) a(1)] MatchNormalized_iff [OF assms(1) a(2)]
  have apart: "normalize (''no'' @ a) \<notin> set (map normalize als)" using Cons.prems(2) by auto
  consider "arg_name body = normalize a"
    | "arg_name body = normalize (''no'' @ a)" "arg_name body \<noteq> normalize a" "arg_name body \<notin> set (map normalize als)"
    | "arg_name body \<noteq> normalize (''no'' @ a)" "arg_name body \<noteq> normalize a"
    using apart by metis
  then show ?case
  proof cases
    case 1
    then show ?thesis by (cases "arg_value body") (simp_all add: iffs set_after_equals_value del: normalize_simps(2))
  next
    case 2
    with Cons show ?thesis by (cases "arg_value body") (simp_all add: iffs del: normalize_simps(2))
  next
    case 3
    with Cons show ?thesis by (cases "arg_value body") (simp_all add: iffs del: normalize_simps(2))
  qed
qed simp

lemma match_bool:
  assumes "prefix_laws lib" and "plain_aliases f" and "distinct (own_names f @ no_names f)" and "starts_with ''-'' arg"
    and "style f = Bool_Style"
  shows "Match lib f arg following s =
    (if arg_name (arg_body arg) \<in> set (own_names f) then set_own f (arg_value (arg_body arg)) following s
     else if arg_value (arg_body arg) = None \<and> arg_name (arg_body arg) \<in> set (no_names f) then
       consumed 1 (SetAndValidate f ''no'' s)
     else (Inr 0, s))"
  using match_bool_names [of lib "aliases f" f "arg_body arg" s] assms ConsumeDashes_body(1) [OF assms(1,4)]
  by (auto simp: Match_def MatchBoolStyleFlag_def own_names_def no_names_def plain_aliases_def set_own_def split: option.splits)

lemma Match_names:
  assumes "prefix_laws lib" and "plain_aliases f" and "distinct (own_names f @ no_names f)" and "starts_with ''-'' arg"
  shows "Match lib f arg following s =
    (if arg_name (arg_body arg) \<in> set (own_names f) then set_own f (arg_value (arg_body arg)) following s
     else if arg_value (arg_body arg) = None \<and> arg_name (arg_body arg) \<in> set (no_names f) then
       consumed 1 (SetAndValidate f ''no'' s)
     else (Inr 0, s))"
proof (cases "style f")
  case String_Style
  then have "no_names f = []" by (simp add: no_names_def)
  with match_string [OF assms(1,2,4) String_Style] show ?thesis by simp
next
  case Bool_Style
  with match_bool [OF assms] show ?thesis by simp
qed

lemma Match_no_dash: "prefix_laws lib \<Longrightarrow> \<not> starts_with ''-'' arg \<Longrightarrow> Match lib f arg following s = (Inr 0, s)"
  using ConsumeDashes_body(2) [of lib arg]
  by (auto simp: Match_def MatchStringStyleFlag_def MatchBoolStyleFlag_def split: flag_style.split)

lemma consumed_stops:
  "0 < n \<Longrightarrow> (case consumed n r of (Inl e, s) \<Rightarrow> (Inl e, s) | (Inr k, s) \<Rightarrow> if k \<noteq> 0 then (Inr k, s) else g s) = consumed n r"
  by (auto simp: consumed_def split: prod.splits sum.splits)

lemma set_own_stops:
  "(case set_own f value following s of (Inl e, s) \<Rightarrow> (Inl e, s) | (Inr k, s) \<Rightarrow> if k \<noteq> 0 then (Inr k, s) else g s) =
   set_own f value following s"
  by (simp add: set_own_def consumed_stops split: option.split flag_style.split list.split)

text \<open>
  C8. When no two names of the flags agree up to dashes and underscores, counting the names with \<open>no\<close> in front of boolean
  flags, and no name has an equals sign, then trying the flags one after the other is a lookup by name.  An argument with one or
  two dashes sets the flag with its name to the text after the first equals sign; without one, a boolean flag is set to
  \<open>yes\<close>, or to \<open>no\<close> under its negated name, and consumes one argument, and any other flag takes the next argument, or fails when
  there is none; every other argument is left alone.  The order of the flags and of their aliases does not matter.
\<close>
theorem match_flags_lookup:
  assumes "prefix_laws lib" and "unambiguous flags"
  shows "match_flags lib flags arg following s = match_spec flags arg following s"
proof (cases "starts_with ''-'' arg")
  case False
  then show ?thesis
    using assms(1) by (induction flags) (simp_all add: Match_no_dash match_spec_def)
next
  case True
  show ?thesis
    using assms(2)
  proof (induction flags)
    case (Cons f flags)
    then have f: "plain_aliases f" "distinct (own_names f @ no_names f)" and "unambiguous flags"
      and apart: "\<And>g. g \<in> set flags \<Longrightarrow> set (own_names g) \<inter> set (no_names f) = {}"
      by (auto simp: unambiguous_def plain_aliases_def)
    note IH = Cons.IH [OF this(3)]
    have later: "find (\<lambda>g. arg_name (arg_body arg) \<in> set (own_names g)) flags = None"
      if "arg_name (arg_body arg) \<in> set (no_names f)"
      using that apart by (auto simp: find_None_iff)
    consider "arg_name (arg_body arg) \<in> set (own_names f)"
      | "arg_name (arg_body arg) \<notin> set (own_names f)" "arg_value (arg_body arg) = None" "arg_name (arg_body arg) \<in> set (no_names f)"
      | "arg_name (arg_body arg) \<notin> set (own_names f)" "\<not> (arg_value (arg_body arg) = None \<and> arg_name (arg_body arg) \<in> set (no_names f))"
      by argo
    then show ?case
    proof cases
      case 1
      with True IH Match_names [OF assms(1) f True, of following s] show ?thesis by (simp add: match_spec_def Let_def set_own_stops)
    next
      case 2
      with True IH later Match_names [OF assms(1) f True, of following s] show ?thesis
        by (simp add: match_spec_def Let_def consumed_stops)
    next
      case 3
      then have "match_flags lib (f # flags) arg following s = match_spec flags arg following s"
        using IH Match_names [OF assms(1) f True, of following s] by auto
      moreover have "match_spec (f # flags) arg following s = match_spec flags arg following s"
        using 3 by (simp only: match_spec_def find.simps Let_def if_False)
      ultimately show ?thesis by simp
    qed
  qed (simp add: match_spec_def Let_def)
qed

text \<open>An implementation of what is used of Abseil and \<open>fmt\<close>\<close>

definition sample_absl :: absl where
  "sample_absl = \<lparr>
     ConsumePrefix = (\<lambda>p s. if starts_with p s then (True, drop (length p) s) else (False, s)),
     StrReplaceAll = (\<lambda>rs s. concat (map (\<lambda>c. case map_of rs [c] of Some t \<Rightarrow> t | None \<Rightarrow> [c]) s)),
     StrSplit = split_on,
     StrSplitSkipEmpty = (\<lambda>cs s. [s]),
     StrJoin = join_with,
     AsciiStrToUpper = (\<lambda>s. s),
     SimpleAtoi = (\<lambda>lo hi s old. case scan_int 10 s of
       Some (v, []) \<Rightarrow> if lo \<le> v \<and> v \<le> hi then (True, v) else (False, if v < lo then lo else hi)
     | _ \<Rightarrow> (False, 0)),
     SimpleAtob = (\<lambda>s. if s = ''yes'' then Some True else if s = ''no'' then Some False else None),
     format_int = to_string,
     format_bool = (\<lambda>b. if b then ''true'' else ''false'')\<rparr>"

lemma concat_singletons: "concat (map (\<lambda>c. if c = a then [b] else [c]) s) = map (\<lambda>c. if c = a then b else c) s"
  by (induction s) auto

lemma sample_prefix_laws: "prefix_laws sample_absl"
proof -
  have "StrReplaceAll sample_absl [([a], [b])] s = concat (map (\<lambda>c. if c = a then [b] else [c]) s)" for a b s
    by (induction s) (auto simp: sample_absl_def)
  then show ?thesis by (simp add: prefix_laws_def concat_singletons) (simp add: sample_absl_def)
qed

definition sample_flags :: "(string \<times> bool) flag list" where
  "sample_flags =
     [\<lparr>aliases = [''vm_manager'', ''vm''], style = String_Style, help_text = [], value_name_hint = [], getter = fst,
       setter = (\<lambda>v s. (Inr (), (v, snd s))), validators = []\<rparr>,
      \<lparr>aliases = [''daemon''], style = Bool_Style, help_text = [], value_name_hint = [], getter = (\<lambda>_. []),
       setter = (\<lambda>v s. (Inr (), (fst s, v = ''yes''))), validators = []\<rparr>]"

text \<open>A dash for the underscore, a value with an equals sign, and a negated name\<close>

theorem match_flags_lookup_witness:
  "match_flags sample_absl sample_flags ''--vm-manager=a=b'' [] ([], True) = (Inr 1, (''a=b'', True)) \<and>
   match_flags sample_absl sample_flags ''-nodaemon'' [''x''] ([], True) = (Inr 1, ([], False))"
proof -
  have "unambiguous sample_flags" by code_simp
  note lookup = match_flags_lookup [OF sample_prefix_laws this]
  have "match_spec sample_flags ''--vm-manager=a=b'' [] ([], True) = (Inr 1, (''a=b'', True))" by code_simp
  moreover have "match_spec sample_flags ''-nodaemon'' [''x''] ([], True) = (Inr 1, ([], False))" by code_simp
  ultimately show ?thesis unfolding lookup by simp
qed

section \<open>Values round trip\<close>

lemma split_on_append: "c \<notin> set p \<Longrightarrow> split_on c (p @ c # s) = p # split_on c s" "c \<notin> set p \<Longrightarrow> split_on c p = [p]"
  by (induction p) auto

lemma split_join:
  "list_all (\<lambda>s. c \<notin> set s) ss \<Longrightarrow> ss \<noteq> [] \<Longrightarrow> split_on c (join_with [c] ss) = ss"
  by (induction "[c]" ss rule: join_with.induct) (simp_all add: split_on_append)

lemma join_with_Nil_iff: "sep \<noteq> [] \<Longrightarrow> join_with sep ss = [] \<longleftrightarrow> ss = [] \<or> ss = [[]]"
  by (induction sep ss rule: join_with.induct) auto

lemma parse_elements_show:
  "(\<And>v. v \<in> set vs \<Longrightarrow> (if show_v v = [] then Inr dflt else parse (show_v v)) = Inr v) \<Longrightarrow>
   parse_elements parse dflt (map show_v vs) = Inr vs"
  by (induction vs) auto

lemma ParseFlagVectorValue_show:
  assumes "list_laws lib"
    and "\<And>v. v \<in> set vs \<Longrightarrow> CHR '','' \<notin> set (show_v v)"
    and "\<And>v. v \<in> set vs \<Longrightarrow> (if show_v v = [] then Inr dflt else parse (show_v v)) = Inr v"
  shows "ParseFlagVectorValue lib parse dflt (FlagValueToString_vector lib show_v vs) =
    Inr (if map show_v vs = [[]] then [] else vs)"
  using assms parse_elements_show [of vs show_v dflt parse] split_join [of "CHR '',''" "map show_v vs"]
  by (auto simp: ParseFlagVectorValue_def FlagValueToString_vector_def list_laws_def join_with_Nil_iff list_all_iff)

text \<open>
  C21. The text that a flag for a list prints as its current value can be given back to it.  Setting a flag for a list of strings to
  the text of its value restores the value when no string has a comma, except that the list of one empty string becomes
  the empty list; setting a flag for a list of unsigned numbers restores the value in every case.
\<close>
theorem vector_flag_roundtrip:
  assumes "list_laws lib" and "number_laws lib"
    and "\<And>v s. rd rs (wr rs v s) = v" and "\<And>v s. rd ru (wr ru v s) = v"
    and "GflagsCompatFlag_strings lib n rs = Inr f" and "GflagsCompatFlag_unsigneds lib m ru = Inr g"
    and "list_all (\<lambda>v. CHR '','' \<notin> set v) (rd rs s)"
    and "list_all (\<lambda>v. fst uint32_range \<le> v \<and> v \<le> snd uint32_range) (rd ru s)"
  shows "(\<exists>t. setter f (getter f s) s' = (Inr (), t) \<and> rd rs t = (if rd rs s = [[]] then [] else rd rs s)) \<and>
    (\<exists>t. setter g (getter g s) s' = (Inr (), t) \<and> rd ru t = rd ru s)"
proof
  note defs = map_result_def vector_flag_def rbind_def StringFlag_def Flag_def assign_def WithVectorNameValueHint_def
  have "ParseFlagVectorValue lib ParseFlagValue_string [] (FlagValueToString_vector lib (\<lambda>v. v) (rd rs s)) =
      Inr (if rd rs s = [[]] then [] else rd rs s)"
    using ParseFlagVectorValue_show [OF assms(1), of "rd rs s" "\<lambda>v. v" "[]" ParseFlagValue_string] assms(7)
    by (auto simp: ParseFlagValue_string_def list_all_iff)
  then show "\<exists>t. setter f (getter f s) s' = (Inr (), t) \<and> rd rs t = (if rd rs s = [[]] then [] else rd rs s)"
    using assms(3,5) by (auto simp: GflagsCompatFlag_strings_def defs split: sum.splits)
  have "ParseFlagValue_integral lib (fst uint32_range) (snd uint32_range) (format_int lib v) = Inr v \<and>
      CHR '','' \<notin> set (format_int lib v) \<and> format_int lib v \<noteq> []" if "v \<in> set (rd ru s)" for v
    using that assms(2,8) to_string_not_in [of "CHR '',''" v]
    by (auto simp: ParseFlagValue_integral_def number_laws_def list_all_iff)
  then have "ParseFlagVectorValue lib (ParseFlagValue_integral lib (fst uint32_range) (snd uint32_range)) 0
      (FlagValueToString_vector lib (format_int lib) (rd ru s)) = Inr (rd ru s)"
    using ParseFlagVectorValue_show [OF assms(1), of "rd ru s" "format_int lib" 0
      "ParseFlagValue_integral lib (fst uint32_range) (snd uint32_range)"] by auto
  then show "\<exists>t. setter g (getter g s) s' = (Inr (), t) \<and> rd ru t = rd ru s"
    using assms(4,6) by (auto simp: GflagsCompatFlag_unsigneds_def defs split: sum.splits)
qed

lemma sample_list_laws: "list_laws sample_absl"
  by (simp add: list_laws_def sample_absl_def)

lemma sample_number_laws: "number_laws sample_absl"
  using scan_int_to_string [of "[]"] by (simp add: number_laws_def sample_absl_def)

definition fst_ref :: "('a \<times> 'b, 'a) reference" where
  "fst_ref = \<lparr>rd = fst, wr = (\<lambda>v s. (v, snd s))\<rparr>"

definition snd_ref :: "('a \<times> 'b, 'b) reference" where
  "snd_ref = \<lparr>rd = snd, wr = (\<lambda>v s. (fst s, v))\<rparr>"

theorem vector_flag_roundtrip_witness:
  "\<exists>f g. GflagsCompatFlag_strings sample_absl ''blank_data_image'' (fst_ref :: (string list \<times> int list, _) reference) = Inr f \<and>
     GflagsCompatFlag_unsigneds sample_absl ''cpus'' snd_ref = Inr g \<and>
     (\<exists>t. setter f (getter f ([''a'', [], ''b''], [2, 4])) ([], []) = (Inr (), t) \<and> fst t = [''a'', [], ''b'']) \<and>
     (\<exists>t. setter g (getter g ([''a'', [], ''b''], [2, 4])) ([], []) = (Inr (), t) \<and> snd t = [2, 4])"
proof -
  note defs = map_result_def vector_flag_def rbind_def StringFlag_def Flag_def ValidateAlias_def starts_with_def
  obtain f where f: "GflagsCompatFlag_strings sample_absl ''blank_data_image'' (fst_ref :: (string list \<times> int list, _) reference) = Inr f"
    by (simp add: GflagsCompatFlag_strings_def defs)
  obtain g where g: "GflagsCompatFlag_unsigneds sample_absl ''cpus'' (snd_ref :: (string list \<times> int list, _) reference) = Inr g"
    by (simp add: GflagsCompatFlag_unsigneds_def defs)
  have refs: "rd fst_ref (wr fst_ref v s) = v" "rd snd_ref (wr snd_ref w s) = w"
    for v w and s :: "string list \<times> int list"
    by (simp_all add: fst_ref_def snd_ref_def)
  note rt = vector_flag_roundtrip [OF sample_list_laws sample_number_laws refs f g, of "([''a'', [], ''b''], [2, 4])" "([], [])"]
  have rds: "rd fst_ref s = fst s" "rd snd_ref s = snd s" for s :: "string list \<times> int list"
    by (simp_all add: fst_ref_def snd_ref_def)
  have "\<exists>t. setter f (getter f ([''a'', [], ''b''], [2, 4])) ([], []) = (Inr (), t) \<and> fst t = [''a'', [], ''b'']"
    using rt by (simp add: rds uint32_range_def)
  moreover have "\<exists>t. setter g (getter g ([''a'', [], ''b''], [2, 4])) ([], []) = (Inr (), t) \<and> snd t = [2, 4]"
    using rt by (simp add: rds uint32_range_def)
  ultimately show ?thesis by - (rule exI [of _ f], rule exI [of _ g], simp add: f g)
qed

end
