(* ===== verification/Modem_Pdu.thy ===== *)
theory Modem_Pdu
  imports Modem_Text "HOL-Library.Signed_Division"
begin

text \<open>
  The SMS protocol data units of \<open>host/commands/modem_simulator/pdu_parser.cpp\<close>: a PDU is a text of hexadecimal
  digits, the parser splits it into its fields and makes from them the PDU that is delivered, the status report and
  the PDU for another device.  The clock is an argument: the fields of \<open>std::localtime\<close> and the difference to
  \<open>std::gmtime\<close> in seconds.
\<close>

section \<open>Definitions\<close>

definition kWithoutServiceCenterAddress :: string where
  "kWithoutServiceCenterAddress = ''00''"

definition kStatusReportIndicator :: string where
  "kStatusReportIndicator = ''06''"

definition kSRIAndMMSIndicator :: string where
  "kSRIAndMMSIndicator = ''24''"

definition kUDHIAndSRIAndMMSIndicator :: string where
  "kUDHIAndSRIAndMMSIndicator = ''64''"

record pdu_parser =
  is_valid_pdu :: bool
  pdu_type :: string
  message_reference :: string
  originator_address :: string
  protocol_id :: string
  data_code_scheme :: string
  user_data :: string

record clock_time =
  tm_year :: int
  tm_mon :: int
  tm_mday :: int
  tm_hour :: int
  tm_min :: int
  tm_sec :: int
  gmt_diff :: int

definition HexCharToInt :: "char \<Rightarrow> int" where
  "HexCharToInt c =
     (let n = of_char c :: int
      in if 48 \<le> n \<and> n \<le> 57 then n - 48
         else if 65 \<le> n \<and> n \<le> 70 then n - 65 + 10
         else if 97 \<le> n \<and> n \<le> 102 then n - 97 + 10
         else -1)"

definition Hex2ToByte :: "string \<Rightarrow> int" where
  "Hex2ToByte hex =
     (if length hex < 2 then -1
      else let hi = HexCharToInt (hex ! 0); lo = HexCharToInt (hex ! 1)
           in if hi < 0 \<or> lo < 0 then -1 else or (push_bit 4 hi) lo)"

definition IntToHexString :: "int \<Rightarrow> string" where
  "IntToHexString v = to_string (v smod 10) @ to_string (v sdiv 10)"

definition IntToHexStringTimeZoneDiff :: "int \<Rightarrow> string" where
  "IntToHexStringTimeZoneDiff tzdiff_hour =
     (let delta = (if tzdiff_hour < 0 then 8 else 0);
          tzdiff_hour = (if tzdiff_hour < 0 then - tzdiff_hour else tzdiff_hour);
          tzdiff_quarter_hour = 4 * tzdiff_hour;
          hi = tzdiff_quarter_hour sdiv 10 + delta;
          lo = tzdiff_quarter_hour smod 10
      in to_hex lo @ to_hex hi)"

fun swap_pairs :: "string \<Rightarrow> string" where
  \<comment> \<open>the loop of \<open>BCDToString\<close> over a text of even length\<close>
  "swap_pairs (a # b # s) = b # a # swap_pairs s"
| "swap_pairs s = s"

definition BCDToString :: "string \<Rightarrow> string" where
  "BCDToString data =
     (if data = [] \<or> odd (length data) then []
      else let dst = swap_pairs data
           in if dst ! (length data - 1) = CHR ''F'' then take (length data - 1) dst else dst)"

fun StringToBCD :: "string \<Rightarrow> string" where
  "StringToBCD (a # b # s) = b # a # StringToBCD s"
| "StringToBCD [a] = [CHR ''F'', a]"
| "StringToBCD [] = []"

definition GetCurrentTimeStamp :: "clock_time \<Rightarrow> string" where
  "GetCurrentTimeStamp t =
     (let tzdiff = gmt_diff t sdiv (60 * 60)
      in IntToHexString (tm_year t smod 100) @ IntToHexString (tm_mon t + 1) @ IntToHexString (tm_mday t) @
         IntToHexString (tm_hour t) @ IntToHexString (tm_min t) @ IntToHexString (tm_sec t) @
         IntToHexStringTimeZoneDiff tzdiff)"

text \<open>
  \<open>pdu_view.substr(std::min(pos, pdu_total_length), n)\<close>; positions are below \<open>2\<^sup>1\<^sup>1\<close> plus the length of the text, so
  that \<open>size_t\<close> does not wrap, except that an invalid service centre length, minus one, takes the position from 2
  back to 0.
\<close>

definition pdu_field :: "string \<Rightarrow> int \<Rightarrow> int \<Rightarrow> string" where
  "pdu_field pdu pos n = take (nat n) (drop (min (nat pos) (length pdu)) pdu)"

definition DecodePDU :: "string \<Rightarrow> pdu_parser" where
  "DecodePDU pdu =
     (if length pdu < 8 then
        \<lparr>is_valid_pdu = False, pdu_type = [], message_reference = [], originator_address = [], protocol_id = [],
         data_code_scheme = [], user_data = []\<rparr>
      else
        let temp = take 2 pdu;
            pos = (if temp \<noteq> kWithoutServiceCenterAddress then 2 + Hex2ToByte temp * 2 else 2);
            ptype = pdu_field pdu pos 2;
            pos = pos + 2;
            mr = pdu_field pdu pos 2;
            pos = pos + 2;
            oa_length = Hex2ToByte (pdu_field pdu pos 2);
            oa_length = (if odd oa_length then oa_length + 1 else oa_length);
            oa = pdu_field pdu pos (oa_length + 4);
            pos = pos + (oa_length + 4);
            pid = pdu_field pdu pos 2;
            pos = pos + 2;
            dcs = pdu_field pdu pos 2;
            pos = pos + 2;
            ud_length = Hex2ToByte (pdu_field pdu pos 2);
            ud = drop (min (nat pos) (length pdu)) pdu;
            pos = (if dcs = ''00'' then pos + (ud_length * 2 + 2) - (ud_length sdiv 8) * 2
                   else pos + (ud_length * 2 + 2))
        in \<lparr>is_valid_pdu = (pos = int (length pdu)), pdu_type = ptype, message_reference = mr,
            originator_address = oa, protocol_id = pid, data_code_scheme = dcs, user_data = ud\<rparr>)"

definition CreatePDU :: "clock_time \<Rightarrow> pdu_parser \<Rightarrow> string" where
  "CreatePDU t p =
     (if \<not> is_valid_pdu p then []
      else kWithoutServiceCenterAddress @
           (if and (Hex2ToByte (pdu_type p)) 0x40 \<noteq> 0 then kUDHIAndSRIAndMMSIndicator else kSRIAndMMSIndicator) @
           originator_address p @ protocol_id p @ data_code_scheme p @ GetCurrentTimeStamp t @ user_data p)"

definition IsNeededStatuReport :: "pdu_parser \<Rightarrow> bool" where
  "IsNeededStatuReport p \<longleftrightarrow> is_valid_pdu p \<and> and (Hex2ToByte (pdu_type p)) 0x20 \<noteq> 0"

text \<open>The two time stamps of a report are a second apart.\<close>

definition CreateStatuReport :: "clock_time \<Rightarrow> clock_time \<Rightarrow> int \<Rightarrow> pdu_parser \<Rightarrow> string" where
  "CreateStatuReport t t' ref p =
     (if \<not> is_valid_pdu p then []
      else kWithoutServiceCenterAddress @ kStatusReportIndicator @ setw0 2 (to_hex ref) @ originator_address p @
           GetCurrentTimeStamp t @ GetCurrentTimeStamp t' @ ''00'')"

definition GetPhoneNumberFromAddress :: "pdu_parser \<Rightarrow> string result" where
  "GetPhoneNumberFromAddress p =
     (if \<not> is_valid_pdu p then Inr []
      else rbind (substr_from (originator_address p) (if length (originator_address p) = 18 then 6 else 4))
             (\<lambda>address. Inr (BCDToString address)))"

text \<open>\<open>s.substr(0, s.size() - n)\<close>, where a size below \<open>n\<close> wraps and the whole text is taken\<close>

definition drop_last :: "nat \<Rightarrow> string \<Rightarrow> string" where
  "drop_last n s = (if length s < n then s else take (length s - n) s)"

definition CreateRemotePDU :: "string \<Rightarrow> pdu_parser \<Rightarrow> string result" where
  "CreateRemotePDU host_port p =
     (if length host_port \<noteq> 4 \<or> \<not> is_valid_pdu p then Inr []
      else rbind (GetPhoneNumberFromAddress p) (\<lambda>number.
        let new_phone_number = drop_last 4 number @ host_port;
            new_phone_number = (if odd (length new_phone_number) then new_phone_number @ ''F'' else new_phone_number)
        in Inr (kWithoutServiceCenterAddress @ pdu_type p @ message_reference p @
                drop_last (length new_phone_number) (originator_address p) @ BCDToString new_phone_number @
                protocol_id p @ data_code_scheme p @ user_data p)))"

section \<open>The text of a PDU\<close>

text \<open>The lengths that the length fields of a PDU announce, and the text that has given fields.\<close>

definition oa_digits :: "string \<Rightarrow> int" where
  "oa_digits field = (let n = Hex2ToByte (take 2 field) in if odd n then n + 1 else n)"

definition ud_size :: "string \<Rightarrow> string \<Rightarrow> int" where
  "ud_size dcs field =
     (let n = Hex2ToByte (take 2 field)
      in if dcs = ''00'' then n * 2 + 2 - (n sdiv 8) * 2 else n * 2 + 2)"

definition pdu_text :: "pdu_parser \<Rightarrow> string" where
  "pdu_text p =
     kWithoutServiceCenterAddress @ pdu_type p @ message_reference p @ originator_address p @ protocol_id p @
     data_code_scheme p @ user_data p"

definition wf_pdu :: "pdu_parser \<Rightarrow> bool" where
  "wf_pdu p \<longleftrightarrow>
     is_valid_pdu p \<and> length (pdu_type p) = 2 \<and> length (message_reference p) = 2 \<and>
     int (length (originator_address p)) = oa_digits (originator_address p) + 4 \<and>
     length (protocol_id p) = 2 \<and> length (data_code_scheme p) = 2 \<and>
     int (length (user_data p)) = ud_size (data_code_scheme p) (user_data p)"

lemma HexCharToInt_bounds: "- 1 \<le> HexCharToInt c \<and> HexCharToInt c < 16"
  by (auto simp: HexCharToInt_def Let_def)

lemma Hex2ToByte_bounds: "- 1 \<le> Hex2ToByte s \<and> Hex2ToByte s < 256"
proof -
  let ?hi = "HexCharToInt (s ! 0)" and ?lo = "HexCharToInt (s ! 1)"
  have "or (push_bit 4 ?hi) ?lo < 256" if "0 \<le> ?hi" "0 \<le> ?lo"
    using that HexCharToInt_bounds [of "s ! 0"] HexCharToInt_bounds [of "s ! 1"]
      OR_upper [of "push_bit 4 ?hi" 8 ?lo] by (simp add: push_bit_eq_mult)
  then show ?thesis by (auto simp: Hex2ToByte_def Let_def intro: order_trans [of _ 0])
qed

lemma oa_digits_props: "0 \<le> oa_digits s \<and> oa_digits s \<le> 256 \<and> even (oa_digits s)"
  using Hex2ToByte_bounds [of "take 2 s"] by (auto simp: oa_digits_def Let_def)

lemma sdiv_nonneg: "0 \<le> n \<Longrightarrow> 0 < d \<Longrightarrow> n sdiv d = n div (d :: int)"
  by (cases "n = 0") (simp_all add: signed_divide_int_def)

lemma smod_nonneg: "0 \<le> n \<Longrightarrow> 0 < d \<Longrightarrow> n smod d = n mod (d :: int)"
  by (cases "n = 0") (simp_all add: signed_modulo_int_def)

lemma ud_size_nonneg: "0 \<le> ud_size dcs s"
proof -
  let ?n = "Hex2ToByte (take 2 s)"
  have "?n sdiv 8 \<le> ?n + 1"
    using Hex2ToByte_bounds [of "take 2 s"] by (cases "?n = -1") (auto simp: sdiv_nonneg signed_divide_int_def [of "- 1"])
  then show ?thesis using Hex2ToByte_bounds [of "take 2 s"] by (auto simp: ud_size_def Let_def)
qed

text \<open>The text of a PDU without a service centre address, with its fields at their places\<close>

lemma DecodePDU_fields:
  assumes "take 2 s = ''00''" and "8 \<le> length s"
  defines "oan \<equiv> nat (oa_digits (drop 6 s))"
  shows "DecodePDU s =
     \<lparr>is_valid_pdu = (14 + int oan + ud_size (take 2 (drop (12 + oan) s)) (drop (14 + oan) s) = int (length s)),
      pdu_type = take 2 (drop 2 s), message_reference = take 2 (drop 4 s),
      originator_address = take (oan + 4) (drop 6 s), protocol_id = take 2 (drop (10 + oan) s),
      data_code_scheme = take 2 (drop (12 + oan) s), user_data = drop (14 + oan) s\<rparr>"
proof -
  have drop_min: "drop (min k (length s)) s = drop k s" for k by (cases "k \<le> length s") auto
  have n: "int oan = oa_digits (drop 6 s)" using oa_digits_props [of "drop 6 s"] by (simp add: oan_def)
  have oan: "(if odd (Hex2ToByte (take 2 x)) then Hex2ToByte (take 2 x) + 1 else Hex2ToByte (take 2 x)) = oa_digits x"
    for x by (simp add: oa_digits_def)
  have temp: "(if take 2 s \<noteq> kWithoutServiceCenterAddress then x else (2 :: int)) = 2" for x
    using assms(1) by (simp add: kWithoutServiceCenterAddress_def)
  have nums: "nat (2 :: int) = 2" "nat (2 + 2 :: int) = 4" "nat (2 + 2 + 2 :: int) = 6" by simp_all
  have pos: "nat (2 + 2 + 2 + (oa_digits (drop 6 s) + 4)) = 10 + oan" "nat (oa_digits (drop 6 s) + 4) = oan + 4"
    "nat (2 + 2 + 2 + (oa_digits (drop 6 s) + 4) + 2) = 12 + oan"
    "nat (2 + 2 + 2 + (oa_digits (drop 6 s) + 4) + 2 + 2) = 14 + oan"
    using n by simp_all
  show ?thesis
    using assms(2)
    unfolding DecodePDU_def Let_def pdu_field_def drop_min temp nums oan pos
    by (simp add: n ud_size_def Let_def algebra_simps)
qed

lemma oa_digits_take: "2 \<le> k \<Longrightarrow> oa_digits (take k s) = oa_digits s"
  by (simp add: oa_digits_def min_def)

lemma ud_size_Nil: "ud_size dcs [] = 0"
  by (simp add: ud_size_def Hex2ToByte_def signed_divide_int_def Let_def)

lemma DecodePDU_wf:
  assumes "take 2 s = ''00''" and "is_valid_pdu (DecodePDU s)"
  shows "wf_pdu (DecodePDU s)" and "pdu_text (DecodePDU s) = s"
proof -
  define oan where "oan = nat (oa_digits (drop 6 s))"
  have len: "8 \<le> length s"
  proof (rule ccontr)
    assume "\<not> 8 \<le> length s"
    then have "DecodePDU s = \<lparr>is_valid_pdu = False, pdu_type = [], message_reference = [], originator_address = [],
        protocol_id = [], data_code_scheme = [], user_data = []\<rparr>"
      unfolding DecodePDU_def by (intro if_P) simp
    with assms(2) show False by simp
  qed
  note fields = DecodePDU_fields [OF assms(1) len, folded oan_def]
  have n: "int oan = oa_digits (drop 6 s)" using oa_digits_props [of "drop 6 s"] by (simp add: oan_def)
  from assms(2) have total:
    "14 + int oan + ud_size (take 2 (drop (12 + oan) s)) (drop (14 + oan) s) = int (length s)"
    by (simp add: fields)
  then have "14 + oan \<le> length s"
    using ud_size_nonneg [of "take 2 (drop (12 + oan) s)" "drop (14 + oan) s"] by linarith
  with total n show "wf_pdu (DecodePDU s)"
    by (simp add: fields wf_pdu_def oa_digits_take)
  have glue: "take k (drop i s) @ drop (i + k) s = drop i s" for i k
    by (metis append_take_drop_id drop_drop add.commute)
  have "pdu_text (DecodePDU s) = take 2 s @ drop 2 s"
    using assms(1) glue [of 2 2] glue [of 2 4] glue [of "oan + 4" 6] glue [of 2 "10 + oan"] glue [of 2 "12 + oan"]
    by (simp add: fields pdu_text_def kWithoutServiceCenterAddress_def add.commute)
  then show "pdu_text (DecodePDU s) = s" by simp
qed

lemma DecodePDU_pdu_text:
  assumes "wf_pdu p"
  shows "DecodePDU (pdu_text p) = p"
proof -
  obtain ty mr oa pid dcs ud where p:
    "p = \<lparr>is_valid_pdu = True, pdu_type = ty, message_reference = mr, originator_address = oa, protocol_id = pid,
          data_code_scheme = dcs, user_data = ud\<rparr>"
    using assms by (cases p) (auto simp: wf_pdu_def)
  have len: "length ty = 2" "length mr = 2" "int (length oa) = oa_digits oa + 4" "length pid = 2" "length dcs = 2"
    "int (length ud) = ud_size dcs ud"
    using assms by (simp_all add: p wf_pdu_def)
  define s where "s = ''00'' @ ty @ mr @ oa @ pid @ dcs @ ud"
  have oa4: "4 \<le> length oa" using len(3) oa_digits_props [of oa] by linarith
  have d6: "drop 6 s = oa @ pid @ dcs @ ud" using len by (simp add: s_def)
  have "take 2 (drop 6 s) = take 2 oa" using oa4 by (simp add: d6)
  then have oan: "nat (oa_digits (drop 6 s)) = length oa - 4"
    using len(3) by (simp add: oa_digits_def)
  have drops: "drop (k + length oa) s = drop (k - 6) (pid @ dcs @ ud)" if "6 \<le> k" for k
  proof -
    have "drop (k + length oa) s = drop (k - 6 + length oa) (drop 6 s)"
      using that by (simp add: ac_simps)
    then show ?thesis unfolding d6 by simp
  qed
  have "take 2 s = ''00''" "8 \<le> length s" using len oa4 by (simp_all add: s_def)
  note fields = DecodePDU_fields [OF this, unfolded oan]
  have "DecodePDU s = p"
    unfolding fields p using len oa4 by (simp add: drops d6) (simp add: s_def)
  then show ?thesis by (simp add: p pdu_text_def s_def kWithoutServiceCenterAddress_def)
qed

lemma length_swap_pairs [simp]: "length (swap_pairs s) = length s"
  by (induction s rule: swap_pairs.induct) auto

lemma swap_pairs_swap [simp]: "swap_pairs (swap_pairs s) = s"
  by (induction s rule: swap_pairs.induct) auto

lemma StringToBCD_even: "even (length s) \<Longrightarrow> StringToBCD s = swap_pairs s"
  by (induction s rule: StringToBCD.induct) auto

lemma StringToBCD_odd: "odd (length s) \<Longrightarrow> StringToBCD s = swap_pairs (s @ ''F'')"
  by (induction s rule: StringToBCD.induct) auto

lemma swap_pairs_eq_Nil [simp]: "swap_pairs s = [] \<longleftrightarrow> s = []"
  by (cases s rule: swap_pairs.cases) auto

lemma BCDToString_swap:
  "even (length s) \<Longrightarrow>
   BCDToString (swap_pairs s) = (if s \<noteq> [] \<and> last s = CHR ''F'' then butlast s else s)"
  by (cases "s = []") (auto simp: BCDToString_def Let_def last_conv_nth butlast_conv_take)

lemma last_swap_pairs:
  "even (length s) \<Longrightarrow> s \<noteq> [] \<Longrightarrow> last (swap_pairs s) = last (butlast s)"
proof (induction s rule: swap_pairs.induct)
  case (1 a b s)
  then show ?case by (cases s rule: swap_pairs.cases) auto
qed auto

lemma BCDToString_no_F:
  "even (length s) \<Longrightarrow> s \<noteq> [] \<Longrightarrow> last (butlast s) \<noteq> CHR ''F'' \<Longrightarrow> BCDToString s = swap_pairs s"
  using last_swap_pairs [of s] last_conv_nth [of "swap_pairs s"] by (simp add: BCDToString_def)

text \<open>The place of the number in an address that has \<open>n\<close> characters\<close>

definition number_at :: "nat \<Rightarrow> nat" where
  "number_at n = (if n = 18 then 6 else 4)"

lemma wf_pdu_address:
  assumes "wf_pdu p"
  shows "number_at (length (originator_address p)) \<le> length (originator_address p)"
    and "even (length (originator_address p))"
proof -
  have "even (oa_digits (originator_address p) + 4)" "0 \<le> oa_digits (originator_address p)"
    using oa_digits_props [of "originator_address p"] by auto
  moreover have "int (length (originator_address p)) = oa_digits (originator_address p) + 4"
    using assms by (simp add: wf_pdu_def)
  ultimately show "number_at (length (originator_address p)) \<le> length (originator_address p)"
    and "even (length (originator_address p))"
    by (auto simp: number_at_def) presburger+
qed

lemma GetPhoneNumber_wf:
  assumes "wf_pdu p"
  shows "GetPhoneNumberFromAddress p =
    Inr (BCDToString (drop (number_at (length (originator_address p))) (originator_address p)))"
  using wf_pdu_address [OF assms] assms
  by (auto simp: GetPhoneNumberFromAddress_def substr_from_def number_at_def wf_pdu_def)

lemma number_length:
  assumes "wf_pdu p" and "GetPhoneNumberFromAddress p = Inr number" and "4 \<le> length number"
  defines "n \<equiv> length (originator_address p) - number_at (length (originator_address p))"
  shows "n = (if odd (length number) then Suc (length number) else length number)" and "even n" and "0 < n"
proof -
  let ?a = "drop (number_at (length (originator_address p))) (originator_address p)"
  have number: "number = BCDToString ?a"
    using assms(1,2) by (simp add: GetPhoneNumber_wf)
  have len: "length ?a = n" by (simp add: n_def)
  show ev: "even n" using wf_pdu_address [OF assms(1)] by (auto simp: n_def number_at_def)
  have "?a \<noteq> []" using assms(3) number by (auto simp: BCDToString_def)
  then show "0 < n" using len by auto
  with ev len \<open>?a \<noteq> []\<close> show "n = (if odd (length number) then Suc (length number) else length number)"
    by (auto simp: number BCDToString_def Let_def)
qed

lemma swapped_number:
  assumes "odd (length num) \<or> last num \<noteq> CHR ''F''" and "num \<noteq> []"
  shows "BCDToString (swap_pairs (if odd (length num) then num @ ''F'' else num)) = num"
  using assms by (auto simp: BCDToString_swap)

lemma CreateRemotePDU_text:
  assumes wf: "wf_pdu p" and number: "GetPhoneNumberFromAddress p = Inr number" and "4 \<le> length number"
    and port: "length port = 4" "CHR ''F'' \<notin> set port"
  defines "num \<equiv> take (length number - 4) number @ port"
  defines "k \<equiv> number_at (length (originator_address p))"
  defines "oa \<equiv> take k (originator_address p) @ swap_pairs (if odd (length num) then num @ ''F'' else num)"
  shows "CreateRemotePDU port p = Inr (pdu_text (p\<lparr>originator_address := oa\<rparr>))"
    and "length oa = length (originator_address p)"
proof -
  let ?num = "if odd (length num) then num @ ''F'' else num"
  note nl = number_length [OF assms(1-3)]
  have lnum: "length num = length number" using assms(3) port by (simp add: num_def)
  have knum: "length ?num = length (originator_address p) - k" "even (length ?num)" "?num \<noteq> []"
    using nl lnum assms(3) unfolding k_def by auto
  have k: "k \<le> length (originator_address p)" using wf_pdu_address [OF wf] by (simp add: k_def)
  show "length oa = length (originator_address p)" using k knum by (simp add: oa_def)
  obtain a b c d where abcd: "port = [a, b, c, d]"
    using port(1) by (auto simp: length_Suc_conv eval_nat_numeral)
  have "last (butlast ?num) \<noteq> CHR ''F''"
    using port(2) by (auto simp: num_def abcd butlast_append)
  then have bcd: "BCDToString ?num = swap_pairs ?num" using knum by (intro BCDToString_no_F) auto
  have dl: "drop_last 4 number = take (length number - 4) number"
    using assms(3) by (simp add: drop_last_def)
  have do: "drop_last (length ?num) (originator_address p) = take k (originator_address p)"
    using k knum(1) unfolding drop_last_def by auto
  have "is_valid_pdu p" using wf by (simp add: wf_pdu_def)
  then show "CreateRemotePDU port p = Inr (pdu_text (p\<lparr>originator_address := oa\<rparr>))"
    unfolding CreateRemotePDU_def number rbind_simps dl num_def [symmetric] Let_def bcd do
    using port by (simp add: pdu_text_def oa_def)
qed


text \<open>\<open>BCDToString\<close> undoes \<open>StringToBCD\<close>, except on a text of even length that ends in \<open>F\<close>, which loses that \<open>F\<close>.\<close>

lemma BCDToString_StringToBCD:
  "BCDToString (StringToBCD s) =
     (if s \<noteq> [] \<and> even (length s) \<and> last s = CHR ''F'' then butlast s else s)"
proof (cases "even (length s)")
  case True
  then show ?thesis by (simp add: StringToBCD_even BCDToString_swap)
next
  case False
  then have "even (length (s @ ''F''))" by simp
  from BCDToString_swap [OF this] False show ?thesis by (simp add: StringToBCD_odd)
qed

lemma CreateRemotePDU_fields:
  assumes "wf_pdu p" and "GetPhoneNumberFromAddress p = Inr number" and "4 \<le> length number"
    and "length port = 4" and "CHR ''F'' \<notin> set port"
  shows "\<exists>oa. let q = p\<lparr>originator_address := oa\<rparr>
    in CreateRemotePDU port p = Inr (pdu_text q) \<and> wf_pdu q \<and> DecodePDU (pdu_text q) = q \<and>
       GetPhoneNumberFromAddress q = Inr (take (length number - 4) number @ port)"
proof -
  let ?num = "take (length number - 4) number @ port" and ?k = "number_at (length (originator_address p))"
  define oa where "oa = take ?k (originator_address p) @ swap_pairs (if odd (length ?num) then ?num @ ''F'' else ?num)"
  define q where "q = p\<lparr>originator_address := oa\<rparr>"
  note rt = CreateRemotePDU_text [OF assms, folded oa_def]
  have k: "?k \<le> length (originator_address p)" "2 \<le> ?k"
    using wf_pdu_address [OF assms(1)] by (simp_all add: number_at_def)
  have "take 2 oa = take 2 (originator_address p)" using k by (simp add: oa_def min_def)
  then have "oa_digits oa = oa_digits (originator_address p)" by (simp add: oa_digits_def)
  then have wf: "wf_pdu q" using assms(1) rt(2) by (simp add: q_def wf_pdu_def)
  have "?num \<noteq> []" "last ?num \<noteq> CHR ''F''"
    using assms(4,5) by (cases port rule: rev_cases; auto)+
  then have "BCDToString (drop ?k oa) = ?num"
    using swapped_number [of ?num] k by (simp add: oa_def)
  then have "GetPhoneNumberFromAddress q = Inr ?num"
    using GetPhoneNumber_wf [OF wf] rt(2) by (simp add: q_def)
  with rt(1) wf DecodePDU_pdu_text [OF wf] show ?thesis
    unfolding q_def by (intro exI [of _ oa]) (simp add: Let_def)
qed

text \<open>
  The PDU for another device is the valid PDU with the same fields except for the address, whose number has the
  port of this device in place of its last four digits.
\<close>
theorem CreateRemotePDU_correct:
  assumes "wf_pdu p" and "GetPhoneNumberFromAddress p = Inr number" and "4 \<le> length number"
    and "length port = 4" and "CHR ''F'' \<notin> set port"
  shows "\<exists>oa. let q = p\<lparr>originator_address := oa\<rparr>
    in CreateRemotePDU port p = Inr (pdu_text q) \<and> DecodePDU (pdu_text q) = q \<and>
       GetPhoneNumberFromAddress q = Inr (take (length number - 4) number @ port)"
  using CreateRemotePDU_fields [OF assms] by (auto simp: Let_def)

definition sample_pdu :: pdu_parser where
  "sample_pdu =
     \<lparr>is_valid_pdu = True, pdu_type = ''21'', message_reference = ''00'', originator_address = ''04815612'',
      protocol_id = ''00'', data_code_scheme = ''00'', user_data = ''00''\<rparr>"

theorem CreateRemotePDU_correct_witness:
  "\<exists>oa. let q = sample_pdu\<lparr>originator_address := oa\<rparr>
    in CreateRemotePDU ''6520'' sample_pdu = Inr (pdu_text q) \<and> DecodePDU (pdu_text q) = q \<and>
       GetPhoneNumberFromAddress q = Inr ''6520''"
proof -
  have wf: "wf_pdu sample_pdu" by code_simp
  have num: "GetPhoneNumberFromAddress sample_pdu = Inr ''6521''" by code_simp
  have "4 \<le> length ''6521''" "length ''6520'' = 4" "CHR ''F'' \<notin> set ''6520''" by simp_all
  from CreateRemotePDU_correct [OF wf num this] show ?thesis by simp
qed

lemma length_to_dec_1: "n < 10 \<Longrightarrow> length (to_dec n) = 1"
  by (subst to_dec_unfold) simp

lemma IntToHexString_digits:
  assumes "0 \<le> v" and "v < 100"
  shows "IntToHexString v = [''0123456789'' ! nat (v mod 10), ''0123456789'' ! nat (v div 10)]"
proof -
  have "nat (v mod 10) < 10" "nat (v div 10) < 10" using assms by auto
  then show ?thesis
    using assms by (simp add: IntToHexString_def sdiv_nonneg smod_nonneg to_string_def to_dec_unfold pos_imp_zdiv_neg_iff)
qed

lemma to_hex_digit: "0 \<le> v \<Longrightarrow> v < 16 \<Longrightarrow> to_hex v = [''0123456789abcdef'' ! nat v]"
  unfolding to_hex_def by (subst to_base.simps) simp

text \<open>What \<open>std::localtime\<close> gives, with a time zone of at most 19 hours either way\<close>

definition valid_clock :: "clock_time \<Rightarrow> bool" where
  "valid_clock t \<longleftrightarrow>
     0 \<le> tm_year t \<and> 0 \<le> tm_mon t \<and> tm_mon t \<le> 11 \<and> 1 \<le> tm_mday t \<and> tm_mday t \<le> 31 \<and>
     0 \<le> tm_hour t \<and> tm_hour t \<le> 23 \<and> 0 \<le> tm_min t \<and> tm_min t \<le> 59 \<and> 0 \<le> tm_sec t \<and> tm_sec t \<le> 60 \<and>
     \<bar>gmt_diff t\<bar> \<le> 19 * 3600"

text \<open>Two digits of a number, low digit first, and the sign and the quarter hours of a time zone\<close>

definition semi_octet :: "int \<Rightarrow> string" where
  "semi_octet v = [''0123456789'' ! nat (v mod 10), ''0123456789'' ! nat (v div 10)]"

definition zone_octet :: "int \<Rightarrow> string" where
  "zone_octet seconds =
     (let q = 4 * (\<bar>seconds\<bar> div 3600)
      in [''0123456789abcdef'' ! nat (q mod 10),
          ''0123456789abcdef'' ! nat (q div 10 + (if seconds \<le> - 3600 then 8 else 0))])"

lemma length_octets [simp]: "length (semi_octet v) = 2" "length (zone_octet d) = 2"
  by (simp_all add: semi_octet_def zone_octet_def Let_def)

lemma zone_octet_eq:
  assumes "\<bar>d\<bar> \<le> 19 * 3600"
  shows "IntToHexStringTimeZoneDiff (d sdiv 3600) = zone_octet d"
proof -
  define h where "h = \<bar>d\<bar> div 3600"
  have h: "0 \<le> h" "h \<le> 19" using assms by (auto simp: h_def)
  have digits: "to_hex ((4 * h) smod 10) = [''0123456789abcdef'' ! nat (4 * h mod 10)]"
    "to_hex ((4 * h) sdiv 10 + k) = [''0123456789abcdef'' ! nat (4 * h div 10 + k)]" if "k \<in> {0, 8}" for k
    using h that by (auto simp: smod_nonneg sdiv_nonneg intro!: to_hex_digit)
  have sdiv: "d sdiv 3600 = sgn d * h" by (simp add: signed_divide_int_def h_def)
  have neg: "d \<le> - 3600 \<longleftrightarrow> d < 0 \<and> h \<noteq> 0"
    using pos_imp_zdiv_pos_iff [of 3600 "\<bar>d\<bar>"] h(1) by (auto simp: h_def)
  have "sgn d * h < 0 \<longleftrightarrow> d \<le> - 3600" "\<bar>sgn d * h\<bar> = h"
    using neg h by (auto simp: sgn_if h_def)
  then have "IntToHexStringTimeZoneDiff (sgn d * h) =
      to_hex ((4 * h) smod 10) @ to_hex ((4 * h) sdiv 10 + (if d \<le> - 3600 then 8 else 0))"
    unfolding IntToHexStringTimeZoneDiff_def Let_def by (auto simp: abs_if)
  moreover have "zone_octet d =
      [''0123456789abcdef'' ! nat (4 * h mod 10),
       ''0123456789abcdef'' ! nat (4 * h div 10 + (if d \<le> - 3600 then 8 else 0))]"
    unfolding zone_octet_def Let_def h_def ..
  ultimately show ?thesis
    unfolding sdiv using digits [of "if d \<le> - 3600 then 8 else 0"] by (simp only: append.simps) simp
qed

text \<open>
  The time stamp of a delivered PDU is seven octets: year, month, day, hour, minute and second as swapped decimal
  digits, and the time zone in whole hours, counted in quarters, with its sign in the top bit of the second digit.
\<close>
theorem GetCurrentTimeStamp_layout:
  assumes "valid_clock t"
  shows "GetCurrentTimeStamp t =
      semi_octet (tm_year t mod 100) @ semi_octet (tm_mon t + 1) @ semi_octet (tm_mday t) @ semi_octet (tm_hour t) @
      semi_octet (tm_min t) @ semi_octet (tm_sec t) @ zone_octet (gmt_diff t) \<and>
    length (GetCurrentTimeStamp t) = 14"
proof -
  have "GetCurrentTimeStamp t =
      semi_octet (tm_year t mod 100) @ semi_octet (tm_mon t + 1) @ semi_octet (tm_mday t) @ semi_octet (tm_hour t) @
      semi_octet (tm_min t) @ semi_octet (tm_sec t) @ zone_octet (gmt_diff t)"
    using assms zone_octet_eq [of "gmt_diff t"]
    by (simp add: GetCurrentTimeStamp_def valid_clock_def smod_nonneg IntToHexString_digits semi_octet_def)
  then show ?thesis by simp
qed

definition sample_clock :: clock_time where
  "sample_clock = \<lparr>tm_year = 126, tm_mon = 10, tm_mday = 15, tm_hour = 9, tm_min = 41, tm_sec = 7, gmt_diff = - 28800\<rparr>"

theorem GetCurrentTimeStamp_layout_witness:
  "GetCurrentTimeStamp sample_clock = ''6211519014702b'' \<and> length (GetCurrentTimeStamp sample_clock) = 14"
proof -
  have "valid_clock sample_clock" by (simp add: valid_clock_def sample_clock_def)
  from GetCurrentTimeStamp_layout [OF this] show ?thesis
    by (simp add: sample_clock_def semi_octet_def zone_octet_def)
qed

end
