(* ===== verification/Modem_Looper.thy ===== *)
theory Modem_Looper
  imports Modem_Text
begin

text \<open>
  The thread of the modem simulator that runs callbacks later, \<open>host/commands/modem_simulator/thread_looper.cpp\<close>:
  its queue of events, the operations that post and cancel one, and one round of the loop of its thread.  Every
  operation runs under the looper's mutex, so that a history of the looper is a sequence of operations; the steady
  clock is an argument, in nanoseconds.  A callback is a value.
\<close>

section \<open>Definitions\<close>

record 'cb looper_event =
  at_time :: int
  callback :: 'cb
  serial :: int

record 'cb looper =
  stopped :: bool
  queue :: "'cb looper_event list"
  next_serial :: int

definition ThreadLooper :: "'cb looper" where
  "ThreadLooper = \<lparr>stopped = False, queue = [], next_serial = 1\<rparr>"

definition event_le :: "'cb looper_event \<Rightarrow> 'cb looper_event \<Rightarrow> bool" where
  "event_le e other \<longleftrightarrow> at_time e \<le> at_time other"

fun Insert :: "'cb looper_event \<Rightarrow> 'cb looper_event list \<Rightarrow> 'cb looper_event list" where
  "Insert event [] = [event]"
| "Insert event (e # q) = (if event_le e event then e # Insert event q else event # e # q)"

definition PostDelayed :: "int \<Rightarrow> int \<Rightarrow> 'cb \<Rightarrow> 'cb looper \<Rightarrow> int \<times> 'cb looper" where
  "PostDelayed now delay cb l =
     (let n = next_serial l
      in (n, l\<lparr>next_serial := wrap_int32 (n + 1),
               queue := Insert \<lparr>at_time = now + delay, callback = cb, serial = n\<rparr> (queue l)\<rparr>))"

definition Post :: "int \<Rightarrow> 'cb \<Rightarrow> 'cb looper \<Rightarrow> int \<times> 'cb looper" where
  "Post now cb l =
     (let n = next_serial l
      in (n, l\<lparr>next_serial := wrap_int32 (n + 1),
               queue := Insert \<lparr>at_time = now, callback = cb, serial = n\<rparr> (queue l)\<rparr>))"

fun erase_serial :: "int \<Rightarrow> 'cb looper_event list \<Rightarrow> bool \<times> 'cb looper_event list" where
  "erase_serial n [] = (False, [])"
| "erase_serial n (e # q) =
     (if serial e = n then (True, q) else let (found, q') = erase_serial n q in (found, e # q'))"

definition CancelSerial :: "int \<Rightarrow> 'cb looper \<Rightarrow> bool \<times> 'cb looper" where
  "CancelSerial n l = (let (found, q) = erase_serial n (queue l) in (found, l\<lparr>queue := q\<rparr>))"

text \<open>One round of the thread's loop: it ends, waits for a notification, waits for some milliseconds, or runs a callback.\<close>

datatype 'cb loop_action =
    LoopEnds
  | LoopWaits
  | LoopWaitsFor int
  | LoopRuns "'cb looper_event"

definition ThreadLoop_round :: "int \<Rightarrow> 'cb looper \<Rightarrow> 'cb loop_action \<times> 'cb looper" where
  "ThreadLoop_round now l =
     (if stopped l then (LoopEnds, l)
      else case queue l of
             [] \<Rightarrow> (LoopWaits, l)
           | e # q \<Rightarrow>
               (let time_to_wait = at_time e - now
                in if 0 < time_to_wait then (LoopWaitsFor (time_to_wait div 1000000), l)
                   else (LoopRuns e, l\<lparr>queue := q\<rparr>)))"

definition Stop :: "bool \<Rightarrow> 'cb looper \<Rightarrow> 'cb looper result" where
  "Stop on_looper_thread l =
     (if stopped l then Inr l
      else if on_looper_thread then Inl (CheckFailure ''Destructor called from looper thread'')
      else Inr (l\<lparr>stopped := True\<rparr>))"

text \<open>The rounds of the loop at one time until there is nothing to run: the events that run, and the looper after them.\<close>

function run_due :: "int \<Rightarrow> 'cb looper \<Rightarrow> 'cb looper_event list \<times> 'cb looper" where
  "run_due now l =
     (case ThreadLoop_round now l of
        (LoopRuns e, l') \<Rightarrow> let (es, l'') = run_due now l' in (e # es, l'')
      | (_, l') \<Rightarrow> ([], l'))"
  by pat_completeness auto
termination
  by (relation "measure (\<lambda>(now, l). length (queue l))")
    (auto simp: ThreadLoop_round_def Let_def split: if_splits list.splits)

declare run_due.simps [simp del]

text \<open>A history: posts, cancellations and rounds of the loop, and the events that it runs\<close>

datatype 'cb looper_op =
    OpPost int int 'cb
  | OpCancel int
  | OpRound int

fun looper_step :: "'cb looper_op \<Rightarrow> 'cb looper \<Rightarrow> 'cb looper_event list \<times> 'cb looper" where
  "looper_step (OpPost now delay cb) l = ([], snd (PostDelayed now delay cb l))"
| "looper_step (OpCancel n) l = ([], snd (CancelSerial n l))"
| "looper_step (OpRound now) l =
     (case ThreadLoop_round now l of (LoopRuns e, l') \<Rightarrow> ([e], l') | (_, l') \<Rightarrow> ([], l'))"

fun looper_steps :: "'cb looper_op list \<Rightarrow> 'cb looper \<Rightarrow> 'cb looper_event list \<times> 'cb looper" where
  "looper_steps [] l = ([], l)"
| "looper_steps (x # xs) l =
     (let (es, l') = looper_step x l; (es', l'') = looper_steps xs l' in (es @ es', l''))"

section \<open>The queue\<close>

text \<open>
  The queue is in the order of the times, and events of one time in the order in which they were posted.  The serial
  numbers of the queue are positive and below the next one, which holds until \<open>2\<^sup>3\<^sup>1 - 1\<close> events have been posted.
\<close>

definition before :: "'cb looper_event \<Rightarrow> 'cb looper_event \<Rightarrow> bool" where
  "before a b \<longleftrightarrow> at_time a < at_time b \<or> at_time a = at_time b \<and> serial a < serial b"

definition looper_inv :: "'cb looper \<Rightarrow> bool" where
  "looper_inv l \<longleftrightarrow>
     sorted_wrt before (queue l) \<and> (\<forall>e \<in> set (queue l). 0 < serial e \<and> serial e < next_serial l) \<and>
     distinct (map serial (queue l)) \<and> 0 < next_serial l \<and> next_serial l < 2147483648"

lemma looper_inv_start: "looper_inv ThreadLooper"
  by (simp add: looper_inv_def ThreadLooper_def)

lemma set_Insert [simp]: "set (Insert e q) = insert e (set q)"
  by (induction e q rule: Insert.induct) auto

lemma distinct_Insert: "distinct (map serial (Insert e q)) \<longleftrightarrow> distinct (serial e # map serial q)"
  by (induction e q rule: Insert.induct) auto

lemma Insert_before:
  "sorted_wrt before q \<Longrightarrow> \<forall>x \<in> set q. serial x < serial e \<Longrightarrow> sorted_wrt before (Insert e q)"
proof (induction e q rule: Insert.induct)
  case (2 event e q)
  then show ?case by (auto simp: event_le_def before_def)
qed simp

lemma PostDelayed_inv:
  assumes "looper_inv l" and "next_serial l < 2147483647"
  shows "looper_inv (snd (PostDelayed now delay cb l))"
  using assms
  by (auto simp: looper_inv_def PostDelayed_def Let_def wrap_int32_def distinct_Insert intro!: Insert_before)

lemma erase_serial_eq:
  "distinct (map serial q) \<Longrightarrow>
   erase_serial n q = (n \<in> serial ` set q, filter (\<lambda>e. serial e \<noteq> n) q)"
proof (induction q)
  case (Cons e q)
  have "filter (\<lambda>x. serial x \<noteq> serial e) q = q"
    using Cons.prems by (intro filter_True ballI) (metis distinct.simps(2) image_eqI image_set list.simps(9))
  with Cons show ?case by auto
qed simp

lemma CancelSerial_eq:
  "looper_inv l \<Longrightarrow>
   CancelSerial n l =
     (n \<in> serial ` set (queue l), l\<lparr>queue := filter (\<lambda>e. serial e \<noteq> n) (queue l)\<rparr>)"
  by (simp add: CancelSerial_def erase_serial_eq looper_inv_def)

lemma CancelSerial_inv: "looper_inv l \<Longrightarrow> looper_inv (snd (CancelSerial n l))"
  by (auto simp: CancelSerial_eq) (auto simp: looper_inv_def sorted_wrt_filter distinct_map_filter)

lemma ThreadLoop_round_inv: "looper_inv l \<Longrightarrow> looper_inv (snd (ThreadLoop_round now l))"
  by (auto simp: ThreadLoop_round_def looper_inv_def Let_def split: list.split)

section \<open>What a client of a timer queue relies on\<close>

text \<open>
  A timer queue runs only events that are pending, an event that ran is no longer pending, and the only serial number
  that becomes pending is the next one, which grows.  It has room for a number of further posts.
\<close>

locale timer_queue =
  fixes inv :: "'q \<Rightarrow> bool" and pending :: "'q \<Rightarrow> int set" and next_number :: "'q \<Rightarrow> int" and room :: "'q \<Rightarrow> nat"
    and step :: "'op \<Rightarrow> 'q \<Rightarrow> 'e list \<times> 'q" and number :: "'e \<Rightarrow> int"
    and steps :: "'op list \<Rightarrow> 'q \<Rightarrow> 'e list \<times> 'q"
  assumes step_inv: "inv q \<Longrightarrow> 0 < room q \<Longrightarrow> inv (snd (step op q)) \<and> room q - 1 \<le> room (snd (step op q))"
    and step_runs: "inv q \<Longrightarrow> e \<in> set (fst (step op q)) \<Longrightarrow>
      number e \<in> pending q \<and> number e \<notin> pending (snd (step op q))"
    and step_pending: "inv q \<Longrightarrow> n \<in> pending (snd (step op q)) \<Longrightarrow> n \<in> pending q \<or> n = next_number q"
    and step_next: "inv q \<Longrightarrow> 0 < room q \<Longrightarrow> next_number q \<le> next_number (snd (step op q))"
    and steps_Nil [simp]: "steps [] q = ([], q)"
    and steps_Cons [simp]: "steps (x # xs) q =
      (let (es, q') = step x q; (es', q'') = steps xs q' in (es @ es', q''))"
begin

lemma not_pending_never_runs:
  "inv q \<Longrightarrow> length ops \<le> room q \<Longrightarrow> n \<notin> pending q \<Longrightarrow> n < next_number q \<Longrightarrow>
   n \<notin> number ` set (fst (steps ops q))"
proof (induction ops arbitrary: q)
  case (Cons x ops)
  obtain es q' where s: "step x q = (es, q')" by force
  obtain es' q'' where s': "steps ops q' = (es', q'')" by force
  have q': "inv q'" "room q - 1 \<le> room q'" "next_number q \<le> next_number q'"
    using Cons.prems step_inv [of q x] step_next [of q x] s by auto
  moreover have "n \<notin> pending q'" using step_pending [of q n x] Cons.prems s by auto
  ultimately have "n \<notin> number ` set es'" using Cons.IH [of q'] Cons.prems s' by auto
  moreover have "n \<notin> number ` set es" using step_runs [of q _ x] Cons.prems s by auto
  ultimately show ?case by (auto simp: s s')
qed simp

lemma runs_once:
  "inv q \<Longrightarrow> length ops \<le> room q \<Longrightarrow> (\<And>q x. inv q \<Longrightarrow> length (fst (step x q)) \<le> 1) \<Longrightarrow>
   (\<And>q n. inv q \<Longrightarrow> n \<in> pending q \<Longrightarrow> n < next_number q) \<Longrightarrow>
   distinct (map number (fst (steps ops q)))"
proof (induction ops arbitrary: q)
  case (Cons x ops)
  obtain es q' where s: "step x q = (es, q')" by force
  obtain es' q'' where s': "steps ops q' = (es', q'')" by force
  have q': "inv q'" "room q - 1 \<le> room q'" "next_number q \<le> next_number q'"
    using Cons.prems step_inv [of q x] step_next [of q x] s by auto
  have "distinct (map number es')" using Cons.IH [of q'] Cons.prems(2-) q' s' by auto
  moreover have "number e \<notin> number ` set es'" if "e \<in> set es" for e
  proof -
    have "number e \<in> pending q" "number e \<notin> pending q'" using step_runs [of q e x] Cons.prems(1) that s by auto
    moreover have "number e < next_number q'" using calculation Cons.prems(1,4) q'(3) by fastforce
    ultimately show ?thesis using not_pending_never_runs [of q' ops "number e"] q' Cons.prems(2) s' by auto
  qed
  moreover have "es = [] \<or> (\<exists>e. es = [e])" using Cons.prems(3) [OF Cons.prems(1), of x] s by (cases es) auto
  ultimately show ?case by (auto simp: s s')
qed simp

end

definition looper_room :: "'cb looper \<Rightarrow> nat" where
  "looper_room l = nat (2147483647 - next_serial l)"

interpretation tl: timer_queue looper_inv "\<lambda>l. serial ` set (queue l)" next_serial looper_room looper_step serial
  looper_steps
proof (unfold_locales)
  fix q :: "'a looper" and op
  assume inv: "looper_inv q" and room: "0 < looper_room q"
  show "looper_inv (snd (looper_step op q)) \<and> looper_room q - 1 \<le> looper_room (snd (looper_step op q))"
    using inv room PostDelayed_inv [of q] CancelSerial_inv [of q] ThreadLoop_round_inv [of q]
    by (cases op) (auto simp: looper_room_def PostDelayed_def CancelSerial_eq ThreadLoop_round_def Let_def
        wrap_int32_def looper_inv_def split: list.splits)
  show "next_serial q \<le> next_serial (snd (looper_step op q))"
    using inv room
    by (cases op) (auto simp: looper_room_def PostDelayed_def CancelSerial_eq ThreadLoop_round_def Let_def
        wrap_int32_def looper_inv_def split: list.splits)
next
  fix q :: "'a looper" and op e
  assume "looper_inv q" and "e \<in> set (fst (looper_step op q))"
  then show "serial e \<in> serial ` set (queue q) \<and> serial e \<notin> serial ` set (queue (snd (looper_step op q)))"
    by (cases op) (auto simp: ThreadLoop_round_def Let_def looper_inv_def split: list.splits if_splits)
next
  fix q :: "'a looper" and op n
  assume "looper_inv q" and "n \<in> serial ` set (queue (snd (looper_step op q)))"
  then show "n \<in> serial ` set (queue q) \<or> n = next_serial q"
    by (cases op) (auto simp: PostDelayed_def CancelSerial_eq ThreadLoop_round_def Let_def
        split: list.splits if_splits)
qed simp_all

lemma ThreadLoop_round_runs:
  "queue l = e # q \<Longrightarrow> \<not> stopped l \<Longrightarrow>
   ThreadLoop_round now l =
     (if now < at_time e then (LoopWaitsFor ((at_time e - now) div 1000000), l) else (LoopRuns e, l\<lparr>queue := q\<rparr>))"
  by (simp add: ThreadLoop_round_def)

lemma sorted_due:
  assumes "sorted_wrt before (e # q)" and "now < at_time e"
  shows "filter (\<lambda>x. at_time x \<le> now) (e # q) = []" "filter (\<lambda>x. now < at_time x) (e # q) = e # q"
  using assms by (auto simp: filter_empty_conv before_def filter_id_conv)

lemma run_due_eq:
  assumes "looper_inv l" and "\<not> stopped l"
  shows "run_due now l =
    (filter (\<lambda>e. at_time e \<le> now) (queue l), l\<lparr>queue := filter (\<lambda>e. now < at_time e) (queue l)\<rparr>)"
  using assms
proof (induction "queue l" arbitrary: l)
  case Nil
  then show ?case by (subst run_due.simps) (simp add: ThreadLoop_round_def)
next
  case (Cons e q)
  have "looper_inv (l\<lparr>queue := q\<rparr>)" using Cons.prems Cons.hyps(2) [symmetric] by (simp add: looper_inv_def)
  with Cons have IH: "run_due now (l\<lparr>queue := q\<rparr>) =
      (filter (\<lambda>e. at_time e \<le> now) q, l\<lparr>queue := filter (\<lambda>e. now < at_time e) q\<rparr>)"
    using Cons.hyps(1) [of "l\<lparr>queue := q\<rparr>"] by simp
  show ?case
  proof (cases "now < at_time e")
    case True
    have "sorted_wrt before (e # q)" using Cons.prems Cons.hyps(2) [symmetric] by (simp add: looper_inv_def)
    from sorted_due [OF this True] Cons.hyps(2) [symmetric] True Cons.prems(2) show ?thesis
      by (subst run_due.simps) (simp add: ThreadLoop_round_runs)
  next
    case False
    with Cons.hyps(2) [symmetric] Cons.prems(2) IH show ?thesis
      by (subst run_due.simps) (simp add: ThreadLoop_round_runs)
  qed
qed

lemma looper_step_one: "length (fst (looper_step x l)) \<le> 1"
  by (cases x) (auto split: prod.split loop_action.split)

section \<open>Properties\<close>

text \<open>
  C14. A cancelled event never runs, whatever is posted, cancelled and run afterwards.
\<close>
theorem CancelSerial_never_runs:
  assumes "looper_inv l" and "n < next_serial l" and "int (length ops) + next_serial l < 2147483648"
  shows "n \<notin> serial ` set (fst (looper_steps ops (snd (CancelSerial n l))))"
proof -
  have "n \<notin> serial ` set (queue (snd (CancelSerial n l)))" using assms(1) by (auto simp: CancelSerial_eq)
  moreover have "next_serial (snd (CancelSerial n l)) = next_serial l" using assms(1) by (simp add: CancelSerial_eq)
  ultimately show ?thesis
    using assms CancelSerial_inv [OF assms(1)]
    by (intro tl.not_pending_never_runs) (auto simp: looper_room_def)
qed

lemma looper_inv_one: "looper_inv (snd (PostDelayed 0 5 cb ThreadLooper))"
  using PostDelayed_inv [OF looper_inv_start] by (simp add: ThreadLooper_def)

theorem CancelSerial_never_runs_witness:
  "1 \<notin> serial ` set (fst (looper_steps [OpPost 6 0 ''ring'', OpRound 7, OpRound 7]
       (snd (CancelSerial 1 (snd (PostDelayed 0 5 ''timer'' ThreadLooper))))))"
  by (rule CancelSerial_never_runs [OF looper_inv_one])
    (simp_all add: PostDelayed_def ThreadLooper_def wrap_int32_def)



text \<open>
  C30. The loop runs every event that is due and no other, in the order of their times and, at one time, in the order
  in which they were posted, and it leaves the rest of the queue.
\<close>
theorem run_due_runs_all:
  assumes "looper_inv l" and "\<not> stopped l"
  shows "run_due now l =
      (filter (\<lambda>e. at_time e \<le> now) (queue l), l\<lparr>queue := filter (\<lambda>e. now < at_time e) (queue l)\<rparr>) \<and>
    sorted_wrt before (fst (run_due now l))"
  using run_due_eq [OF assms, of now] assms(1) by (simp add: looper_inv_def sorted_wrt_filter)

theorem run_due_runs_all_witness:
  "map callback (fst (run_due 7 (snd (PostDelayed 0 5 ''timer'' ThreadLooper)))) = [''timer'']"
proof -
  have "\<not> stopped (snd (PostDelayed 0 5 ''timer'' ThreadLooper))" by (simp add: PostDelayed_def ThreadLooper_def)
  from run_due_runs_all [OF looper_inv_one this, of 7] show ?thesis
    by (simp add: PostDelayed_def ThreadLooper_def)
qed

end
