(* ===== verification/Modem_Service.thy ===== *)
theory Modem_Service
  imports Modem_Pdu Modem_Looper
begin

text \<open>
  What the services of the modem simulator share (\<open>host/commands/modem_simulator/modem_service.{h,cpp}\<close> and
  \<open>client.cc\<close>): the error texts, the handlers with their matching, the responses.  A handler of a service is a
  function of the client, the command and the service's state; it gives the new state and, in order, what it does
  outside the service: responses, unsolicited commands, commands to another device, callbacks for the looper, files
  to be saved.  An exception that escapes, or undefined behaviour, is an error value.
\<close>

section \<open>Clients and effects\<close>

datatype client_type = RIL | REMOTE

record client =
  client_id :: nat
  client_type :: client_type

datatype modem_callback =
    CbSimulatePendingCallsAnswered
  | CbTimerWaitingRemoteCallResponse int string
  | CbCallStateUpdate
  | CbHandleReceiveSMS pdu_parser
  | CbHandleSMSStatuReport pdu_parser int
  | CbUpdatePhysicalChannelconfigs int int int int
  | CbUpdateRegisterState int
  | CbUpdateSignalStrength

text \<open>The values that the services keep in the NVRAM file\<close>

datatype nvram_value =
    NvNetworkSelectionMode int
  | NvOperatorNumeric string
  | NvModemTechnology int
  | NvPreferredNetworkMode int
  | NvEmergencyMode bool

datatype event =
    Response client string  \<comment> \<open>bytes written to a client\<close>
  | Unsolicited string  \<comment> \<open>\<open>ChannelMonitor::SendUnsolicitedCommand\<close>\<close>
  | AddRemote nat string  \<comment> \<open>\<open>ChannelMonitor::SetRemoteClient\<close> for a connection to a port\<close>
  | RemoteCommand nat string  \<comment> \<open>\<open>ChannelMonitor::SendRemoteCommand\<close>\<close>
  | CloseRemote nat  \<comment> \<open>\<open>ChannelMonitor::CloseRemoteConnection\<close>\<close>
  | RemoteWrite string string  \<comment> \<open>bytes written to a fresh connection to a port\<close>
  | PostCallback modem_callback int  \<comment> \<open>\<open>ThreadLooper::Post\<close> with a delay in milliseconds\<close>
  | CancelCallback int  \<comment> \<open>\<open>ThreadLooper::CancelSerial\<close>\<close>
  | SetNvram nvram_value  \<comment> \<open>a value of \<open>NvramConfig\<close> is set\<close>
  | SaveNvram  \<comment> \<open>\<open>NvramConfig::SaveToFile\<close>\<close>
  | TimeUpdateEvent  \<comment> \<open>\<open>MiscService::TimeUpdate\<close>\<close>
  | SimStatusChanged  \<comment> \<open>\<open>NetworkService::OnSimStatusChanged\<close>\<close>
  | PhysicalChannelConfigs int int int  \<comment> \<open>\<open>DataService::onUpdatePhysicalChannelconfigs\<close>\<close>

definition SendCommandResponse :: "client \<Rightarrow> string \<Rightarrow> event list" where
  "SendCommandResponse client response =
     (if response = [] then []
      else [Response client (if last response \<noteq> CHR 0x0D then response @ [CHR 0x0D] else response)])"

definition SendCommandResponses :: "client \<Rightarrow> string list \<Rightarrow> event list" where
  "SendCommandResponses client responses = concat (map (SendCommandResponse client) responses)"

definition SendUnsolicitedCommand :: "string \<Rightarrow> event list" where
  "SendUnsolicitedCommand unsol_command = [Unsolicited unsol_command]"

definition SendCommandToRemote :: "nat \<Rightarrow> string \<Rightarrow> event list" where
  "SendCommandToRemote remote_client response = [RemoteCommand remote_client response]"

definition CloseRemoteConnection :: "nat \<Rightarrow> event list" where
  "CloseRemoteConnection remote_client = [CloseRemote remote_client]"

definition HandleCommandDefaultSupported :: "client \<Rightarrow> event list" where
  "HandleCommandDefaultSupported client = SendCommandResponse client (''OK'' @ [CHR 0x0D])"

definition GetHostId :: "int \<Rightarrow> string" where
  "GetHostId host_id = to_string host_id"

text \<open>A client of the radio interface layer\<close>

definition ril :: client where
  "ril = \<lparr>client_id = 0, client_type = RIL\<rparr>"

section \<open>Error texts\<close>

definition kCmeErrorOperationNotAllowed :: string where
  "kCmeErrorOperationNotAllowed = ''+CME ERROR: 3''"

definition kCmeErrorOperationNotSupported :: string where
  "kCmeErrorOperationNotSupported = ''+CME ERROR: 4''"

definition kCmeErrorSimNotInserted :: string where
  "kCmeErrorSimNotInserted = ''+CME ERROR: 10''"

definition kCmeErrorSimPinRequired :: string where
  "kCmeErrorSimPinRequired = ''+CME ERROR: 11''"

definition kCmeErrorSimPukRequired :: string where
  "kCmeErrorSimPukRequired = ''+CME ERROR: 12''"

definition kCmeErrorSimBusy :: string where
  "kCmeErrorSimBusy = ''+CME ERROR: 14''"

definition kCmeErrorIncorrectPassword :: string where
  "kCmeErrorIncorrectPassword = ''+CME ERROR: 16''"

definition kCmeErrorMemoryFull :: string where
  "kCmeErrorMemoryFull = ''+CME ERROR: 20''"

definition kCmeErrorInvalidIndex :: string where
  "kCmeErrorInvalidIndex = ''+CME ERROR: 21''"

definition kCmeErrorNotFound :: string where
  "kCmeErrorNotFound = ''+CME ERROR: 22''"

definition kCmeErrorNoNetworkService :: string where
  "kCmeErrorNoNetworkService = ''+CME ERROR: 30''"

definition kCmeErrorNetworkNotAllowedEmergencyCallsOnly :: string where
  "kCmeErrorNetworkNotAllowedEmergencyCallsOnly = ''+CME ERROR: 32''"

definition kCmeErrorInCorrectParameters :: string where
  "kCmeErrorInCorrectParameters = ''+CME ERROR: 50''"

definition kCmeErrorNetworkNotAttachedDueToMTFunctionalRestrictions :: string where
  "kCmeErrorNetworkNotAttachedDueToMTFunctionalRestrictions = ''+CME ERROR: 53''"

definition kCmeErrorFixedDialNumberOnlyAllowed :: string where
  "kCmeErrorFixedDialNumberOnlyAllowed = ''+CME ERROR: 56''"

definition kCmsErrorInvalidPDUModeParam :: string where
  "kCmsErrorInvalidPDUModeParam = ''+CMS ERROR: 304''"

definition kCmsErrorSCAddressUnknown :: string where
  "kCmsErrorSCAddressUnknown = ''+CMS ERROR: 304''"

definition kRemotePortRange :: "int \<times> int" where
  "kRemotePortRange = (6520, 6527)"

section \<open>Numbers\<close>

text \<open>The port that a number of 11 or 4 digits ends in, otherwise 0\<close>

definition remote_port :: "string \<Rightarrow> int result" where
  "remote_port num =
     (if length num = 11 then rbind (substr_from num 7) (stoi 10)
      else if length num = 4 then stoi 10 num else Inr 0)"

definition is_remote_port :: "int \<Rightarrow> bool" where
  "is_remote_port port \<longleftrightarrow> fst kRemotePortRange \<le> port \<and> port \<le> snd kRemotePortRange"

text \<open>\<open>n + 1\<close> for an \<open>int\<close>, and the cast of a number to an enumeration whose values need some bits\<close>

definition int_incr :: "int \<Rightarrow> int result" where
  "int_incr n = (if n < 2147483647 then Inr (n + 1) else Inl (UndefinedBehaviour ''signed overflow''))"

definition to_enum :: "nat \<Rightarrow> int \<Rightarrow> int result" where
  "to_enum bits n =
     (if 0 \<le> n \<and> n < 2 ^ bits then Inr n
      else Inl (UndefinedBehaviour ''value outside the range of the enumeration''))"

section \<open>Registration states\<close>

text \<open>\<open>NetworkService::RegistrationState\<close>; a command can cast any number to it, so that the states are numbers.\<close>

definition NET_REGISTRATION_UNREGISTERED :: int where
  "NET_REGISTRATION_UNREGISTERED = 0"

definition NET_REGISTRATION_HOME :: int where
  "NET_REGISTRATION_HOME = 1"

definition NET_REGISTRATION_SEARCHING :: int where
  "NET_REGISTRATION_SEARCHING = 2"

definition NET_REGISTRATION_DENIED :: int where
  "NET_REGISTRATION_DENIED = 3"

definition NET_REGISTRATION_UNKNOWN :: int where
  "NET_REGISTRATION_UNKNOWN = 4"

definition NET_REGISTRATION_ROAMING :: int where
  "NET_REGISTRATION_ROAMING = 5"

definition NET_REGISTRATION_EMERGENCY :: int where
  "NET_REGISTRATION_EMERGENCY = 8"

section \<open>Handlers\<close>

datatype match_mode = FULL_MATCH | PARTIAL_MATCH

type_synonym 's outcome = "('s \<times> event list) result"

record 's command_handler =
  command_prefix :: string
  match_mode :: match_mode
  command_handler :: "client \<Rightarrow> string \<Rightarrow> 's \<Rightarrow> 's outcome"

definition full_handler :: "string \<Rightarrow> (client \<Rightarrow> 's \<Rightarrow> 's outcome) \<Rightarrow> 's command_handler" where
  "full_handler cmd_prefix f =
     \<lparr>command_prefix = cmd_prefix, match_mode = FULL_MATCH, command_handler = (\<lambda>client _. f client)\<rparr>"

definition partial_handler :: "string \<Rightarrow> (client \<Rightarrow> string \<Rightarrow> 's \<Rightarrow> 's outcome) \<Rightarrow> 's command_handler" where
  "partial_handler cmd_prefix f =
     \<lparr>command_prefix = cmd_prefix, match_mode = PARTIAL_MATCH, command_handler = f\<rparr>"

text \<open>Whether \<open>Compare\<close> gives 0\<close>

definition Compare :: "'s command_handler \<Rightarrow> string \<Rightarrow> bool" where
  "Compare h command =
     (2 \<le> length command \<and>
      (case match_mode h of
         PARTIAL_MATCH \<Rightarrow> take (length (command_prefix h)) (drop 2 command) = command_prefix h
       | FULL_MATCH \<Rightarrow> drop 2 command = command_prefix h))"

text \<open>\<open>None\<close>: no handler of the service matches.\<close>

fun HandleModemCommand ::
    "'s command_handler list \<Rightarrow> client \<Rightarrow> string \<Rightarrow> 's \<Rightarrow> ('s \<times> event list) option result" where
  "HandleModemCommand [] client command s = Inr None"
| "HandleModemCommand (h # hs) client command s =
     (if Compare h command then rbind (command_handler h client command s) (\<lambda>r. Inr (Some r))
      else HandleModemCommand hs client command s)"

lemma HandleModemCommand_None:
  "HandleModemCommand hs client command s = Inr None \<longleftrightarrow> (\<forall>h \<in> set hs. \<not> Compare h command)"
  by (induction hs) (auto simp: rbind_eq_Inr)

lemma HandleModemCommand_first:
  "HandleModemCommand (hs @ h # hs') client command s = rbind (command_handler h client command s) (\<lambda>r. Inr (Some r))"
  if "\<forall>h \<in> set hs. \<not> Compare h command" "Compare h command"
  using that by (induction hs) auto

lemma handler_outcome:
  assumes "HandleModemCommand hs client cmd s = Inr (Some r)"
  shows "\<exists>h \<in> set hs. Compare h cmd \<and> command_handler h client cmd s = Inr r"
  using assms by (induction hs) (auto simp: rbind_eq_Inr split: if_splits)

lemma Compare_partial: "Compare (partial_handler p f) command \<longleftrightarrow> 2 \<le> length command \<and> starts_with p (drop 2 command)"
  by (simp add: Compare_def partial_handler_def starts_with_def)

lemma Compare_full: "Compare (full_handler p f) command \<longleftrightarrow> 2 \<le> length command \<and> drop 2 command = p"
  by (simp add: Compare_def full_handler_def)

lemma handler_sel [simp]:
  "command_handler (partial_handler p f) = f"
  "command_handler (full_handler p g) = (\<lambda>client _. g client)"
  by (simp_all add: partial_handler_def full_handler_def)

text \<open>A property of the state that every handler of a service keeps\<close>

definition preserves :: "('s \<Rightarrow> bool) \<Rightarrow> 's command_handler list \<Rightarrow> bool" where
  "preserves P hs \<longleftrightarrow>
     (\<forall>h \<in> set hs. \<forall>client cmd s s' evs. P s \<longrightarrow> command_handler h client cmd s = Inr (s', evs) \<longrightarrow> P s')"

lemma preserves_simps:
  "preserves P []"
  "preserves P (partial_handler p f # hs) \<longleftrightarrow>
     (\<forall>client cmd s s' evs. P s \<longrightarrow> f client cmd s = Inr (s', evs) \<longrightarrow> P s') \<and> preserves P hs"
  "preserves P (full_handler p g # hs) \<longleftrightarrow>
     (\<forall>client s s' evs. P s \<longrightarrow> g client s = Inr (s', evs) \<longrightarrow> P s') \<and> preserves P hs"
  by (auto simp: preserves_def)

lemma preserves_command:
  "preserves P hs \<Longrightarrow> HandleModemCommand hs client cmd s = Inr (Some (s', evs)) \<Longrightarrow> P s \<Longrightarrow> P s'"
  unfolding preserves_def using handler_outcome [of hs client cmd s "(s', evs)"] by blast

text \<open>Every response that reaches a client ends in a carriage return.\<close>

lemma SendCommandResponse_terminated:
  "Response c s \<in> set (SendCommandResponse client response) \<Longrightarrow> c = client \<and> s \<noteq> [] \<and> last s = CHR 0x0D"
  by (auto simp: SendCommandResponse_def split: if_splits)

end
