(* ===== verification/Modem_Channel.thy ===== *)
theory Modem_Channel
  imports Modem_Service
begin

text \<open>
  The channels of the modem simulator (\<open>host/commands/modem_simulator/channel_monitor.{h,cpp}\<close>, \<open>client.{h,cc}\<close>): the
  connected clients, how the bytes they send are cut into commands, and the loop that waits for them.  The modem behind
  the channels is only known by the interface of \<open>virtual_modem_simulator.h\<close>, the record \<open>virtual_modem\<close>.

  The operating system is an argument: what \<open>Select\<close> reports and what \<open>Read\<close> gives in each round of the loop.
  Clients are known by their ids; each has a file descriptor object of its own, so that \<open>Client::operator==\<close>
  compares ids.  What is written to a client is appended to the list \<open>written\<close>.
\<close>

section \<open>Clients and the modem behind them\<close>

record chan_client =
  handle :: client
  incomplete_command :: string
  first_read_command :: bool
  is_valid :: bool
  fd_open :: bool

definition chan_id :: "chan_client \<Rightarrow> nat" where
  "chan_id c = client_id (handle c)"

definition Client :: "nat \<Rightarrow> client_type \<Rightarrow> chan_client" where
  "Client i t =
     \<lparr>handle = \<lparr>client_id = i, client_type = t\<rparr>, incomplete_command = [], first_read_command = False,
      is_valid = True, fd_open = True\<rparr>"

text \<open>The first argument of \<open>DispatchCommand\<close> is the id that the next client gets, should the modem add one.\<close>

record 'm virtual_modem =
  DispatchCommand :: "nat \<Rightarrow> client \<Rightarrow> string \<Rightarrow> 'm \<Rightarrow> 'm outcome"
  OnFirstClientConnected :: "'m \<Rightarrow> 'm outcome"
  IsWaitingSmsPdu :: "'m \<Rightarrow> bool"

record 'm channel_monitor =
  modem :: 'm
  clients :: "chan_client list"
  remote_clients :: "chan_client list"
  next_client_id :: nat
  written :: "(nat \<times> string) list"

section \<open>What the modem asks of the channels\<close>

definition write_client :: "nat \<Rightarrow> string \<Rightarrow> 'm channel_monitor \<Rightarrow> 'm channel_monitor" where
  \<comment> \<open>\<open>Client::SendCommandResponse\<close>\<close>
  "write_client i response mon =
     (if response = [] then mon
      else mon\<lparr>written := written mon @
             [(i, if last response \<noteq> CHR 0x0D then response @ [CHR 0x0D] else response)]\<rparr>)"

definition monitor_SendUnsolicitedCommand :: "string \<Rightarrow> 'm channel_monitor \<Rightarrow> 'm channel_monitor" where
  "monitor_SendUnsolicitedCommand response mon =
     (case clients mon of [] \<Rightarrow> mon | c # _ \<Rightarrow> write_client (chan_id c) response mon)"

definition monitor_SendRemoteCommand :: "nat \<Rightarrow> string \<Rightarrow> 'm channel_monitor \<Rightarrow> 'm channel_monitor" where
  "monitor_SendRemoteCommand i response mon =
     (case find (\<lambda>c. chan_id c = i) (remote_clients mon) of
        None \<Rightarrow> mon | Some c \<Rightarrow> write_client (chan_id c) response mon)"

fun close_first :: "nat \<Rightarrow> chan_client list \<Rightarrow> chan_client list" where
  "close_first i [] = []"
| "close_first i (c # cs) =
     (if chan_id c = i then c\<lparr>fd_open := False, is_valid := False\<rparr> # cs else c # close_first i cs)"

definition monitor_CloseRemoteConnection :: "nat \<Rightarrow> 'm channel_monitor \<Rightarrow> 'm channel_monitor" where
  "monitor_CloseRemoteConnection i mon = mon\<lparr>remote_clients := close_first i (remote_clients mon)\<rparr>"

text \<open>\<open>SetRemoteClient\<close> for a connection that this device made, which is open\<close>

definition add_remote :: "'m channel_monitor \<Rightarrow> 'm channel_monitor" where
  "add_remote mon =
     mon\<lparr>remote_clients := remote_clients mon @ [Client (next_client_id mon) REMOTE],
         next_client_id := next_client_id mon + 1\<rparr>"

fun deliver :: "event \<Rightarrow> 'm channel_monitor \<Rightarrow> 'm channel_monitor" where
  "deliver (Response c s) mon = write_client (client_id c) s mon"
| "deliver (Unsolicited s) mon = monitor_SendUnsolicitedCommand s mon"
| "deliver (AddRemote i port) mon = add_remote mon"
| "deliver (RemoteCommand i s) mon = monitor_SendRemoteCommand i s mon"
| "deliver (CloseRemote i) mon = monitor_CloseRemoteConnection i mon"
| "deliver _ mon = mon"  \<comment> \<open>what does not go through the channels\<close>

definition deliver_all :: "'m \<times> event list \<Rightarrow> 'm channel_monitor \<Rightarrow> 'm channel_monitor" where
  "deliver_all r mon = fold deliver (snd r) (mon\<lparr>modem := fst r\<rparr>)"

section \<open>Cutting the input into commands\<close>

definition dispatch :: "'m virtual_modem \<Rightarrow> client \<Rightarrow> string \<Rightarrow> 'm channel_monitor \<Rightarrow> 'm channel_monitor result" where
  "dispatch vm c command mon =
     rbind (DispatchCommand vm (next_client_id mon) c command (modem mon)) (\<lambda>r. Inr (deliver_all r mon))"

definition terminator :: "'m virtual_modem \<Rightarrow> 'm channel_monitor \<Rightarrow> char" where
  "terminator vm mon = (if IsWaitingSmsPdu vm (modem mon) then CHR 0x1A else CHR 0x0D)"

text \<open>The loop of \<open>ReadCommand\<close>, from a position on; it gives what is left of the text, the incomplete command.\<close>

function split_commands ::
    "'m virtual_modem \<Rightarrow> client \<Rightarrow> string \<Rightarrow> 'm channel_monitor \<Rightarrow> (string \<times> 'm channel_monitor) result" where
  "split_commands vm c commands mon =
     (case find_char (terminator vm mon) commands of
        None \<Rightarrow> Inr (commands, mon)
      | Some n \<Rightarrow>
          rbind (if n = 0 then Inr mon else dispatch vm c (take n commands) mon) (\<lambda>mon.
            split_commands vm c (drop (n + 1) commands) mon))"
  by pat_completeness auto
termination
  by (relation "measure (\<lambda>(vm, c, commands, mon). length commands)")
    (auto dest: find_char_SomeD)

declare split_commands.simps [simp del]

fun erase_client :: "nat \<Rightarrow> chan_client list \<Rightarrow> chan_client list" where
  \<comment> \<open>\<open>find_if\<close> and \<open>erase\<close>\<close>
  "erase_client i [] = []"
| "erase_client i (c # cs) = (if chan_id c = i then cs else c # erase_client i cs)"

text \<open>
  \<open>ReadCommand\<close>, when \<open>Read\<close> gives some bytes, or none (\<open>[]\<close>: the end, or an error, with \<open>again\<close> for \<open>EAGAIN\<close>).
  \<open>StrReplaceAll\<close> is \<open>absl::StrReplaceAll\<close> for the replacement of a line feed by a carriage return.  The client is a
  value; its new value is part of the result.
\<close>

definition ReadCommand ::
    "'m virtual_modem \<Rightarrow> (string \<Rightarrow> string) \<Rightarrow> chan_client \<Rightarrow> string \<Rightarrow> bool \<Rightarrow> 'm channel_monitor \<Rightarrow>
     (chan_client \<times> 'm channel_monitor) result" where
  "ReadCommand vm StrReplaceAll c buffer again mon =
     (if buffer = [] then
        if again \<and> client_type (handle c) = REMOTE \<and> first_read_command c then Inr (c, mon)
        else Inr (c\<lparr>fd_open := False\<rparr>,
                  if client_type (handle c) = REMOTE
                  then mon\<lparr>remote_clients := erase_client (chan_id c) (remote_clients mon)\<rparr>
                  else mon\<lparr>clients := erase_client (chan_id c) (clients mon)\<rparr>)
      else rbind (split_commands vm (handle c) (StrReplaceAll (incomplete_command c @ buffer)) mon) (\<lambda>(rest, mon).
             Inr (c\<lparr>incomplete_command := rest\<rparr>, mon)))"

text \<open>The client that was read is an element of a list: its incomplete command is stored there.\<close>

definition store_client :: "chan_client \<Rightarrow> chan_client list \<Rightarrow> chan_client list" where
  "store_client c cs =
     map (\<lambda>d. if chan_id d = chan_id c then d\<lparr>incomplete_command := incomplete_command c\<rparr> else d) cs"

definition store :: "chan_client \<Rightarrow> 'm channel_monitor \<Rightarrow> 'm channel_monitor" where
  "store c mon = mon\<lparr>clients := store_client c (clients mon), remote_clients := store_client c (remote_clients mon)\<rparr>"

section \<open>Connections\<close>

definition SetRemoteClient ::
    "'m virtual_modem \<Rightarrow> (string \<Rightarrow> string) \<Rightarrow> string \<Rightarrow> bool \<Rightarrow> 'm channel_monitor \<Rightarrow> 'm channel_monitor result" where
  \<comment> \<open>with a connection that was accepted, and what is read from it at once\<close>
  "SetRemoteClient vm StrReplaceAll buffer again mon =
     (let c = (Client (next_client_id mon) REMOTE)\<lparr>first_read_command := True\<rparr>;
          mon = mon\<lparr>next_client_id := next_client_id mon + 1\<rparr>
      in rbind (ReadCommand vm StrReplaceAll c buffer again mon) (\<lambda>(c, mon).
           Inr (if fd_open c then mon\<lparr>remote_clients := remote_clients mon @ [c\<lparr>first_read_command := False\<rparr>]\<rparr> else mon)))"

definition AcceptIncomingConnection ::
    "'m virtual_modem \<Rightarrow> bool \<Rightarrow> 'm channel_monitor \<Rightarrow> 'm channel_monitor result" where
  "AcceptIncomingConnection vm is_open mon =
     (if \<not> is_open then Inr mon
      else let mon = mon\<lparr>clients := clients mon @ [Client (next_client_id mon) RIL],
                         next_client_id := next_client_id mon + 1\<rparr>
           in if length (clients mon) = 1
              then rbind (OnFirstClientConnected vm (modem mon)) (\<lambda>r. Inr (deliver_all r mon))
              else Inr mon)"

definition removeInvalidClients :: "chan_client list \<Rightarrow> chan_client list" where
  "removeInvalidClients cs = filter is_valid cs"

section \<open>The loop\<close>

record ready_fds =
  server_ready :: "bool option"  \<comment> \<open>a connection waits, and whether \<open>Accept\<close> gives an open descriptor\<close>
  pipe_ready :: "string option"  \<comment> \<open>what is read from the pipe\<close>
  client_ready :: "nat \<Rightarrow> (string \<times> bool) option"  \<comment> \<open>what is read from the clients that have input\<close>

datatype select_result = SelectError | SelectNone | SelectReady ready_fds

text \<open>
  The range-based loops over the two vectors of clients: \<open>all\<close> are the ids in the vector when the loop starts.  A call
  that erases from the vector, or appends to it, invalidates the iterators of the loop.
\<close>

fun read_clients ::
    "'m virtual_modem \<Rightarrow> (string \<Rightarrow> string) \<Rightarrow> (nat \<Rightarrow> (string \<times> bool) option) \<Rightarrow>
     ('m channel_monitor \<Rightarrow> chan_client list) \<Rightarrow> nat list \<Rightarrow> nat list \<Rightarrow> 'm channel_monitor \<Rightarrow> 'm channel_monitor result" where
  "read_clients vm StrReplaceAll ready vector all [] mon = Inr mon"
| "read_clients vm StrReplaceAll ready vector all (i # is) mon =
     (case (ready i, find (\<lambda>c. chan_id c = i) (vector mon)) of
        (Some (buffer, again), Some c) \<Rightarrow>
          rbind (ReadCommand vm StrReplaceAll c buffer again mon) (\<lambda>(c, mon).
            if map chan_id (vector mon) = all then read_clients vm StrReplaceAll ready vector all is (store c mon)
            else Inl (UndefinedBehaviour ''use of an invalidated iterator''))
      | _ \<Rightarrow> read_clients vm StrReplaceAll ready vector all is mon)"

text \<open>One round with descriptors that are ready; the result tells whether the loop ends.\<close>

definition monitor_round ::
    "'m virtual_modem \<Rightarrow> (string \<Rightarrow> string) \<Rightarrow> ready_fds \<Rightarrow> 'm channel_monitor \<Rightarrow> (bool \<times> 'm channel_monitor) result" where
  "monitor_round vm StrReplaceAll r mon =
     rbind (case server_ready r of None \<Rightarrow> Inr mon | Some ok \<Rightarrow> AcceptIncomingConnection vm ok mon) (\<lambda>mon.
       if pipe_ready r = Some ''KO'' then Inr (True, mon)
       else let mon = (if pipe_ready r = None then mon
                       else mon\<lparr>clients := removeInvalidClients (clients mon),
                                remote_clients := removeInvalidClients (remote_clients mon)\<rparr>);
                ids = map chan_id (clients mon)
            in rbind (read_clients vm StrReplaceAll (client_ready r) clients ids ids mon) (\<lambda>mon.
               let ids = map chan_id (remote_clients mon)
               in rbind (read_clients vm StrReplaceAll (client_ready r) remote_clients ids ids mon) (\<lambda>mon.
                  Inr (False, mon))))"

fun MonitorLoop ::
    "'m virtual_modem \<Rightarrow> (string \<Rightarrow> string) \<Rightarrow> select_result list \<Rightarrow> 'm channel_monitor \<Rightarrow> 'm channel_monitor result" where
  \<comment> \<open>for the results of \<open>Select\<close>, one after another\<close>
  "MonitorLoop vm StrReplaceAll [] mon = Inr mon"
| "MonitorLoop vm StrReplaceAll (SelectError # rs) mon = Inr mon"
| "MonitorLoop vm StrReplaceAll (SelectNone # rs) mon = MonitorLoop vm StrReplaceAll rs mon"
| "MonitorLoop vm StrReplaceAll (SelectReady r # rs) mon =
     rbind (monitor_round vm StrReplaceAll r mon) (\<lambda>(stop, mon).
       if stop then Inr mon else MonitorLoop vm StrReplaceAll rs mon)"

section \<open>Chunks\<close>

lemma find_char_append: "find_char c s = Some n \<Longrightarrow> find_char c (s @ t) = Some n"
  by (auto simp: find_char_def takeWhile_append split: if_splits)

text \<open>Text that arrives later can be cut later.\<close>

lemma split_commands_append:
  "split_commands vm c (s @ t) mon = rbind (split_commands vm c s mon) (\<lambda>(rest, mon). split_commands vm c (rest @ t) mon)"
proof (induction vm c s mon rule: split_commands.induct)
  case (1 vm c s mon)
  show ?case
  proof (cases "find_char (terminator vm mon) s")
    case None
    then show ?thesis by (simp add: split_commands.simps [of vm c s])
  next
    case (Some n)
    then have n: "n < length s" by (auto dest: find_char_SomeD)
    define first where "first = (if n = 0 then Inr mon else dispatch vm c (take n s) mon)"
    have "split_commands vm c (s @ t) mon = rbind first (split_commands vm c (drop (n + 1) s @ t))"
      using n Some by (simp add: split_commands.simps [of vm c "s @ t"] find_char_append first_def)
    also have "\<dots> = rbind first (\<lambda>mon. rbind (split_commands vm c (drop (n + 1) s) mon)
        (\<lambda>(rest, mon). split_commands vm c (rest @ t) mon))"
      using 1 [OF Some] by (cases first) simp_all
    also have "\<dots> = rbind (split_commands vm c s mon) (\<lambda>(rest, mon). split_commands vm c (rest @ t) mon)"
      using Some by (simp add: split_commands.simps [of vm c s] first_def rbind_assoc)
    finally show ?thesis .
  qed
qed

lemma split_commands_rest:
  "split_commands vm c s mon = Inr (rest, mon') \<Longrightarrow> set rest \<subseteq> set s"
proof (induction vm c s mon rule: split_commands.induct)
  case (1 vm c s mon)
  show ?case
  proof (cases "find_char (terminator vm mon) s")
    case None
    with "1.prems" show ?thesis by (simp add: split_commands.simps [of vm c s])
  next
    case (Some n)
    with "1.prems" obtain mon1 where "split_commands vm c (drop (n + 1) s) mon1 = Inr (rest, mon')"
      by (auto simp: split_commands.simps [of vm c s] rbind_eq_Inr)
    from "1.IH" [OF Some this] show ?thesis using set_drop_subset by fastforce
  qed
qed

definition replaces_newlines :: "(string \<Rightarrow> string) \<Rightarrow> bool" where
  \<comment> \<open>what \<open>absl::StrReplaceAll\<close> is documented to do with the pair of a line feed and a carriage return\<close>
  "replaces_newlines f \<longleftrightarrow> (\<forall>s. f s = map (\<lambda>c. if c = CHR 0x0A then CHR 0x0D else c) s)"

text \<open>Reading one chunk after another\<close>

fun read_chunks ::
    "'m virtual_modem \<Rightarrow> (string \<Rightarrow> string) \<Rightarrow> chan_client \<Rightarrow> string list \<Rightarrow> 'm channel_monitor \<Rightarrow>
     (chan_client \<times> 'm channel_monitor) result" where
  "read_chunks vm StrReplaceAll c [] mon = Inr (c, mon)"
| "read_chunks vm StrReplaceAll c (x # xs) mon =
     rbind (ReadCommand vm StrReplaceAll c x False mon) (\<lambda>(c, mon). read_chunks vm StrReplaceAll c xs mon)"

lemma ReadCommand_append:
  assumes "replaces_newlines repl" and "x \<noteq> []" and "y \<noteq> []"
  shows "ReadCommand vm repl c (x @ y) again mon =
    rbind (ReadCommand vm repl c x again mon) (\<lambda>(c, mon). ReadCommand vm repl c y again mon)"
proof -
  have repl: "repl (a @ b) = repl a @ repl b" for a b using assms(1) by (simp add: replaces_newlines_def)
  have rest: "repl rest = rest" if "split_commands vm (handle c) (repl s) mon = Inr (rest, mon')" for s rest mon'
    using split_commands_rest [OF that] assms(1) unfolding replaces_newlines_def
    by (auto intro!: map_idI split: if_splits)
  show ?thesis
  proof (cases "split_commands vm (handle c) (repl (incomplete_command c @ x)) mon")
    case (Inl e)
    then show ?thesis
      using assms(2,3) split_commands_append [of vm "handle c" "repl (incomplete_command c @ x)" "repl y" mon]
      by (simp add: ReadCommand_def repl)
  next
    case (Inr r)
    obtain s mon1 where r: "r = (s, mon1)" by (cases r)
    then show ?thesis
      using assms(2,3) split_commands_append [of vm "handle c" "repl (incomplete_command c @ x)" "repl y" mon] Inr
        rest [of "incomplete_command c @ x" s mon1] by (simp add: ReadCommand_def repl)
  qed
qed

text \<open>
  C9. How the input of a client is divided among the reads makes no difference: reading chunk by chunk dispatches the same
  commands in the same order, and leaves the same incomplete command, as reading all of it at once.  This holds although
  the end of a command depends on the state of the modem after the previous one (a PDU ends with control-Z, any other
  command with a line end).
\<close>
theorem chunks_equivalent:
  assumes "replaces_newlines StrReplaceAll" and "chunks \<noteq> []" and "\<forall>x \<in> set chunks. x \<noteq> []"
  shows "read_chunks vm StrReplaceAll c chunks mon = ReadCommand vm StrReplaceAll c (concat chunks) False mon"
  using assms(2,3)
proof (induction chunks arbitrary: c mon)
  case (Cons x xs)
  show ?case
  proof (cases "xs = []")
    case True
    then show ?thesis by (simp add: rbind_def split: sum.splits)
  next
    case False
    then have "concat xs \<noteq> []" using Cons.prems by (cases xs) auto
    then show ?thesis
      using Cons False ReadCommand_append [OF assms(1), of x "concat xs" vm c False mon] by (simp add: case_prod_unfold)
  qed
qed simp

definition crlf :: "string \<Rightarrow> string" where
  "crlf s = map (\<lambda>c. if c = CHR 0x0A then CHR 0x0D else c) s"

text \<open>A modem that keeps the commands it gets, and takes a message after \<open>AT+CMGS\<close>\<close>

definition echo_modem :: "string list virtual_modem" where
  "echo_modem =
     \<lparr>DispatchCommand = (\<lambda>_ _ cmd m. Inr (m @ [cmd], [])), OnFirstClientConnected = (\<lambda>m. Inr (m, [])),
      IsWaitingSmsPdu = (\<lambda>m. m \<noteq> [] \<and> take 7 (last m) = ''AT+CMGS'')\<rparr>"

definition echo_monitor :: "string list channel_monitor" where
  "echo_monitor = \<lparr>modem = [], clients = [Client 0 RIL], remote_clients = [], next_client_id = 1, written = []\<rparr>"

theorem chunks_equivalent_witness:
  "\<exists>c mon. read_chunks echo_modem crlf (Client 0 RIL)
       [''AT+CM'', ''GS=5'' @ [CHR 0x0A] @ ''00'', ''11'' @ [CHR 0x1A] @ ''AT'' @ [CHR 0x0D]] echo_monitor = Inr (c, mon) \<and>
     modem mon = [''AT+CMGS=5'', ''0011'', ''AT''] \<and> incomplete_command c = []"
proof -
  let ?chunks = "[''AT+CM'', ''GS=5'' @ [CHR 0x0A] @ ''00'', ''11'' @ [CHR 0x1A] @ ''AT'' @ [CHR 0x0D]]"
  have "replaces_newlines crlf" by (simp add: replaces_newlines_def crlf_def)
  from chunks_equivalent [OF this, of ?chunks echo_modem "Client 0 RIL" echo_monitor]
  have "read_chunks echo_modem crlf (Client 0 RIL) ?chunks echo_monitor =
      ReadCommand echo_modem crlf (Client 0 RIL) (concat ?chunks) False echo_monitor" by simp
  moreover have "map_sum id (\<lambda>(c, mon). (modem mon, incomplete_command c))
      (ReadCommand echo_modem crlf (Client 0 RIL) (concat ?chunks) False echo_monitor) =
      Inr ([''AT+CMGS=5'', ''0011'', ''AT''], [])" by code_simp
  ultimately show ?thesis
    by (cases "ReadCommand echo_modem crlf (Client 0 RIL) (concat ?chunks) False echo_monitor") auto
qed

section \<open>What every round keeps\<close>

text \<open>A property of the channels that each single change keeps is kept by the loop.\<close>

locale channel_invariant =
  fixes vm :: "'m virtual_modem" and Q :: "'m channel_monitor \<Rightarrow> bool"
  assumes dispatch_keeps: "Q mon \<Longrightarrow> dispatch vm c cmd mon = Inr mon' \<Longrightarrow> Q mon'"
    and accept_keeps: "Q mon \<Longrightarrow> AcceptIncomingConnection vm ok mon = Inr mon' \<Longrightarrow> Q mon'"
    and erase_keeps: "Q mon \<Longrightarrow> Q (mon\<lparr>clients := erase_client i (clients mon)\<rparr>)"
      "Q mon \<Longrightarrow> Q (mon\<lparr>remote_clients := erase_client i (remote_clients mon)\<rparr>)"
    and remove_keeps: "Q mon \<Longrightarrow> Q (mon\<lparr>clients := removeInvalidClients (clients mon),
      remote_clients := removeInvalidClients (remote_clients mon)\<rparr>)"
    and store_keeps: "Q mon \<Longrightarrow> Q (store d mon)"
begin

lemma split_keeps: "split_commands vm c s mon = Inr (rest, mon') \<Longrightarrow> Q mon \<Longrightarrow> Q mon'"
proof (induction s arbitrary: mon rule: length_induct)
  case (1 s)
  show ?case
  proof (cases "find_char (terminator vm mon) s")
    case None
    with "1.prems" show ?thesis by (simp add: split_commands.simps [of vm c s])
  next
    case (Some n)
    then have "length (drop (n + 1) s) < length s" by (auto dest: find_char_SomeD)
    moreover from "1.prems"(1) Some obtain mon1
      where "(if n = 0 then Inr mon else dispatch vm c (take n s) mon) = Inr mon1"
        and "split_commands vm c (drop (n + 1) s) mon1 = Inr (rest, mon')"
      by (auto simp: split_commands.simps [of vm c s] rbind_eq_Inr)
    moreover from this(1) have "Q mon1" using "1.prems"(2) dispatch_keeps by (auto split: if_splits)
    ultimately show ?thesis using "1.IH" by blast
  qed
qed

lemma ReadCommand_keeps: "ReadCommand vm repl c buffer again mon = Inr (c', mon') \<Longrightarrow> Q mon \<Longrightarrow> Q mon'"
  using split_keeps erase_keeps by (auto simp: ReadCommand_def rbind_eq_Inr split: if_splits)

lemma read_clients_keeps: "read_clients vm repl ready vector all is mon = Inr mon' \<Longrightarrow> Q mon \<Longrightarrow> Q mon'"
proof (induction "is" arbitrary: mon)
  case (Cons i "is")
  then show ?case
    using ReadCommand_keeps store_keeps
    by (auto simp: rbind_eq_Inr split: option.splits prod.splits if_splits)
qed simp

lemma monitor_round_keeps:
  assumes "monitor_round vm repl r mon = Inr (stop, mon')" and "Q mon"
  shows "Q mon'"
proof -
  from assms(1) obtain mon1
    where "(case server_ready r of None \<Rightarrow> Inr mon | Some ok \<Rightarrow> AcceptIncomingConnection vm ok mon) = Inr mon1"
    by (auto simp: monitor_round_def rbind_eq_Inr)
  moreover from this have "Q mon1" using assms(2) accept_keeps by (auto split: option.splits)
  ultimately show ?thesis
    using assms(1) remove_keeps [of mon1] read_clients_keeps
    by (auto simp: monitor_round_def rbind_eq_Inr Let_def split: if_splits)
qed

lemma MonitorLoop_keeps: "MonitorLoop vm repl rs mon = Inr mon' \<Longrightarrow> Q mon \<Longrightarrow> Q mon'"
proof (induction rs arbitrary: mon)
  case (Cons r rs)
  then show ?case
    using monitor_round_keeps by (cases r) (auto simp: rbind_eq_Inr split: if_splits)
qed simp

end

section \<open>The clients are well-formed\<close>

text \<open>Ids are unique, and each of the two lists has the clients of its type.\<close>

definition monitor_wf :: "'m channel_monitor \<Rightarrow> bool" where
  "monitor_wf mon \<longleftrightarrow>
     distinct (map chan_id (clients mon @ remote_clients mon)) \<and>
     (\<forall>c \<in> set (clients mon @ remote_clients mon). chan_id c < next_client_id mon) \<and>
     (\<forall>c \<in> set (clients mon). client_type (handle c) = RIL) \<and>
     (\<forall>c \<in> set (remote_clients mon). client_type (handle c) = REMOTE)"

lemma chan_Client [simp]: "chan_id (Client i t) = i" "client_type (handle (Client i t)) = t" "fd_open (Client i t)"
  by (simp_all add: chan_id_def Client_def)

lemma chan_id_update [simp]:
  "chan_id (c\<lparr>incomplete_command := s\<rparr>) = chan_id c" "chan_id (c\<lparr>fd_open := b\<rparr>) = chan_id c"
  "chan_id (c\<lparr>is_valid := b\<rparr>) = chan_id c" "chan_id (c\<lparr>first_read_command := b\<rparr>) = chan_id c"
  by (simp_all add: chan_id_def)

lemma close_first_map:
  "map chan_id (close_first i cs) = map chan_id cs" "map handle (close_first i cs) = map handle cs"
  by (induction cs) (auto simp: chan_id_def)

lemma store_client_map:
  "map chan_id (store_client c cs) = map chan_id cs" "map handle (store_client c cs) = map handle cs"
  by (auto simp: store_client_def)

text \<open>The ids, types and the next id are all that matters.\<close>

definition outline :: "'m channel_monitor \<Rightarrow> client list \<times> client list \<times> nat" where
  "outline mon = (map handle (clients mon), map handle (remote_clients mon), next_client_id mon)"

lemma monitor_wf_outline: "outline mon = outline mon' \<Longrightarrow> monitor_wf mon = monitor_wf mon'"
proof -
  have wf: "monitor_wf mon = (case outline mon of (cs, rs, n) \<Rightarrow> distinct (map client_id (cs @ rs)) \<and>
      (\<forall>h \<in> set (cs @ rs). client_id h < n) \<and> (\<forall>h \<in> set cs. client_type h = RIL) \<and> (\<forall>h \<in> set rs. client_type h = REMOTE))"
    for mon :: "'m channel_monitor"
    by (simp add: monitor_wf_def outline_def chan_id_def [abs_def] comp_def image_image ball_Un)
  show "outline mon = outline mon' \<Longrightarrow> monitor_wf mon = monitor_wf mon'" unfolding wf by simp
qed

lemma write_client_outline [simp]: "outline (write_client i s mon) = outline mon"
  by (simp add: write_client_def outline_def)

lemma monitor_outline [simp]:
  "outline (monitor_SendUnsolicitedCommand s mon) = outline mon"
  "outline (monitor_SendRemoteCommand i s mon) = outline mon"
  "outline (monitor_CloseRemoteConnection i mon) = outline mon"
  by (simp_all add: monitor_SendUnsolicitedCommand_def monitor_SendRemoteCommand_def split: list.splits option.splits)
    (simp add: monitor_CloseRemoteConnection_def outline_def close_first_map)

lemma deliver_outline:
  "outline (deliver ev mon) = outline mon \<or> outline (deliver ev mon) = outline (add_remote mon)"
  by (cases ev) simp_all

lemma add_remote_wf: "monitor_wf mon \<Longrightarrow> monitor_wf (add_remote mon)"
  by (auto simp: monitor_wf_def add_remote_def less_Suc_eq)

lemma deliver_wf: "monitor_wf mon \<Longrightarrow> monitor_wf (deliver ev mon)"
  using deliver_outline [of ev mon] add_remote_wf monitor_wf_outline by metis

lemma fold_deliver_wf: "monitor_wf mon \<Longrightarrow> monitor_wf (fold deliver evs mon)"
  by (induction evs arbitrary: mon) (auto intro: deliver_wf)

lemma deliver_all_wf: "monitor_wf mon \<Longrightarrow> monitor_wf (deliver_all r mon)"
  unfolding deliver_all_def by (rule fold_deliver_wf) (simp add: monitor_wf_def)

lemma erase_client_set: "set (erase_client i cs) \<subseteq> set cs"
  by (induction cs) auto

lemma erase_client_distinct: "distinct (map chan_id cs) \<Longrightarrow> distinct (map chan_id (erase_client i cs))"
  using erase_client_set by (induction cs) force+

interpretation wf: channel_invariant vm monitor_wf for vm :: "'m virtual_modem"
proof
  fix mon mon' :: "'m channel_monitor" and c :: client and cmd ok i d
  assume wf: "monitor_wf mon"
  show "dispatch vm c cmd mon = Inr mon' \<Longrightarrow> monitor_wf mon'"
    using wf by (auto simp: dispatch_def rbind_eq_Inr intro: deliver_all_wf)
  have "monitor_wf (mon\<lparr>clients := clients mon @ [Client (next_client_id mon) RIL], next_client_id := next_client_id mon + 1\<rparr>)"
    using wf by (auto simp: monitor_wf_def less_Suc_eq)
  with wf show "AcceptIncomingConnection vm ok mon = Inr mon' \<Longrightarrow> monitor_wf mon'"
    by (auto simp: AcceptIncomingConnection_def Let_def rbind_eq_Inr intro: deliver_all_wf split: if_splits)
  show "monitor_wf (mon\<lparr>clients := erase_client i (clients mon)\<rparr>)"
    "monitor_wf (mon\<lparr>remote_clients := erase_client i (remote_clients mon)\<rparr>)"
    using wf erase_client_set [of i "clients mon"] erase_client_set [of i "remote_clients mon"]
    by (auto simp: monitor_wf_def erase_client_distinct)
  show "monitor_wf (mon\<lparr>clients := removeInvalidClients (clients mon),
      remote_clients := removeInvalidClients (remote_clients mon)\<rparr>)"
    using wf by (auto simp: monitor_wf_def removeInvalidClients_def distinct_map_filter)
  have "outline (store d mon) = outline mon" by (simp add: outline_def store_def store_client_map)
  from monitor_wf_outline [OF this] wf show "monitor_wf (store d mon)" by simp
qed

text \<open>
  C39. Whatever the modem does and whatever is read, in every round the clients stay well-formed: no two clients have the
  same id, the clients of the radio interface and those of other devices stay apart, and new ids are fresh.
\<close>
theorem MonitorLoop_wf:
  assumes "MonitorLoop vm StrReplaceAll rs mon = Inr mon'" and "monitor_wf mon"
  shows "monitor_wf mon'"
  using assms by (rule wf.MonitorLoop_keeps)

theorem MonitorLoop_wf_witness:
  "\<exists>mon'. MonitorLoop echo_modem crlf
       [SelectReady \<lparr>server_ready = Some True, pipe_ready = None, client_ready = [0 \<mapsto> (''AT'' @ [CHR 0x0D], False)]\<rparr>]
       echo_monitor = Inr mon' \<and> monitor_wf mon' \<and> map chan_id (clients mon') = [0, 1]"
proof -
  let ?r = "\<lparr>server_ready = Some True, pipe_ready = None, client_ready = [0 \<mapsto> (''AT'' @ [CHR 0x0D], False)]\<rparr>"
  have "map_sum id (\<lambda>mon. map chan_id (clients mon)) (MonitorLoop echo_modem crlf [SelectReady ?r] echo_monitor) = Inr [0, 1]"
    by code_simp
  then obtain mon' where run: "MonitorLoop echo_modem crlf [SelectReady ?r] echo_monitor = Inr mon'"
    and "map chan_id (clients mon') = [0, 1]"
    by (cases "MonitorLoop echo_modem crlf [SelectReady ?r] echo_monitor") auto
  moreover have "monitor_wf echo_monitor" by (simp add: monitor_wf_def echo_monitor_def)
  ultimately show ?thesis using MonitorLoop_wf [OF run] by (intro exI [of _ mon']) simp
qed

section \<open>A client that disconnects\<close>

lemma find_first: "\<forall>d \<in> set xs. \<not> P d \<Longrightarrow> P c \<Longrightarrow> find P (xs @ c # ys) = Some c"
  by (induction xs) auto

text \<open>
  C40. When a client of the radio interface disconnects, the round of the loop in which this is noticed is undefined
  behaviour: \<open>ReadCommand\<close> erases the client from the vector over which the loop runs.
\<close>
theorem disconnect_undefined:
  assumes "monitor_wf mon" and "c \<in> set (clients mon)" and "client_ready r (chan_id c) = Some ([], again)"
    and "server_ready r = None" and "pipe_ready r = None"
    and "\<forall>d \<in> set (clients mon). d \<noteq> c \<longrightarrow> client_ready r (chan_id d) = None"
  shows "MonitorLoop vm StrReplaceAll (SelectReady r # rs) mon = Inl (UndefinedBehaviour ''use of an invalidated iterator'')"
proof -
  have inj: "inj_on chan_id (set (clients mon))" "client_type (handle c) = RIL"
    using assms(1,2) by (auto simp: monitor_wf_def distinct_map)
  have quiet: "read_clients vm StrReplaceAll (client_ready r) clients all (is @ js) mon =
      read_clients vm StrReplaceAll (client_ready r) clients all js mon"
    if "\<forall>i \<in> set is. client_ready r i = None" for "is" js all
    using that by (induction "is") auto
  obtain xs ys where xs: "clients mon = xs @ c # ys" using assms(2) by (auto simp: in_set_conv_decomp)
  then have c: "c \<notin> set xs" using assms(1) by (auto simp: monitor_wf_def)
  have "find (\<lambda>d. chan_id d = chan_id c) (clients mon) = Some c"
    using inj(1) c unfolding xs by (intro find_first) (auto simp: inj_on_def)
  moreover have "length (erase_client i cs) < length cs" if "i \<in> chan_id ` set cs" for i and cs :: "chan_client list"
    using that by (induction cs) auto
  then have "map chan_id (erase_client (chan_id c) (clients mon)) \<noteq> map chan_id (clients mon)"
    using assms(2) by (metis imageI length_map less_irrefl)
  moreover have "\<forall>i \<in> set (map chan_id xs). client_ready r i = None" using assms(6) c by (auto simp: xs)
  from quiet [OF this, of "map chan_id (clients mon)" "map chan_id (c # ys)"]
  have "read_clients vm StrReplaceAll (client_ready r) clients (map chan_id (clients mon)) (map chan_id (clients mon)) mon =
      read_clients vm StrReplaceAll (client_ready r) clients (map chan_id (clients mon)) (map chan_id (c # ys)) mon"
    by (simp add: xs)
  ultimately show ?thesis
    using assms(3-5) inj(2) by (simp add: monitor_round_def Let_def ReadCommand_def)
qed

theorem disconnect_undefined_witness:
  "MonitorLoop echo_modem crlf [SelectReady \<lparr>server_ready = None, pipe_ready = None, client_ready = [0 \<mapsto> ([], False)]\<rparr>]
     echo_monitor = Inl (UndefinedBehaviour ''use of an invalidated iterator'')"
  using disconnect_undefined [of echo_monitor "Client 0 RIL"
      "\<lparr>server_ready = None, pipe_ready = None, client_ready = [0 \<mapsto> ([], False)]\<rparr>" False]
  by (simp add: monitor_wf_def echo_monitor_def)

section \<open>What the channels rely on in the modem\<close>

lemma deliver_modem [simp]: "modem (deliver ev mon) = modem mon"
  by (cases ev) (simp_all add: write_client_def monitor_SendUnsolicitedCommand_def monitor_SendRemoteCommand_def add_remote_def
      monitor_CloseRemoteConnection_def split: list.splits option.splits)

lemma fold_deliver_modem [simp]: "modem (fold deliver evs mon) = modem mon"
  by (induction evs arbitrary: mon) simp_all

lemma deliver_all_modem [simp]: "modem (deliver_all r mon) = fst r"
  by (simp add: deliver_all_def)

text \<open>
  The contract of the modem: an invariant that its operations keep, and that a command taken while it waits for a
  message ends the waiting.
\<close>

locale modem_contract =
  fixes vm :: "'m virtual_modem" and inv :: "'m \<Rightarrow> bool"
  assumes dispatch_inv: "inv m \<Longrightarrow> DispatchCommand vm n c cmd m = Inr (m', evs) \<Longrightarrow> inv m'"
    and first_inv: "inv m \<Longrightarrow> OnFirstClientConnected vm m = Inr (m', evs) \<Longrightarrow> inv m'"
    and message_taken: "inv m \<Longrightarrow> IsWaitingSmsPdu vm m \<Longrightarrow> DispatchCommand vm n c cmd m = Inr (m', evs) \<Longrightarrow>
      \<not> IsWaitingSmsPdu vm m'"
begin

text \<open>A message ends at the first control-Z, and what follows is cut at line ends again.\<close>

lemma message_framing:
  assumes "inv (modem mon)" and "IsWaitingSmsPdu vm (modem mon)" and "pdu \<noteq> []" and "CHR 0x1A \<notin> set pdu"
    and "cmd \<noteq> []" and "CHR 0x0D \<notin> set cmd" and "dispatch vm c pdu mon = Inr mon'"
  shows "split_commands vm c (pdu @ [CHR 0x1A] @ cmd @ [CHR 0x0D] @ rest) mon =
    rbind (dispatch vm c cmd mon') (split_commands vm c rest)"
proof -
  from assms(7) obtain m evs where "DispatchCommand vm (next_client_id mon) c pdu (modem mon) = Inr (m, evs)"
    and "modem mon' = m" by (auto simp: dispatch_def rbind_eq_Inr)
  with message_taken [OF assms(1,2)] have "terminator vm mon' = CHR 0x0D" by (auto simp: terminator_def)
  moreover have "terminator vm mon = CHR 0x1A" using assms(2) by (simp add: terminator_def)
  ultimately show ?thesis
    using assms(3-7) by (simp add: split_commands.simps [of vm c "pdu @ t" for t] split_commands.simps [of vm c "cmd @ t" for t])
qed

end

sublocale modem_contract \<subseteq> channel_invariant vm "\<lambda>mon. inv (modem mon)"
proof
  fix mon mon' :: "'m channel_monitor" and c cmd ok i d
  assume inv: "inv (modem mon)"
  show "dispatch vm c cmd mon = Inr mon' \<Longrightarrow> inv (modem mon')"
    using dispatch_inv [OF inv] by (auto simp: dispatch_def rbind_eq_Inr)
  show "AcceptIncomingConnection vm ok mon = Inr mon' \<Longrightarrow> inv (modem mon')"
    using inv first_inv [OF inv] by (auto simp: AcceptIncomingConnection_def Let_def rbind_eq_Inr split: if_splits)
  show "inv (modem (store d mon))" using inv by (simp add: store_def)
qed simp_all

end
