(* ===== verification/Modem_Call.thy ===== *)
theory Modem_Call
  imports Modem_Service
begin

text \<open>
  The call service of the modem simulator, \<open>host/commands/modem_simulator/call_service.{h,cpp}\<close>.  The calls are a
  \<open>std::map\<close> from the call index, in the order of the indices.  The member \<open>is_remote_call\<close> is an option because the
  constructors of \<open>CallStatus\<close> do not initialise it; reading it while it is \<open>None\<close> is undefined behaviour.  What
  the service asks of the network and SIM services, of a connection to another device, of the channel monitor and of
  the looper is in a record that the handlers take.
\<close>

section \<open>Definitions\<close>

datatype call_state =
    CALL_STATE_ACTIVE
  | CALL_STATE_HELD
  | CALL_STATE_DIALING
  | CALL_STATE_ALERTING
  | CALL_STATE_INCOMING
  | CALL_STATE_WAITING
  | CALL_STATE_HANGUP

fun call_state_int :: "call_state \<Rightarrow> int" where
  "call_state_int CALL_STATE_ACTIVE = 0"
| "call_state_int CALL_STATE_HELD = 1"
| "call_state_int CALL_STATE_DIALING = 2"
| "call_state_int CALL_STATE_ALERTING = 3"
| "call_state_int CALL_STATE_INCOMING = 4"
| "call_state_int CALL_STATE_WAITING = 5"
| "call_state_int CALL_STATE_HANGUP = 6"

record call_status =
  call_state :: call_state
  is_mobile_terminated :: bool
  is_international :: bool
  is_voice_mode :: bool
  is_multi_party :: bool
  is_remote_call :: "bool option"
  remote_client :: "nat option"
  timeout_serial :: "int option"
  number :: string
  can_present_number :: bool

definition CallStatus :: "string \<Rightarrow> call_status" where
  "CallStatus num =
     \<lparr>call_state = CALL_STATE_INCOMING, is_mobile_terminated = True, is_international = False, is_voice_mode = True,
      is_multi_party = False, is_remote_call = None, remote_client = None, timeout_serial = None, number = num,
      can_present_number = True\<rparr>"

definition isCallBackground :: "call_status \<Rightarrow> bool" where
  "isCallBackground c \<longleftrightarrow> call_state c = CALL_STATE_HELD"

definition isCallActive :: "call_status \<Rightarrow> bool" where
  "isCallActive c \<longleftrightarrow> call_state c = CALL_STATE_ACTIVE"

definition isCallDialing :: "call_status \<Rightarrow> bool" where
  "isCallDialing c \<longleftrightarrow> call_state c = CALL_STATE_DIALING"

definition isCallIncoming :: "call_status \<Rightarrow> bool" where
  "isCallIncoming c \<longleftrightarrow> call_state c = CALL_STATE_INCOMING"

definition isCallWaiting :: "call_status \<Rightarrow> bool" where
  "isCallWaiting c \<longleftrightarrow> call_state c = CALL_STATE_WAITING"

definition SetCallBackground :: "call_status \<Rightarrow> call_status" where
  "SetCallBackground c =
     (if call_state c = CALL_STATE_ACTIVE then c\<lparr>call_state := CALL_STATE_HELD\<rparr> else c)"

definition SetCallActive :: "call_status \<Rightarrow> call_status" where
  "SetCallActive c =
     (if call_state c = CALL_STATE_INCOMING \<or> call_state c = CALL_STATE_WAITING \<or>
         call_state c = CALL_STATE_DIALING \<or> call_state c = CALL_STATE_HELD
      then c\<lparr>call_state := CALL_STATE_ACTIVE\<rparr> else c)"

record call_service =
  active_calls :: "(int \<times> call_status) list"
  in_emergency_mode :: bool
  mute_on :: bool

text \<open>The constructor and \<open>InitializeServiceState\<close>, with the emergency mode of the NVRAM file\<close>

definition CallService :: "bool \<Rightarrow> call_service" where
  "CallService emergency_mode = \<lparr>active_calls = [], in_emergency_mode = emergency_mode, mute_on = False\<rparr>"

record call_env =
  registration_state :: int  \<comment> \<open>\<open>network_service_->GetVoiceRegistrationState()\<close>\<close>
  radio_off :: bool  \<comment> \<open>\<open>network_service_->isRadioOff()\<close>\<close>
  fdn_enabled :: bool  \<comment> \<open>\<open>sim_service_->IsFDNEnabled()\<close>\<close>
  fixed_dial_number :: "string \<Rightarrow> bool result"  \<comment> \<open>\<open>sim_service_->IsFixedDialNumber(number)\<close>\<close>
  remote_open :: "string \<Rightarrow> bool"  \<comment> \<open>whether \<open>ConnectToRemoteCvd(port)\<close> is open\<close>
  host_id :: int  \<comment> \<open>\<open>DeviceConfig::host_id()\<close>\<close>
  remote_id :: nat  \<comment> \<open>what \<open>channel_monitor_->SetRemoteClient\<close> returns\<close>
  post_serial :: int  \<comment> \<open>what \<open>thread_looper_->Post\<close> returns\<close>
  ConsumePrefix :: "string \<Rightarrow> string \<Rightarrow> string"  \<comment> \<open>\<open>absl::ConsumePrefix\<close>\<close>

definition has_index :: "int \<Rightarrow> (int \<times> call_status) list \<Rightarrow> bool" where
  "has_index index calls \<longleftrightarrow> index \<in> fst ` set calls"

function free_index_from :: "int \<Rightarrow> (int \<times> call_status) list \<Rightarrow> int" where
  "free_index_from index calls = (if has_index index calls then free_index_from (index + 1) calls else index)"
  by pat_completeness auto
termination
proof (relation "measure (\<lambda>(index, calls). card {i \<in> fst ` set calls. index \<le> i})")
  fix index :: int and calls :: "(int \<times> call_status) list"
  assume "has_index index calls"
  then have "index \<in> {i \<in> fst ` set calls. index \<le> i}" by (simp add: has_index_def)
  then have "{i \<in> fst ` set calls. index + 1 \<le> i} \<subset> {i \<in> fst ` set calls. index \<le> i}" by force
  then show "((index + 1, calls), index, calls) \<in> measure (\<lambda>(index, calls). card {i \<in> fst ` set calls. index \<le> i})"
    by (simp add: psubset_card_mono)
qed simp

declare free_index_from.simps [simp del]

definition FindFreeCallIndex :: "(int \<times> call_status) list \<Rightarrow> int" where
  "FindFreeCallIndex calls = free_index_from 1 calls"

text \<open>
  A loop over the calls whose body keeps a call, perhaps changed, or erases it, and may send commands on the way
\<close>

fun each_call ::
    "(call_status \<Rightarrow> (call_status option \<times> event list) result) \<Rightarrow> (int \<times> call_status) list \<Rightarrow>
     ((int \<times> call_status) list \<times> event list) result" where
  "each_call body [] = Inr ([], [])"
| "each_call body ((i, c) # calls) =
     rbind (body c) (\<lambda>(c', evs).
     rbind (each_call body calls) (\<lambda>(calls', evs').
       Inr ((case c' of None \<Rightarrow> calls' | Some c' \<Rightarrow> (i, c') # calls'), evs @ evs')))"

definition SimulatePendingCallsAnswered :: "call_service \<Rightarrow> call_service" where
  "SimulatePendingCallsAnswered s =
     s\<lparr>active_calls := map (\<lambda>(i, c). (i, if isCallDialing c then SetCallActive c else c)) (active_calls s)\<rparr>"

definition CallStateUpdate :: "event list" where
  "CallStateUpdate = SendUnsolicitedCommand ''RING''"

definition erase_call :: "int \<Rightarrow> (int \<times> call_status) list \<Rightarrow> (int \<times> call_status) list" where
  "erase_call i calls = filter (\<lambda>(j, _). j \<noteq> i) calls"

definition TimerWaitingRemoteCallResponse :: "int \<Rightarrow> string \<Rightarrow> call_service \<Rightarrow> call_service \<times> event list" where
  "TimerWaitingRemoteCallResponse index num s =
     (case map_of (active_calls s) index of
        None \<Rightarrow> (s, [])
      | Some c \<Rightarrow>
          if number c = num then
            (s\<lparr>active_calls := erase_call index (active_calls s)\<rparr>,
             (case remote_client c of None \<Rightarrow> [] | Some r \<Rightarrow> CloseRemoteConnection r) @ CallStateUpdate)
          else (s, []))"

definition SendCallStatusToRemote :: "int \<Rightarrow> call_status \<Rightarrow> call_state \<Rightarrow> event list result" where
  "SendCallStatusToRemote host call state =
     (case is_remote_call call of
        None \<Rightarrow> Inl (UndefinedBehaviour ''is_remote_call is not initialised'')
      | Some remote \<Rightarrow>
          (case remote_client call of
             Some r \<Rightarrow>
               if remote then
                 Inr (SendCommandToRemote r
                        (''AT+REMOTECALL='' @ to_string (call_state_int state) @ '','' @
                         print_bool (is_voice_mode call) @ '','' @ print_bool (is_multi_party call) @ '','' @
                         [CHR 0x22] @ GetHostId host @ [CHR 0x22] @ '','' @ print_bool (is_international call)) @
                      (if state = CALL_STATE_HANGUP then CloseRemoteConnection r else []))
               else Inr []
           | None \<Rightarrow> Inr []))"

text \<open>The number in the text of \<open>ATD\<close>, and whether it is an emergency number\<close>

definition dial_prefix :: "string \<Rightarrow> nat \<Rightarrow> string result" where
  \<comment> \<open>\<open>cmd->substr(1, pos - 1)\<close>, where 0 minus 1 wraps\<close>
  "dial_prefix cmd pos = (if pos = 0 then substr_from cmd 1 else substr cmd 1 (pos - 1))"

definition dial_number :: "string \<Rightarrow> (string \<times> bool) result" where
  "dial_number cmd =
     (case find_last_of (CHR ''@'') cmd of
        Some pos \<Rightarrow> rbind (dial_prefix cmd pos) (\<lambda>num. Inr (num, True))
      | None \<Rightarrow>
          (let pos = (case find_last_of (CHR ''i'') cmd of
                        Some p \<Rightarrow> Some p
                      | None \<Rightarrow> (case find_last_of (CHR ''I'') cmd of
                                   Some p \<Rightarrow> Some p
                                 | None \<Rightarrow> find_last_of (CHR '';'') cmd))
           in rbind (case pos of None \<Rightarrow> substr_from cmd 1 | Some p \<Rightarrow> dial_prefix cmd p) (\<lambda>num. Inr (num, False))))"

definition is_decimal :: "string \<Rightarrow> bool" where
  "is_decimal s \<longleftrightarrow> (\<forall>c \<in> set s. c \<in> set ''1234567890'')"

definition dial_remote :: "call_env \<Rightarrow> client \<Rightarrow> int \<Rightarrow> call_service \<Rightarrow> call_service outcome" where
  "dial_remote env client port s =
     (let rport = to_string port
      in if \<not> remote_open env rport then Inr (s, SendCommandResponse client kCmeErrorNoNetworkService)
         else let local_host_port = GetHostId (host_id env)
         in if local_host_port = rport then Inr (s, SendCommandResponse client kCmeErrorOperationNotAllowed)
         else let call = (CallStatus rport)\<lparr>is_remote_call := Some True, is_mobile_terminated := False,
                           call_state := CALL_STATE_DIALING, remote_client := Some (remote_id env),
                           timeout_serial := Some (post_serial env)\<rparr>;
                  index = FindFreeCallIndex (active_calls s)
         in Inr (s\<lparr>active_calls := map_assign index call (active_calls s)\<rparr>,
                 [AddRemote (remote_id env) rport] @ SendCommandToRemote (remote_id env) ''REM0'' @
                 SendCommandToRemote (remote_id env)
                   (''AT+REMOTECALL=4,0,0,'' @ [CHR 0x22] @ local_host_port @ [CHR 0x22] @ '',129'') @
                 [PostCallback (CbTimerWaitingRemoteCallResponse index rport) 60000] @
                 SendCommandResponse client ''OK''))"

definition dial_local :: "client \<Rightarrow> string \<Rightarrow> bool \<Rightarrow> call_service \<Rightarrow> call_service outcome" where
  "dial_local client num emergency_number s =
     (let call = (CallStatus num)\<lparr>is_mobile_terminated := False, call_state := CALL_STATE_DIALING\<rparr>;
          index = FindFreeCallIndex (active_calls s);
          s = s\<lparr>active_calls := map_assign index call (active_calls s)\<rparr>
      in Inr (if emergency_number then s\<lparr>in_emergency_mode := True\<rparr> else s,
              (if emergency_number then SendUnsolicitedCommand ''+WSOS: 1'' else []) @
              [PostCallback CbSimulatePendingCallsAnswered 1000] @ SendCommandResponse client ''OK''))"

text \<open>\<open>HandleDial\<close> after the number has been read\<close>

definition dial_call :: "call_env \<Rightarrow> client \<Rightarrow> string \<Rightarrow> bool \<Rightarrow> call_service \<Rightarrow> call_service outcome" where
  "dial_call env client num emergency_number s =
     (let emergency_only = (registration_state env = NET_REGISTRATION_EMERGENCY)
      in if \<not> is_decimal num then Inr (s, SendCommandResponse client kCmeErrorInCorrectParameters)
         else if emergency_only \<and> \<not> emergency_number then
           Inr (s, SendCommandResponse client kCmeErrorNetworkNotAllowedEmergencyCallsOnly)
         else rbind (if \<not> emergency_number \<and> fdn_enabled env then fixed_dial_number env num else Inr True) (\<lambda>allowed.
           if \<not> allowed then Inr (s, SendCommandResponse client kCmeErrorFixedDialNumberOnlyAllowed)
           else rbind (remote_port num) (\<lambda>port.
             if is_remote_port port then dial_remote env client port s
             else dial_local client num emergency_number s)))"

definition HandleDial :: "call_env \<Rightarrow> client \<Rightarrow> string \<Rightarrow> call_service \<Rightarrow> call_service outcome" where
  "HandleDial env client command s =
     (if registration_state env \<noteq> NET_REGISTRATION_HOME \<and> registration_state env \<noteq> NET_REGISTRATION_ROAMING \<and>
         registration_state env \<noteq> NET_REGISTRATION_EMERGENCY
      then Inr (s, SendCommandResponse client kCmeErrorNoNetworkService)
      else rbind (dial_number (SkipPrefixAT (ConsumePrefix env) command)) (\<lambda>(num, emergency_number).
             dial_call env client num emergency_number s))"

definition accept_body :: "int \<Rightarrow> call_status \<Rightarrow> (call_status option \<times> event list) result" where
  "accept_body host c =
     (if isCallIncoming c then
        let c = SetCallActive c in rbind (SendCallStatusToRemote host c CALL_STATE_ACTIVE) (\<lambda>evs. Inr (Some c, evs))
      else if isCallActive c then
        let c = SetCallBackground c in rbind (SendCallStatusToRemote host c CALL_STATE_HELD) (\<lambda>evs. Inr (Some c, evs))
      else Inr (Some c, []))"

definition over_calls ::
    "(call_status \<Rightarrow> (call_status option \<times> event list) result) \<Rightarrow> client \<Rightarrow> call_service \<Rightarrow> call_service outcome" where
  "over_calls body client s =
     rbind (each_call body (active_calls s)) (\<lambda>(calls, evs).
       Inr (s\<lparr>active_calls := calls\<rparr>, evs @ SendCommandResponse client ''OK''))"

definition HandleAcceptCall :: "int \<Rightarrow> client \<Rightarrow> call_service \<Rightarrow> call_service outcome" where
  "HandleAcceptCall host client s = over_calls (accept_body host) client s"

definition hangup_body ::
    "int \<Rightarrow> (call_status \<Rightarrow> bool) \<Rightarrow> call_status \<Rightarrow> (call_status option \<times> event list) result" where
  \<comment> \<open>the calls with a property are told that they are hung up, and erased\<close>
  "hangup_body host P c =
     (if P c then rbind (SendCallStatusToRemote host c CALL_STATE_HANGUP) (\<lambda>evs. Inr (None, evs))
      else Inr (Some c, []))"

definition activate_body ::
    "int \<Rightarrow> (call_status \<Rightarrow> bool) \<Rightarrow> call_status \<Rightarrow> (call_status option \<times> event list) result" where
  "activate_body host P c =
     (if P c then
        let c = SetCallActive c in rbind (SendCallStatusToRemote host c CALL_STATE_ACTIVE) (\<lambda>evs. Inr (Some c, evs))
      else Inr (Some c, []))"

definition HandleRejectCall :: "int \<Rightarrow> client \<Rightarrow> call_service \<Rightarrow> call_service outcome" where
  "HandleRejectCall host client s = over_calls (hangup_body host isCallIncoming) client s"

definition clcc_line :: "int \<times> call_status \<Rightarrow> string" where
  "clcc_line = (\<lambda>(index, c).
     ''+CLCC: '' @ to_string index @ '','' @ print_bool (is_mobile_terminated c) @ '','' @
     to_string (call_state_int (call_state c)) @ '','' @ print_bool (is_voice_mode c) @ '','' @
     print_bool (is_multi_party c) @ '','' @ number c @ '','' @ (if is_international c then ''145'' else ''129''))"

definition HandleCurrentCalls :: "client \<Rightarrow> call_service \<Rightarrow> call_service outcome" where
  "HandleCurrentCalls client s =
     Inr (s, SendCommandResponses client (map clcc_line (active_calls s) @ [''OK'']))"

definition release_body :: "int \<Rightarrow> call_status \<Rightarrow> (call_status option \<times> event list) result" where
  \<comment> \<open>\<open>AT+CHLD=1\<close>\<close>
  "release_body host c =
     (if isCallActive c then hangup_body host isCallActive c
      else activate_body host (\<lambda>c. isCallBackground c \<or> isCallWaiting c) c)"

definition swap_body :: "int \<Rightarrow> call_status \<Rightarrow> (call_status option \<times> event list) result" where
  \<comment> \<open>\<open>AT+CHLD=2\<close>\<close>
  "swap_body host c =
     (if isCallActive c \<or> isCallWaiting c then
        let c = SetCallBackground c in rbind (SendCallStatusToRemote host c CALL_STATE_HELD) (\<lambda>evs. Inr (Some c, evs))
      else activate_body host isCallBackground c)"

definition release_index :: "int \<Rightarrow> client \<Rightarrow> int \<Rightarrow> call_service \<Rightarrow> call_service outcome" where
  "release_index host client index s =
     (case map_of (active_calls s) index of
        None \<Rightarrow> Inr (s, SendCommandResponse client ''OK'')
      | Some c \<Rightarrow>
          rbind (SendCallStatusToRemote host c CALL_STATE_HANGUP) (\<lambda>evs.
            Inr (s\<lparr>active_calls := erase_call index (active_calls s)\<rparr>, evs @ SendCommandResponse client ''OK'')))"

definition HandleHangup :: "int \<Rightarrow> client \<Rightarrow> string \<Rightarrow> call_service \<Rightarrow> call_service outcome" where
  "HandleHangup host client command s =
     (let action = SkipPrefix command;
          n = (if action = [] then -1 else int (of_char (hd action)) - 48)
      in rbind (if 1 < length action then rbind (substr_from action 1) (stoi 10) else Inr (-1)) (\<lambda>index.
         if n = 0 then
           over_calls (hangup_body host (\<lambda>c. isCallIncoming c \<or> isCallBackground c \<or> isCallWaiting c)) client s
         else if n = 1 then
           (if index = -1 then over_calls (release_body host) client s else release_index host client index s)
         else if n = 2 then
           (if index = -1 then over_calls (swap_body host) client s else release_index host client index s)
         else if n = 3 \<or> n = 4 then over_calls (activate_body host isCallBackground) client s
         else Inr (s, SendCommandResponse client kCmeErrorOperationNotAllowed)))"

definition HandleMute :: "client \<Rightarrow> string \<Rightarrow> call_service \<Rightarrow> call_service outcome" where
  "HandleMute client command s =
     (let cmd = SkipPrefix command
      in if cmd = ''AT+CMUT?'' then
           Inr (s, SendCommandResponses client [''+CMUT: '' @ print_bool (mute_on s), ''OK''])
         else let (n, _) = GetNextInt cmd
         in if n = 0 then Inr (s\<lparr>mute_on := False\<rparr>, SendCommandResponses client [''OK''])
         else if n = 1 then Inr (s\<lparr>mute_on := True\<rparr>, SendCommandResponses client [''OK''])
         else Inr (s, SendCommandResponse client kCmeErrorInCorrectParameters))"

definition HandleSendDtmf :: "client \<Rightarrow> string \<Rightarrow> call_service \<Rightarrow> call_service outcome" where
  "HandleSendDtmf client command s = Inr (s, SendCommandResponse client ''OK'')"

definition HandleCancelUssd :: "client \<Rightarrow> string \<Rightarrow> call_service \<Rightarrow> call_service outcome" where
  "HandleCancelUssd client command s = Inr (s, SendCommandResponse client ''OK'')"

definition HandleEmergencyMode :: "client \<Rightarrow> string \<Rightarrow> call_service \<Rightarrow> call_service outcome" where
  "HandleEmergencyMode client command s =
     (let cmd = SkipPrefix command
      in if cmd = ''AT+WSOS?'' then Inr (s, SendCommandResponse client ''OK'')
         else let (n, _) = GetNextInt cmd
         in if n = 0 \<or> n = 1 then
              Inr (s\<lparr>in_emergency_mode := (n = 1)\<rparr>,
                   [SetNvram (NvEmergencyMode (n = 1)), SaveNvram] @ SendCommandResponse client ''OK'')
            else Inr (s, SendCommandResponse client kCmeErrorInCorrectParameters))"

fun find_number :: "string \<Rightarrow> (int \<times> call_status) list \<Rightarrow> (int \<times> call_status) option" where
  "find_number num [] = None"
| "find_number num ((i, c) # calls) = (if number c = num then Some (i, c) else find_number num calls)"

definition cancel_timeout :: "call_status \<Rightarrow> event list" where
  "cancel_timeout c = (case timeout_serial c of None \<Rightarrow> [] | Some n \<Rightarrow> [CancelCallback n])"

definition post_call_update :: event where
  "post_call_update = PostCallback CbCallStateUpdate 0"

definition HandleRemoteCall :: "call_env \<Rightarrow> client \<Rightarrow> string \<Rightarrow> call_service \<Rightarrow> call_service outcome" where
  "HandleRemoteCall env client command s =
     (let (state, cmd) = GetNextInt (SkipPrefix command);
          (mode, cmd) = GetNextInt cmd;
          (mpty, cmd) = GetNextInt cmd;
          (num, cmd) = GetNextStr cmd;
          (num_type, cmd) = GetNextInt cmd;
          iter = find_number num (active_calls s)
      in if state = call_state_int CALL_STATE_ACTIVE then
           (case iter of
              None \<Rightarrow> Inr (s, [post_call_update])
            | Some (i, c) \<Rightarrow>
                Inr (s\<lparr>active_calls := map_assign i (SetCallActive c) (active_calls s)\<rparr>,
                     cancel_timeout c @ [post_call_update]))
         else if state = call_state_int CALL_STATE_HELD then
           (case iter of
              None \<Rightarrow> Inr (s, [post_call_update])
            | Some (i, c) \<Rightarrow>
                Inr (s\<lparr>active_calls := map_assign i (SetCallBackground c) (active_calls s)\<rparr>,
                     cancel_timeout c @ [post_call_update]))
         else if state = call_state_int CALL_STATE_HANGUP then
           (case iter of
              None \<Rightarrow> Inr (s, [post_call_update])
            | Some (i, c) \<Rightarrow>
                Inr (s\<lparr>active_calls := erase_call i (active_calls s)\<rparr>,
                     (case remote_client c of None \<Rightarrow> [] | Some r \<Rightarrow> CloseRemoteConnection r) @
                     cancel_timeout c @ [post_call_update]))
         else if state = call_state_int CALL_STATE_INCOMING then
           (if radio_off env then Inr (s, CloseRemoteConnection (client_id client))
            else let call = (CallStatus num)\<lparr>is_remote_call := Some True, is_voice_mode := (mode \<noteq> 0),
                              is_multi_party := (mpty \<noteq> 0), is_mobile_terminated := True,
                              is_international := (num_type = 145), remote_client := Some (client_id client),
                              call_state := CALL_STATE_INCOMING\<rparr>
                 in Inr (s\<lparr>active_calls := map_assign (FindFreeCallIndex (active_calls s)) call (active_calls s)\<rparr>,
                         [post_call_update]))
         else Inr (s, []))"

definition call_handlers :: "call_env \<Rightarrow> call_service command_handler list" where
  "call_handlers env =
     [partial_handler ''D'' (HandleDial env),
      full_handler ''A'' (HandleAcceptCall (host_id env)),
      full_handler ''H'' (HandleRejectCall (host_id env)),
      full_handler ''+CLCC'' HandleCurrentCalls,
      partial_handler ''+CHLD='' (HandleHangup (host_id env)),
      partial_handler ''+CMUT'' HandleMute,
      partial_handler ''+VTS='' HandleSendDtmf,
      partial_handler ''+CUSD='' HandleCancelUssd,
      partial_handler ''+WSOS=0'' HandleEmergencyMode,
      partial_handler ''+REMOTECALL'' (HandleRemoteCall env)]"

section \<open>The calls\<close>

lemma free_index_from_props:
  "\<not> has_index (free_index_from i calls) calls \<and> i \<le> free_index_from i calls \<and>
   (\<forall>j. i \<le> j \<and> j < free_index_from i calls \<longrightarrow> has_index j calls)"
proof (induction i calls rule: free_index_from.induct)
  case (1 i calls)
  show ?case
  proof (cases "has_index i calls")
    case True
    then have eq: "free_index_from i calls = free_index_from (i + 1) calls"
      by (subst free_index_from.simps) simp
    have "has_index j calls" if "i \<le> j" "j < free_index_from (i + 1) calls" for j
      using that 1 True by (cases "j = i") auto
    with 1 True show ?thesis unfolding eq by auto
  next
    case False
    then have "free_index_from i calls = i" by (subst free_index_from.simps) simp
    with False show ?thesis by auto
  qed
qed

lemma FindFreeCallIndex_free: "FindFreeCallIndex calls \<notin> fst ` set calls" "1 \<le> FindFreeCallIndex calls"
  using free_index_from_props [of 1 calls] by (simp_all add: FindFreeCallIndex_def has_index_def)

text \<open>
  The invariant of a call: only four of the seven states occur; a call has another device's connection exactly when it
  was set up as a remote call, and the member is otherwise not initialised; a dialling call is an outgoing one, an
  incoming one has a connection, and only an outgoing remote call has a timer.
\<close>

definition call_inv :: "call_status \<Rightarrow> bool" where
  "call_inv c \<longleftrightarrow>
     call_state c \<in> {CALL_STATE_ACTIVE, CALL_STATE_HELD, CALL_STATE_DIALING, CALL_STATE_INCOMING} \<and>
     is_remote_call c = (if remote_client c = None then None else Some True) \<and>
     (call_state c = CALL_STATE_DIALING \<longrightarrow> \<not> is_mobile_terminated c) \<and>
     (call_state c = CALL_STATE_INCOMING \<longrightarrow> is_mobile_terminated c) \<and>
     (is_mobile_terminated c \<longrightarrow> remote_client c \<noteq> None \<and> timeout_serial c = None) \<and>
     (timeout_serial c \<noteq> None \<longrightarrow> remote_client c \<noteq> None)"

definition calls_inv :: "(int \<times> call_status) list \<Rightarrow> bool" where
  "calls_inv calls \<longleftrightarrow> sorted_wrt (<) (map fst calls) \<and> (\<forall>(i, c) \<in> set calls. 1 \<le> i \<and> call_inv c)"

lemma calls_inv_Nil [simp]: "calls_inv []"
  by (simp add: calls_inv_def)

lemma calls_inv_Cons:
  "calls_inv ((i, c) # calls) \<longleftrightarrow> (\<forall>j \<in> fst ` set calls. i < j) \<and> 1 \<le> i \<and> call_inv c \<and> calls_inv calls"
  by (auto simp: calls_inv_def)

lemma call_inv_SetCallActive [simp]: "call_inv c \<Longrightarrow> call_inv (SetCallActive c)"
  by (auto simp: call_inv_def SetCallActive_def)

lemma call_inv_SetCallBackground [simp]: "call_inv c \<Longrightarrow> call_inv (SetCallBackground c)"
  by (auto simp: call_inv_def SetCallBackground_def)

lemma calls_inv_map_assign:
  assumes "calls_inv calls" and "1 \<le> i" and "call_inv c"
  shows "calls_inv (map_assign i c calls)"
proof -
  have "sorted_wrt (<) (map fst (map_assign i c calls))"
    using assms by (auto simp: calls_inv_def intro: map_assign_strict)
  moreover have "(j, d) \<in> set (map_assign i c calls) \<Longrightarrow> (j, d) = (i, c) \<or> (j, d) \<in> set calls" for j d
    by (induction i c calls rule: map_assign.induct) (auto split: if_splits)
  ultimately show ?thesis using assms by (fastforce simp: calls_inv_def)
qed

lemma calls_inv_erase: "calls_inv calls \<Longrightarrow> calls_inv (erase_call i calls)"
  by (auto simp: calls_inv_def erase_call_def sorted_wrt_map_filter)

lemma each_call_inv:
  assumes "each_call body calls = Inr (calls', evs)" and "calls_inv calls"
    and "\<And>c c' evs. body c = Inr (Some c', evs) \<Longrightarrow> call_inv c \<Longrightarrow> call_inv c'"
  shows "calls_inv calls' \<and> fst ` set calls' \<subseteq> fst ` set calls"
  using assms(1,2)
proof (induction calls arbitrary: calls' evs)
  case (Cons ic calls)
  obtain i c where ic: "ic = (i, c)" by force
  from Cons.prems(1) obtain c' evs1 calls2 evs2 where
    b: "body c = Inr (c', evs1)" and r: "each_call body calls = Inr (calls2, evs2)"
    and eq: "calls' = (case c' of None \<Rightarrow> calls2 | Some c' \<Rightarrow> (i, c') # calls2)"
    by (auto simp: ic rbind_eq_Inr split: prod.splits)
  have sub: "calls_inv calls2 \<and> fst ` set calls2 \<subseteq> fst ` set calls"
    using Cons.IH [OF r] Cons.prems(2) by (simp add: ic calls_inv_Cons)
  then have "\<forall>j \<in> fst ` set calls2. i < j" using Cons.prems(2) unfolding ic calls_inv_Cons by blast
  with sub show ?case
    using Cons.prems(2) assms(3) [of c] b by (cases c') (auto simp: eq ic calls_inv_Cons)
qed simp

lemma find_number_Some: "find_number num calls = Some (i, c) \<Longrightarrow> (i, c) \<in> set calls \<and> number c = num"
  by (induction num calls rule: find_number.induct) (auto split: if_splits)

lemma bodies_keep:
  "accept_body host c = Inr (Some c', evs) \<Longrightarrow> call_inv c \<Longrightarrow> call_inv c'"
  "hangup_body host P c = Inr (Some c', evs) \<Longrightarrow> call_inv c \<Longrightarrow> call_inv c'"
  "activate_body host P c = Inr (Some c', evs) \<Longrightarrow> call_inv c \<Longrightarrow> call_inv c'"
  "release_body host c = Inr (Some c', evs) \<Longrightarrow> call_inv c \<Longrightarrow> call_inv c'"
  "swap_body host c = Inr (Some c', evs) \<Longrightarrow> call_inv c \<Longrightarrow> call_inv c'"
  by (auto simp: accept_body_def hangup_body_def activate_body_def release_body_def swap_body_def Let_def rbind_eq_Inr
      split: if_splits)

lemma over_calls_inv:
  assumes "over_calls body client s = Inr (s', evs)" and "calls_inv (active_calls s)"
    and "\<And>c c' evs. body c = Inr (Some c', evs) \<Longrightarrow> call_inv c \<Longrightarrow> call_inv c'"
  shows "calls_inv (active_calls s')"
  using assms each_call_inv [of body "active_calls s"]
  by (auto simp: over_calls_def rbind_eq_Inr split: prod.splits)

lemma HandleDial_inv:
  assumes "HandleDial env client command s = Inr (s', evs)" and "calls_inv (active_calls s)"
  shows "calls_inv (active_calls s')"
proof -
  have add: "calls_inv (map_assign (FindFreeCallIndex (active_calls s)) c (active_calls s))" if "call_inv c" for c
    using assms(2) FindFreeCallIndex_free(2) that by (rule calls_inv_map_assign)
  have "calls_inv (active_calls s')" if "dial_remote env client port s = Inr (s', evs)" for port
    using that assms(2)
    by (auto simp: dial_remote_def Let_def CallStatus_def call_inv_def split: if_splits intro!: add)
  moreover have "calls_inv (active_calls s')" if "dial_local client num e s = Inr (s', evs)" for num e
    using that by (auto simp: dial_local_def Let_def CallStatus_def call_inv_def split: if_splits intro!: add)
  ultimately show ?thesis
    using assms by (auto simp: HandleDial_def dial_call_def rbind_eq_Inr Let_def split: if_splits prod.splits)
qed

lemma release_index_inv:
  "release_index host client i s = Inr (s', evs) \<Longrightarrow> calls_inv (active_calls s) \<Longrightarrow> calls_inv (active_calls s')"
  by (auto simp: release_index_def rbind_eq_Inr calls_inv_erase split: option.splits)

lemma over_bodies_inv:
  assumes "calls_inv (active_calls s)"
  shows "over_calls (accept_body host) client s = Inr (s', evs) \<Longrightarrow> calls_inv (active_calls s')"
    and "over_calls (hangup_body host P) client s = Inr (s', evs) \<Longrightarrow> calls_inv (active_calls s')"
    and "over_calls (activate_body host P) client s = Inr (s', evs) \<Longrightarrow> calls_inv (active_calls s')"
    and "over_calls (release_body host) client s = Inr (s', evs) \<Longrightarrow> calls_inv (active_calls s')"
    and "over_calls (swap_body host) client s = Inr (s', evs) \<Longrightarrow> calls_inv (active_calls s')"
  by (erule over_calls_inv [OF _ assms], erule bodies_keep, assumption)+

lemma HandleHangup_inv:
  assumes "HandleHangup host client command s = Inr (s', evs)" and "calls_inv (active_calls s)"
  shows "calls_inv (active_calls s')"
  using assms unfolding HandleHangup_def Let_def rbind_eq_Inr
  by (auto split: if_splits dest: over_bodies_inv release_index_inv)

lemma HandleRemoteCall_inv:
  assumes "HandleRemoteCall env client command s = Inr (s', evs)" and "calls_inv (active_calls s)"
  shows "calls_inv (active_calls s')"
proof -
  have found: "1 \<le> i \<and> call_inv c" if "find_number num (active_calls s) = Some (i, c)" for num i c
    using find_number_Some [OF that] assms(2) by (auto simp: calls_inv_def)
  show ?thesis
    using assms found FindFreeCallIndex_free(2)
    by (auto simp: HandleRemoteCall_def Let_def CallStatus_def calls_inv_erase split: if_splits prod.splits option.splits
        intro!: calls_inv_map_assign) (auto simp: call_inv_def)
qed

section \<open>The service as a transition system\<close>

text \<open>
  A step of the service: a command that one of its handlers takes, the callback that answers pending calls, and the
  timer of a call to another device.
\<close>

inductive call_step :: "call_service \<Rightarrow> event list \<Rightarrow> call_service \<Rightarrow> bool" where
  command: "HandleModemCommand (call_handlers env) client cmd s = Inr (Some (s', evs)) \<Longrightarrow> call_step s evs s'"
| answered: "call_step s [] (SimulatePendingCallsAnswered s)"
| timeout: "TimerWaitingRemoteCallResponse index num s = (s', evs) \<Longrightarrow> call_step s evs s'"

inductive call_reachable :: "call_service \<Rightarrow> bool" where
  start: "call_reachable (CallService emergency)"
| step: "call_reachable s \<Longrightarrow> call_step s evs s' \<Longrightarrow> call_reachable s'"

inductive_cases call_stepE: "call_step s evs s'"

lemma simple_handlers_calls:
  "HandleMute client cmd s = Inr (s', evs) \<Longrightarrow> active_calls s' = active_calls s"
  "HandleSendDtmf client cmd s = Inr (s', evs) \<Longrightarrow> active_calls s' = active_calls s"
  "HandleCancelUssd client cmd s = Inr (s', evs) \<Longrightarrow> active_calls s' = active_calls s"
  "HandleEmergencyMode client cmd s = Inr (s', evs) \<Longrightarrow> active_calls s' = active_calls s"
  "HandleCurrentCalls client s = Inr (s', evs) \<Longrightarrow> active_calls s' = active_calls s"
  by (auto simp: HandleMute_def HandleSendDtmf_def HandleCancelUssd_def HandleEmergencyMode_def HandleCurrentCalls_def
      Let_def split: if_splits prod.splits)

lemma simple_handlers_inv:
  assumes "calls_inv (active_calls s)"
  shows "HandleMute client cmd s = Inr (s', evs) \<Longrightarrow> calls_inv (active_calls s')"
    and "HandleSendDtmf client cmd s = Inr (s', evs) \<Longrightarrow> calls_inv (active_calls s')"
    and "HandleCancelUssd client cmd s = Inr (s', evs) \<Longrightarrow> calls_inv (active_calls s')"
    and "HandleEmergencyMode client cmd s = Inr (s', evs) \<Longrightarrow> calls_inv (active_calls s')"
    and "HandleCurrentCalls client s = Inr (s', evs) \<Longrightarrow> calls_inv (active_calls s')"
  using assms by (simp_all add: simple_handlers_calls)

lemma call_step_inv:
  assumes "call_step s evs s'" and "calls_inv (active_calls s)"
  shows "calls_inv (active_calls s')"
  using assms
proof (induction rule: call_step.induct)
  case (command env client cmd s s' evs)
  then obtain h where h: "h \<in> set (call_handlers env)" "command_handler h client cmd s = Inr (s', evs)"
    using handler_outcome [OF command.hyps(1)] by auto
  then show ?case
    using command.prems
    by (auto simp: call_handlers_def partial_handler_def full_handler_def HandleAcceptCall_def HandleRejectCall_def
        dest: HandleDial_inv HandleHangup_inv HandleRemoteCall_inv over_bodies_inv simple_handlers_inv)
next
  case (answered s)
  have "sorted_wrt (<) (map fst (active_calls (SimulatePendingCallsAnswered s)))"
    using answered by (simp add: SimulatePendingCallsAnswered_def calls_inv_def comp_def case_prod_unfold)
  then show ?case
    using answered by (auto simp: SimulatePendingCallsAnswered_def calls_inv_def)
next
  case (timeout index num s s' evs)
  then show ?case
    by (auto simp: TimerWaitingRemoteCallResponse_def calls_inv_erase split: option.splits if_splits)
qed

lemma reachable_inv: "call_reachable s \<Longrightarrow> calls_inv (active_calls s)"
  by (induction rule: call_reachable.induct) (auto simp: CallService_def dest: call_step_inv)

section \<open>Call control\<close>

text \<open>
  What \<open>AT+CHLD=<n>\<close> does with a call in a given state: the new state, or \<open>None\<close> when the call is released; and what
  the other device of a remote call is told.
\<close>

fun chld_state :: "nat \<Rightarrow> call_state \<Rightarrow> call_state option" where
  "chld_state n st =
     (if n = 0 then if st \<in> {CALL_STATE_INCOMING, CALL_STATE_HELD, CALL_STATE_WAITING} then None else Some st
      else if n = 1 then
        if st = CALL_STATE_ACTIVE then None
        else if st \<in> {CALL_STATE_HELD, CALL_STATE_WAITING} then Some CALL_STATE_ACTIVE else Some st
      else if n = 2 then
        if st = CALL_STATE_ACTIVE then Some CALL_STATE_HELD
        else if st = CALL_STATE_HELD then Some CALL_STATE_ACTIVE else Some st
      else if st = CALL_STATE_HELD then Some CALL_STATE_ACTIVE else Some st)"

definition chld_told :: "nat \<Rightarrow> call_state \<Rightarrow> call_state option" where
  "chld_told n st =
     (if n = 2 \<and> st = CALL_STATE_WAITING then Some CALL_STATE_HELD
      else case chld_state n st of
             None \<Rightarrow> Some CALL_STATE_HANGUP
           | Some st' \<Rightarrow> if st' = st then None else Some st')"

definition remote_text :: "int \<Rightarrow> call_status \<Rightarrow> call_state \<Rightarrow> string" where
  "remote_text host c st =
     ''AT+REMOTECALL='' @ to_string (call_state_int st) @ '','' @ print_bool (is_voice_mode c) @ '','' @
     print_bool (is_multi_party c) @ '','' @ [CHR 0x22] @ to_string host @ [CHR 0x22] @ '','' @
     print_bool (is_international c)"

definition remote_message :: "int \<Rightarrow> call_status \<Rightarrow> call_state \<Rightarrow> event list" where
  "remote_message host c st =
     (case remote_client c of
        None \<Rightarrow> []
      | Some r \<Rightarrow>
          if is_remote_call c = Some True then
            RemoteCommand r (remote_text host c st) #
            (if st = CALL_STATE_HANGUP then [CloseRemote r] else [])
          else [])"

definition chld_calls :: "nat \<Rightarrow> (int \<times> call_status) list \<Rightarrow> (int \<times> call_status) list" where
  "chld_calls n calls =
     concat (map (\<lambda>(i, c). case chld_state n (call_state c) of
                             None \<Rightarrow> []
                           | Some st \<Rightarrow> [(i, c\<lparr>call_state := st\<rparr>)]) calls)"

definition chld_messages :: "int \<Rightarrow> nat \<Rightarrow> (int \<times> call_status) list \<Rightarrow> event list" where
  "chld_messages host n calls =
     concat (map (\<lambda>(i, c). case chld_told n (call_state c) of
                             None \<Rightarrow> []
                           | Some st \<Rightarrow> remote_message host c st) calls)"

lemma SendCallStatusToRemote_ok:
  "is_remote_call c \<noteq> None \<Longrightarrow> SendCallStatusToRemote host c st = Inr (remote_message host c st)"
  by (auto simp: SendCallStatusToRemote_def remote_message_def remote_text_def SendCommandToRemote_def CloseRemoteConnection_def
      GetHostId_def split: option.split)

lemma remote_message_state [simp]: "remote_message host (c\<lparr>call_state := st'\<rparr>) st = remote_message host c st"
  by (simp add: remote_message_def remote_text_def split: option.split)

lemma call_state_same [simp]: "call_state c = st \<Longrightarrow> c\<lparr>call_state := st\<rparr> = c"
  by (cases c) simp

definition chld_body :: "int \<Rightarrow> nat \<Rightarrow> call_status \<Rightarrow> (call_status option \<times> event list) result" where
  "chld_body host n c =
     Inr (map_option (\<lambda>st. c\<lparr>call_state := st\<rparr>) (chld_state n (call_state c)),
          case chld_told n (call_state c) of None \<Rightarrow> [] | Some st \<Rightarrow> remote_message host c st)"

lemmas call_bodies = hangup_body_def activate_body_def release_body_def swap_body_def accept_body_def

lemmas call_queries = isCallBackground_def isCallActive_def isCallDialing_def isCallIncoming_def isCallWaiting_def

lemma bodies_chld:
  assumes "is_remote_call c \<noteq> None"
  shows "hangup_body host (\<lambda>c. isCallIncoming c \<or> isCallBackground c \<or> isCallWaiting c) c = chld_body host 0 c"
    and "release_body host c = chld_body host 1 c"
    and "swap_body host c = chld_body host 2 c"
    and "activate_body host isCallBackground c = chld_body host 3 c"
    and "activate_body host isCallBackground c = chld_body host 4 c"
  using assms
  by (cases "call_state c"; simp add: chld_body_def chld_told_def call_bodies call_queries SetCallActive_def
      SetCallBackground_def SendCallStatusToRemote_ok)+

lemma each_call_chld:
  assumes "\<forall>(i, c) \<in> set calls. body c = chld_body host n c"
  shows "each_call body calls = Inr (chld_calls n calls, chld_messages host n calls)"
  using assms
  by (induction calls)
    (auto simp: chld_calls_def chld_messages_def chld_body_def simp del: chld_state.simps split: option.split)

lemma to_dec_small:
  "to_dec 0 = ''0''" "to_dec (Suc 0) = ''1''" "to_dec 2 = ''2''" "to_dec 3 = ''3''" "to_dec 4 = ''4''"
  by (subst to_dec_unfold, simp)+

lemma chld_body_4: "chld_body host 4 = chld_body host 3"
  by (simp add: chld_body_def chld_told_def fun_eq_iff)

lemma SkipPrefix_CHLD: "CHR ''='' \<notin> set p \<Longrightarrow> SkipPrefix (p @ CHR ''='' # t) = t"
  by (simp add: SkipPrefix_def)


definition incoming_call :: "string \<Rightarrow> nat \<Rightarrow> call_state \<Rightarrow> call_status" where
  "incoming_call num r st = (CallStatus num)\<lparr>is_remote_call := Some True, remote_client := Some r, call_state := st\<rparr>"


section \<open>Commands between two devices\<close>

lemma print_bool_int: "print_bool b = to_string (if b then 1 else 0)"
  by (simp add: print_bool_def to_string_def to_dec_small)

lemma in_int32_small [simp]: "in_int32 0" "in_int32 1" "in_int32 (call_state_int st)"
  by (cases st; simp add: in_int32_def)+

lemma GetNextInt_bool: "GetNextInt (print_bool v @ CHR '','' # rest) = (if v then 1 else 0, rest)"
  by (simp add: print_bool_int)

lemma GetNextInt_bool_end: "GetNextInt (print_bool v) = (if v then 1 else 0, [])"
  by (simp add: print_bool_int)

text \<open>What a device that reads the status command does to its call with the number of the sender\<close>

fun told_call :: "call_state \<Rightarrow> call_status \<Rightarrow> call_status option" where
  "told_call CALL_STATE_ACTIVE c = Some (SetCallActive c)"
| "told_call CALL_STATE_HELD c = Some (SetCallBackground c)"
| "told_call _ c = None"

lemma HandleRemoteCall_text:
  assumes "in_int32 host" and st: "st \<in> {CALL_STATE_ACTIVE, CALL_STATE_HELD, CALL_STATE_HANGUP}"
  shows "HandleRemoteCall env client (remote_text host c st) s =
    (case find_number (to_string host) (active_calls s) of
       Some (j, d) \<Rightarrow>
         if st = CALL_STATE_ACTIVE then
           Inr (s\<lparr>active_calls := map_assign j (SetCallActive d) (active_calls s)\<rparr>, cancel_timeout d @ [post_call_update])
         else if st = CALL_STATE_HELD then
           Inr (s\<lparr>active_calls := map_assign j (SetCallBackground d) (active_calls s)\<rparr>, cancel_timeout d @ [post_call_update])
         else
           Inr (s\<lparr>active_calls := erase_call j (active_calls s)\<rparr>,
                (case remote_client d of None \<Rightarrow> [] | Some r \<Rightarrow> [CloseRemote r]) @
                cancel_timeout d @ [post_call_update])
     | None \<Rightarrow> Inr (s, [post_call_update]))"
proof -
  have skip: "SkipPrefix (remote_text host c st) = to_string (call_state_int st) @ CHR '','' #
      print_bool (is_voice_mode c) @ CHR '','' # print_bool (is_multi_party c) @ CHR '','' #
      CHR 0x22 # to_string host @ CHR 0x22 # CHR '','' # print_bool (is_international c)"
    using SkipPrefix_CHLD [of "''AT+REMOTECALL''"] by (simp add: remote_text_def)
  show ?thesis
    using st
    unfolding HandleRemoteCall_def skip
    by (auto simp: GetNextInt_to_string in_int32_small GetNextInt_bool GetNextInt_bool_end to_string_not_in Let_def
        CloseRemoteConnection_def split: option.split)
qed


lemma calls_inv_one:
  "call_inv c \<Longrightarrow> calls_inv [(1, c)]"
  by (simp add: calls_inv_Cons)

definition sample_env :: call_env where
  "sample_env =
     \<lparr>registration_state = 1, radio_off = False, fdn_enabled = False, fixed_dial_number = (\<lambda>_. Inr False),
      remote_open = (\<lambda>_. True), host_id = 6520, remote_id = 4, post_serial = 9,
      ConsumePrefix = (\<lambda>s p. if take (length p) s = p then drop (length p) s else s)\<rparr>"


text \<open>
  C19. The calls of the service in every state it can reach: the indices are positive and in order, a call is active,
  held, dialling or incoming, and it has another device exactly when it is marked as a remote call.
\<close>
theorem call_service_invariant:
  assumes "call_reachable s"
  shows "calls_inv (active_calls s)"
  using assms by (rule reachable_inv)

definition dialling :: "string \<Rightarrow> call_status" where
  "dialling num = (CallStatus num)\<lparr>is_mobile_terminated := False, call_state := CALL_STATE_DIALING\<rparr>"

lemma FindFreeCallIndex_Nil: "FindFreeCallIndex [] = 1"
  unfolding FindFreeCallIndex_def by (subst free_index_from.simps) (simp add: has_index_def)

lemma sample_HandleDial:
  "HandleDial sample_env ril ''ATD5551234;'' (CallService False) =
     Inr ((CallService False)\<lparr>active_calls := [(1, dialling ''5551234'')]\<rparr>,
          [PostCallback CbSimulatePendingCallsAnswered 1000] @ SendCommandResponse ril ''OK'')"
  by (simp add: HandleDial_def dial_call_def sample_env_def
      NET_REGISTRATION_HOME_def NET_REGISTRATION_EMERGENCY_def SkipPrefixAT_def dial_number_def find_last_of_def
      find_char_def dial_prefix_def substr_def is_decimal_def remote_port_def is_remote_port_def kRemotePortRange_def
      dial_local_def dialling_def CallService_def FindFreeCallIndex_Nil)

lemma sample_dial:
  "HandleModemCommand (call_handlers sample_env) ril ''ATD5551234;'' (CallService False) =
     Inr (Some ((CallService False)\<lparr>active_calls := [(1, dialling ''5551234'')]\<rparr>,
                [PostCallback CbSimulatePendingCallsAnswered 1000] @ SendCommandResponse ril ''OK''))"
  unfolding call_handlers_def HandleModemCommand.simps Compare_partial handler_sel sample_HandleDial
  by (simp add: starts_with_def)

theorem call_service_invariant_witness:
  "calls_inv [(1, dialling ''5551234'')]"
  using call_service_invariant [OF step [OF start [of False] command [OF sample_dial]]] by (simp add: CallService_def)

lemma cme_errors:
  "take 10 kCmeErrorNoNetworkService = ''+CME ERROR''" "take 10 kCmeErrorOperationNotAllowed = ''+CME ERROR''"
  "take 10 kCmeErrorInCorrectParameters = ''+CME ERROR''"
  "take 10 kCmeErrorNetworkNotAllowedEmergencyCallsOnly = ''+CME ERROR''"
  "take 10 kCmeErrorFixedDialNumberOnlyAllowed = ''+CME ERROR''"
  by (simp_all add: kCmeErrorNoNetworkService_def kCmeErrorOperationNotAllowed_def
    kCmeErrorInCorrectParameters_def kCmeErrorNetworkNotAllowedEmergencyCallsOnly_def
    kCmeErrorFixedDialNumberOnlyAllowed_def)

definition is_error :: "client \<Rightarrow> event list \<Rightarrow> bool" where
  "is_error client evs \<longleftrightarrow> (\<exists>e. evs = SendCommandResponse client e \<and> take 10 e = ''+CME ERROR'')"

lemma is_errorI: "take 10 e = ''+CME ERROR'' \<Longrightarrow> is_error client (SendCommandResponse client e)"
  by (auto simp: is_error_def)

lemma response_OK: "SendCommandResponse client ''OK'' = [Response client (''OK'' @ [CHR 0x0D])]"
  by (simp add: SendCommandResponse_def)



text \<open>
  C33. Hanging up a call that was dialled locally reads the member \<open>is_remote_call\<close> that was never initialised: the
  command \<open>AT+CHLD=1<index>\<close> for such a call is undefined behaviour, in every reachable state.
\<close>
theorem HandleHangup_local_undefined:
  assumes "call_reachable s" and "map_of (active_calls s) i = Some c" and "remote_client c = None" and "in_int32 i"
  shows "HandleHangup host client (''AT+CHLD=1'' @ to_string i) s =
    Inl (UndefinedBehaviour ''is_remote_call is not initialised'')"
proof -
  have inv: "1 \<le> i" "call_inv c"
    using reachable_inv [OF assms(1)] map_of_SomeD [OF assms(2)] by (auto simp: calls_inv_def)
  then have "is_remote_call c = None" using assms(3) by (simp add: call_inv_def)
  moreover have "SkipPrefix (''AT+CHLD=1'' @ to_string i) = ''1'' @ to_string i"
    using SkipPrefix_CHLD [of "''AT+CHLD''" "''1'' @ to_string i"] by simp
  ultimately show ?thesis
    using inv(1) assms(2,4)
    by (simp add: HandleHangup_def Let_def substr_from_def stoi_to_string release_index_def SendCallStatusToRemote_def)
qed

theorem HandleHangup_local_undefined_witness:
  "HandleHangup 6520 ril (''AT+CHLD=1'' @ to_string 1)
     ((CallService False)\<lparr>active_calls := [(1, dialling ''5551234'')]\<rparr>) =
   Inl (UndefinedBehaviour ''is_remote_call is not initialised'')"
  by (rule HandleHangup_local_undefined
        [OF step [OF start [of False] command [OF sample_dial]], where c = "dialling ''5551234''"])
    (simp_all add: dialling_def CallStatus_def)

text \<open>
  The query \<open>AT+WSOS?\<close> and the command \<open>AT+WSOS=1\<close> reach no handler of the service, so that only the exit from
  the emergency mode can be commanded.
\<close>
theorem WSOS_unreachable:
  "HandleModemCommand (call_handlers env) client ''AT+WSOS?'' s = Inr None \<and>
   HandleModemCommand (call_handlers env) client ''AT+WSOS=1'' s = Inr None"
  by (simp add: call_handlers_def Compare_partial Compare_full starts_with_def)

end
