(* ===== verification/Modem_Sms.thy ===== *)
theory Modem_Sms
  imports Modem_Service
begin

text \<open>
  The short message service of the modem simulator, \<open>host/commands/modem_simulator/sms_service.{h,cpp}\<close>.  The
  status of the messages on the SIM and the type of the service centre address are not initialised by the
  constructor, and so are options.
\<close>

section \<open>Definitions\<close>

record sms_message =
  sms_text :: string
  sms_status :: int

record sms_service =
  is_waiting_sms_pdu :: bool
  is_waiting_sms_to_sim :: bool
  message_id :: int
  reference_number :: int  \<comment> \<open>\<open>message_reference_\<close>\<close>
  sms_status_on_sim :: "int option"
  broadcast_mode :: int
  broadcast_mids :: string
  broadcast_dcss :: string
  sca :: string
  tosca :: "int option"
  messages_on_sim_card :: "(int \<times> sms_message) list"

definition SmsService :: sms_service where
  "SmsService =
     \<lparr>is_waiting_sms_pdu = False, is_waiting_sms_to_sim = False, message_id = 1, reference_number = 1,
      sms_status_on_sim = None, broadcast_mode = 0, broadcast_mids = [], broadcast_dcss = [], sca = [], tosca = None,
      messages_on_sim_card = []\<rparr>"

text \<open>The device's port, its phone number, and whether a connection to another port opens\<close>

record sms_env =
  sms_host_id :: int
  sim_phone_number :: "string result"
  sms_remote_open :: "string \<Rightarrow> bool"

definition HandleSendSMS :: "client \<Rightarrow> string \<Rightarrow> sms_service \<Rightarrow> sms_service outcome" where
  "HandleSendSMS client command s =
     Inr (s\<lparr>is_waiting_sms_pdu := True\<rparr>, SendCommandResponses client [''> ''])"

definition HandleSMSAcknowledge :: "client \<Rightarrow> string \<Rightarrow> sms_service \<Rightarrow> sms_service outcome" where
  "HandleSMSAcknowledge client command s = Inr (s, SendCommandResponse client ''OK'')"

definition HandleWriteSMSToSim :: "client \<Rightarrow> string \<Rightarrow> sms_service \<Rightarrow> sms_service outcome" where
  "HandleWriteSMSToSim client command s =
     (let (n, _) = GetNextInt (SkipComma (SkipPrefix command))
      in rbind (to_enum 2 n) (\<lambda>status.
           Inr (s\<lparr>is_waiting_sms_to_sim := True, sms_status_on_sim := Some status\<rparr>,
                SendCommandResponse client ''> '')))"

definition HandleDeleteSmsOnSim :: "client \<Rightarrow> string \<Rightarrow> sms_service \<Rightarrow> sms_service outcome" where
  "HandleDeleteSmsOnSim client command s =
     (let (index, _) = GetNextInt (SkipPrefix command)
      in case map_of (messages_on_sim_card s) index of
           None \<Rightarrow> Inr (s, SendCommandResponse client kCmeErrorInvalidIndex)
         | Some _ \<Rightarrow>
             Inr (s\<lparr>messages_on_sim_card := filter (\<lambda>(i, _). i \<noteq> index) (messages_on_sim_card s)\<rparr>,
                  SendCommandResponse client ''OK''))"

definition HandleBroadcastConfig :: "client \<Rightarrow> string \<Rightarrow> sms_service \<Rightarrow> sms_service outcome" where
  "HandleBroadcastConfig client command s =
     (let cmd = SkipPrefix command
      in if cmd = ''AT+CSCB?'' then
           Inr (s, SendCommandResponses client
                     [''+CSCB: '' @ to_string (broadcast_mode s) @ '','' @ broadcast_mids s @ '','' @ broadcast_dcss s,
                      ''OK''])
         else let (mode, cmd) = GetNextInt cmd;
                  (mids, cmd) = GetNextStr cmd;
                  (dcss, cmd) = GetNextStr cmd
         in Inr (s\<lparr>broadcast_mode := mode, broadcast_mids := mids, broadcast_dcss := dcss\<rparr>,
                 SendCommandResponses client [''OK'']))"

definition HandleGetSmscAddress :: "client \<Rightarrow> sms_service \<Rightarrow> sms_service outcome" where
  "HandleGetSmscAddress client s =
     (case tosca s of
        None \<Rightarrow> Inl (UndefinedBehaviour ''tosca is not initialised'')
      | Some n \<Rightarrow> Inr (s, SendCommandResponses client [''+CSCA: '' @ sca s @ '','' @ to_string n, ''OK'']))"

definition HandleSetSmscAddress :: "client \<Rightarrow> string \<Rightarrow> sms_service \<Rightarrow> sms_service outcome" where
  "HandleSetSmscAddress client command s =
     (let (address, cmd) = GetNextStr (SkipPrefix command);
          (n, cmd) = GetNextInt cmd
      in Inr (s\<lparr>sca := address, tosca := Some n\<rparr>, SendCommandResponse client ''OK''))"

definition SendSmsToRemote :: "sms_env \<Rightarrow> string \<Rightarrow> pdu_parser \<Rightarrow> event list result" where
  "SendSmsToRemote env port sms_pdu =
     (if \<not> sms_remote_open env port then Inr []
      else rbind (CreateRemotePDU (GetHostId (sms_host_id env)) sms_pdu) (\<lambda>pdu.
             Inr [RemoteWrite port ''REM0'', RemoteWrite port (''AT+REMOTESMS='' @ pdu @ [CHR 0x0D])]))"

text \<open>Where a message goes: nowhere, to the same device after a second, or to another device\<close>

definition route_sms :: "sms_env \<Rightarrow> string \<Rightarrow> int \<Rightarrow> pdu_parser \<Rightarrow> event list result" where
  "route_sms env phone_number port sms_pdu =
     (if is_remote_port port then
        (let remote_host_port = to_string port
         in if GetHostId (sms_host_id env) = remote_host_port then Inr [PostCallback (CbHandleReceiveSMS sms_pdu) 1000]
            else SendSmsToRemote env remote_host_port sms_pdu)
      else rbind (sim_phone_number env) (\<lambda>own.
             if phone_number = own then Inr [PostCallback (CbHandleReceiveSMS sms_pdu) 1000] else Inr []))"

definition HandleSendSMSPDU :: "sms_env \<Rightarrow> client \<Rightarrow> string \<Rightarrow> sms_service \<Rightarrow> sms_service outcome" where
  "HandleSendSMSPDU env client command s =
     (let s = s\<lparr>is_waiting_sms_pdu := False\<rparr>;
          sms_pdu = DecodePDU command
      in if \<not> is_valid_pdu sms_pdu then Inr (s, SendCommandResponse client kCmsErrorInvalidPDUModeParam)
         else rbind (GetPhoneNumberFromAddress sms_pdu) (\<lambda>phone_number.
              rbind (remote_port phone_number) (\<lambda>port.
                if phone_number = [] then Inr (s, SendCommandResponse client kCmsErrorSCAddressUnknown)
                else rbind (route_sms env phone_number port sms_pdu) (\<lambda>evs.
                     rbind (int_incr (reference_number s)) (\<lambda>ref.
                       Inr (s\<lparr>reference_number := ref\<rparr>,
                            evs @ SendCommandResponses client [''+CMGS: '' @ to_string ref, ''OK''] @
                            (if IsNeededStatuReport sms_pdu
                             then [PostCallback (CbHandleSMSStatuReport sms_pdu ref) 1000] else [])))))))"

definition HandleReceiveSMS :: "clock_time \<Rightarrow> pdu_parser \<Rightarrow> event list" where
  "HandleReceiveSMS t sms_pdu =
     (let pdu = CreatePDU t sms_pdu
      in if pdu \<noteq> [] then SendUnsolicitedCommand ''+CMT: 0'' @ SendUnsolicitedCommand pdu else [])"

definition HandleWriteSMSPduToSim :: "client \<Rightarrow> string \<Rightarrow> sms_service \<Rightarrow> sms_service outcome" where
  "HandleWriteSMSPduToSim client command s =
     (case sms_status_on_sim s of
        None \<Rightarrow> Inl (UndefinedBehaviour ''sms_status_on_sim_ is not initialised'')
      | Some status \<Rightarrow>
          (let index = message_id s
           in rbind (int_incr index) (\<lambda>next_id.
                Inr (s\<lparr>is_waiting_sms_to_sim := False, message_id := next_id,
                       messages_on_sim_card :=
                         map_assign index \<lparr>sms_text = command, sms_status = status\<rparr> (messages_on_sim_card s)\<rparr>,
                     SendCommandResponses client [''+CMGW: '' @ to_string index, ''OK'']))))"

definition HandleSMSStatuReport :: "clock_time \<Rightarrow> clock_time \<Rightarrow> pdu_parser \<Rightarrow> int \<Rightarrow> event list" where
  "HandleSMSStatuReport t t' sms_pdu ref =
     (let pdu = CreateStatuReport t t' ref sms_pdu;
          pdu_length = (length pdu - 2) div 2
      in if pdu \<noteq> [] \<and> 0 < pdu_length then
           SendUnsolicitedCommand (''+CDS: '' @ to_dec pdu_length) @ SendUnsolicitedCommand pdu
         else [])"

definition HandleReceiveRemoteSMS :: "clock_time \<Rightarrow> client \<Rightarrow> string \<Rightarrow> sms_service \<Rightarrow> sms_service outcome" where
  "HandleReceiveRemoteSMS t client command s =
     (let sms_pdu = DecodePDU (SkipPrefix command)
      in if \<not> is_valid_pdu sms_pdu then Inr (s, [])
         else let pdu = CreatePDU t sms_pdu
         in Inr (s, if pdu \<noteq> [] then SendUnsolicitedCommand ''+CMT: 0'' @ SendUnsolicitedCommand pdu else []))"

definition sms_handlers :: "clock_time \<Rightarrow> sms_service command_handler list" where
  "sms_handlers t =
     [partial_handler ''+CMGS'' HandleSendSMS,
      partial_handler ''+CNMA'' HandleSMSAcknowledge,
      partial_handler ''+CMGW'' HandleWriteSMSToSim,
      partial_handler ''+CMGD'' HandleDeleteSmsOnSim,
      partial_handler ''+CSCB'' HandleBroadcastConfig,
      full_handler ''+CSCA?'' HandleGetSmscAddress,
      partial_handler ''+CSCA='' HandleSetSmscAddress,
      partial_handler ''+REMOTESMS'' (HandleReceiveRemoteSMS t)]"

section \<open>Messages on the SIM\<close>

text \<open>
  The messages have indices from 1 up to the next index, and the service waits for the text of a message for the SIM
  only when it has the status of that message.
\<close>

definition sms_inv :: "sms_service \<Rightarrow> bool" where
  "sms_inv s \<longleftrightarrow>
     sorted_wrt (<) (map fst (messages_on_sim_card s)) \<and>
     (\<forall>i \<in> fst ` set (messages_on_sim_card s). 1 \<le> i \<and> i < message_id s) \<and> 1 \<le> message_id s \<and>
     (is_waiting_sms_to_sim s \<longrightarrow> sms_status_on_sim s \<noteq> None)"

text \<open>
  A step of the service, as \<open>ModemSimulator::DispatchCommand\<close> makes it: the text of a message when the service waits
  for one, otherwise a command.
\<close>

inductive sms_step :: "sms_service \<Rightarrow> event list \<Rightarrow> sms_service \<Rightarrow> bool" where
  pdu: "is_waiting_sms_pdu s \<Longrightarrow> HandleSendSMSPDU env client text s = Inr (s', evs) \<Longrightarrow> sms_step s evs s'"
| sim: "\<not> is_waiting_sms_pdu s \<Longrightarrow> is_waiting_sms_to_sim s \<Longrightarrow>
    HandleWriteSMSPduToSim client text s = Inr (s', evs) \<Longrightarrow> sms_step s evs s'"
| command: "\<not> is_waiting_sms_pdu s \<Longrightarrow> \<not> is_waiting_sms_to_sim s \<Longrightarrow>
    HandleModemCommand (sms_handlers t) client cmd s = Inr (Some (s', evs)) \<Longrightarrow> sms_step s evs s'"

inductive sms_reachable :: "sms_service \<Rightarrow> bool" where
  start: "sms_reachable SmsService"
| step: "sms_reachable s \<Longrightarrow> sms_step s evs s' \<Longrightarrow> sms_reachable s'"

text \<open>The handlers that keep the messages, and that wait for one only with a status\<close>

definition keeps_messages :: "sms_service \<Rightarrow> sms_service \<Rightarrow> bool" where
  "keeps_messages s s' \<longleftrightarrow>
     messages_on_sim_card s' = messages_on_sim_card s \<and> message_id s' = message_id s \<and>
     (is_waiting_sms_to_sim s' \<longrightarrow> is_waiting_sms_to_sim s \<and> sms_status_on_sim s' = sms_status_on_sim s \<or>
        sms_status_on_sim s' \<noteq> None)"

lemma keeps_messages_inv: "keeps_messages s s' \<Longrightarrow> sms_inv s \<Longrightarrow> sms_inv s'"
  by (auto simp: keeps_messages_def sms_inv_def)

lemma handlers_keep:
  "HandleSendSMS client cmd s = Inr (s', evs) \<Longrightarrow> keeps_messages s s'"
  "HandleSMSAcknowledge client cmd s = Inr (s', evs) \<Longrightarrow> keeps_messages s s'"
  "HandleWriteSMSToSim client cmd s = Inr (s', evs) \<Longrightarrow> keeps_messages s s'"
  "HandleBroadcastConfig client cmd s = Inr (s', evs) \<Longrightarrow> keeps_messages s s'"
  "HandleGetSmscAddress client s = Inr (s', evs) \<Longrightarrow> keeps_messages s s'"
  "HandleSetSmscAddress client cmd s = Inr (s', evs) \<Longrightarrow> keeps_messages s s'"
  "HandleReceiveRemoteSMS t client cmd s = Inr (s', evs) \<Longrightarrow> keeps_messages s s'"
  unfolding keeps_messages_def
  by (auto simp: HandleSendSMS_def HandleSMSAcknowledge_def HandleWriteSMSToSim_def HandleBroadcastConfig_def
        HandleGetSmscAddress_def HandleSetSmscAddress_def HandleReceiveRemoteSMS_def rbind_eq_Inr Let_def
      split: prod.splits option.splits if_splits)

lemma HandleSendSMSPDU_keep:
  "HandleSendSMSPDU env client text s = Inr (s', evs) \<Longrightarrow> keeps_messages s s'"
  unfolding HandleSendSMSPDU_def keeps_messages_def Let_def
  by (auto simp: rbind_eq_Inr split: if_splits)

lemma HandleDeleteSmsOnSim_inv:
  assumes "HandleDeleteSmsOnSim client cmd s = Inr (s', evs)" and "sms_inv s"
  shows "sms_inv s'"
proof -
  have "sorted_wrt (<) (map fst (filter P (messages_on_sim_card s)))" for P
    using assms(2) by (simp add: sms_inv_def sorted_wrt_map_filter)
  then show ?thesis
    using assms by (fastforce simp: HandleDeleteSmsOnSim_def sms_inv_def split: prod.splits option.splits)
qed

lemma sms_handlers_inv:
  assumes "h \<in> set (sms_handlers t)" and "command_handler h client cmd s = Inr (s', evs)" and "sms_inv s"
  shows "sms_inv s'"
  using assms
  by (auto simp: sms_handlers_def dest: handlers_keep [THEN keeps_messages_inv] HandleDeleteSmsOnSim_inv)

lemma HandleWriteSMSPduToSim_inv:
  assumes "HandleWriteSMSPduToSim client text s = Inr (s', evs)" and "sms_inv s"
  shows "sms_inv s'"
proof -
  obtain status where status: "sms_status_on_sim s = Some status" and small: "message_id s < 2147483647"
    and s': "s' = s\<lparr>is_waiting_sms_to_sim := False, message_id := message_id s + 1, messages_on_sim_card :=
      map_assign (message_id s) \<lparr>sms_text = text, sms_status = status\<rparr> (messages_on_sim_card s)\<rparr>"
    using assms(1)
    by (auto simp: HandleWriteSMSPduToSim_def rbind_eq_Inr int_incr_def Let_def split: option.splits if_splits)
  let ?m = "map_assign (message_id s) \<lparr>sms_text = text, sms_status = status\<rparr> (messages_on_sim_card s)"
  have "sorted_wrt (<) (map fst ?m)" using assms(2) by (intro map_assign_strict) (simp add: sms_inv_def)
  moreover have "\<forall>i \<in> fst ` set ?m. 1 \<le> i \<and> i < message_id s + 1"
    using assms(2) unfolding set_fst_map_assign by (auto simp: sms_inv_def)
  ultimately show ?thesis using assms(2) by (simp add: s' sms_inv_def)
qed

lemma sms_reachable_inv: "sms_reachable s \<Longrightarrow> sms_inv s"
proof (induction rule: sms_reachable.induct)
  case start
  show ?case by (simp add: sms_inv_def SmsService_def)
next
  case (step s evs s')
  from step(2) step.IH show ?case
    by cases (auto dest: HandleSendSMSPDU_keep [THEN keeps_messages_inv] HandleWriteSMSPduToSim_inv
        dest!: handler_outcome intro: sms_handlers_inv)
qed

text \<open>
  C34. The text of a message for the SIM is stored under an index that no message has, with the status that the command
  gave; the response names the index; and deleting that index gives back the messages there were before.
\<close>
theorem sms_store_delete:
  assumes "sms_reachable s" and "is_waiting_sms_to_sim s" and "message_id s < 2147483647"
  shows "\<exists>s' status. sms_status_on_sim s = Some status \<and>
    HandleWriteSMSPduToSim client text s =
      Inr (s', SendCommandResponses client [''+CMGW: '' @ to_string (message_id s), ''OK'']) \<and>
    message_id s \<notin> fst ` set (messages_on_sim_card s) \<and>
    map_of (messages_on_sim_card s') =
      (map_of (messages_on_sim_card s))(message_id s \<mapsto> \<lparr>sms_text = text, sms_status = status\<rparr>) \<and>
    (\<exists>s''. HandleDeleteSmsOnSim client (''AT+CMGD='' @ to_string (message_id s)) s' =
       Inr (s'', SendCommandResponse client ''OK'') \<and> messages_on_sim_card s'' = messages_on_sim_card s)"
proof -
  have inv: "sms_inv s" using assms(1) by (rule sms_reachable_inv)
  let ?i = "message_id s"
  obtain status where status: "sms_status_on_sim s = Some status" using inv assms(2) by (auto simp: sms_inv_def)
  let ?m = "\<lparr>sms_text = text, sms_status = status\<rparr>"
  have fresh: "?i \<notin> fst ` set (messages_on_sim_card s)" "\<forall>j \<in> fst ` set (messages_on_sim_card s). j < ?i"
    using inv by (auto simp: sms_inv_def)
  have last: "map_assign ?i ?m (messages_on_sim_card s) = messages_on_sim_card s @ [(?i, ?m)]"
    using fresh(2) by (intro map_assign_last(1)) auto
  have "(\<lambda>(i, _). i \<noteq> ?i) x" if "x \<in> set (messages_on_sim_card s)" for x
    using that fresh(1) by (auto simp: image_iff split: prod.split)
  then have keep: "filter (\<lambda>(i, _). i \<noteq> ?i) (messages_on_sim_card s) = messages_on_sim_card s"
    by (intro filter_True) auto
  have none: "map_of (messages_on_sim_card s) ?i = None" using fresh(1) by (simp add: map_of_eq_None_iff)
  define s' where "s' = s\<lparr>is_waiting_sms_to_sim := False, message_id := ?i + 1,
    messages_on_sim_card := messages_on_sim_card s @ [(?i, ?m)]\<rparr>"
  have "in_int32 ?i" using inv assms(3) by (simp add: sms_inv_def in_int32_def)
  moreover have "SkipPrefix (''AT+CMGD='' @ t) = t" for t
    using skip_past_first [of "CHR ''=''" "''AT+CMGD''" t] by (simp add: SkipPrefix_def)
  ultimately have dl: "HandleDeleteSmsOnSim client (''AT+CMGD='' @ to_string ?i) s' =
      Inr (s'\<lparr>messages_on_sim_card := messages_on_sim_card s\<rparr>, SendCommandResponse client ''OK'')"
    by (simp add: HandleDeleteSmsOnSim_def s'_def map_of_append map_add_def none keep)
  have wr: "HandleWriteSMSPduToSim client text s =
      Inr (s', SendCommandResponses client [''+CMGW: '' @ to_string ?i, ''OK''])"
    using assms(3) by (simp add: HandleWriteSMSPduToSim_def status int_incr_def s'_def last Let_def)
  have "map_of (messages_on_sim_card s') = (map_of (messages_on_sim_card s))(?i \<mapsto> ?m)"
    using none by (auto simp: s'_def map_add_def fun_eq_iff split: option.split)
  with status fresh(1) wr dl show ?thesis by auto
qed

lemma sample_CMGW:
  "HandleModemCommand (sms_handlers t) client ''AT+CMGW=7,1'' SmsService =
     Inr (Some (SmsService\<lparr>is_waiting_sms_to_sim := True, sms_status_on_sim := Some 1\<rparr>,
                SendCommandResponse client ''> ''))"
  by (simp add: sms_handlers_def Compare_partial Compare_full starts_with_def HandleWriteSMSToSim_def SkipPrefix_def
      SkipComma_def skip_past_def find_char_def GetNextInt_def GetNextStrFlag_def parse_int_def scan_int_def c_str_def
      skip_space_def isspace_def is_digit_def digit_value_def wrap_int32_def to_enum_def)

lemma sample_waiting: "sms_reachable (SmsService\<lparr>is_waiting_sms_to_sim := True, sms_status_on_sim := Some 1\<rparr>)"
  by (rule step [OF start command [OF _ _ sample_CMGW]]) (simp_all add: SmsService_def)

theorem sms_store_delete_witness:
  "\<exists>s'. HandleWriteSMSPduToSim ril ''0021'' (SmsService\<lparr>is_waiting_sms_to_sim := True, sms_status_on_sim := Some 1\<rparr>) =
      Inr (s', SendCommandResponses ril [''+CMGW: '' @ to_string 1, ''OK'']) \<and>
    map_of (messages_on_sim_card s') = [1 \<mapsto> \<lparr>sms_text = ''0021'', sms_status = 1\<rparr>]"
  using sms_store_delete [OF sample_waiting, of ril "''0021''"] by (auto simp: SmsService_def)

text \<open>The text that a message for another device is written as, without its carriage return\<close>

definition remote_sms_text :: "string \<Rightarrow> string" where
  "remote_sms_text pdu = ''AT+REMOTESMS='' @ pdu"

lemma HandleReceiveRemoteSMS_text:
  assumes "wf_pdu q"
  shows "HandleReceiveRemoteSMS t client (remote_sms_text (pdu_text q)) s =
    Inr (s, [Unsolicited ''+CMT: 0'', Unsolicited (CreatePDU t q)])"
proof -
  have "SkipPrefix (remote_sms_text (pdu_text q)) = pdu_text q"
    using skip_past_first [of "CHR ''=''" "''AT+REMOTESMS''"] by (simp add: SkipPrefix_def remote_sms_text_def)
  moreover have "is_valid_pdu q" using assms by (simp add: wf_pdu_def)
  ultimately show ?thesis
    using DecodePDU_pdu_text [OF assms]
    by (simp add: HandleReceiveRemoteSMS_def SendUnsolicitedCommand_def CreatePDU_def kWithoutServiceCenterAddress_def)
qed

lemma remote_port_number: "remote_port num = Inr port \<Longrightarrow> is_remote_port port \<Longrightarrow> 4 \<le> length num"
  by (auto simp: remote_port_def is_remote_port_def kRemotePortRange_def split: if_splits)


definition sample_sms_env :: sms_env where
  "sample_sms_env = \<lparr>sms_host_id = 6520, sim_phone_number = Inr ''5551234'', sms_remote_open = (\<lambda>_. True)\<rparr>"

lemma sample_ports: "to_string 6520 = ''6520''" "to_string 6521 = ''6521''"
  by (simp_all add: to_string_def to_dec_def to_base.simps)

lemma sample_remote_port: "remote_port ''6521'' = Inr 6521"
  using stoi_to_string [of 6521] by (simp add: remote_port_def sample_ports in_int32_def)


lemma scan_int_no_digit:
  "\<not> isspace c \<Longrightarrow> c \<noteq> CHR ''-'' \<Longrightarrow> c \<noteq> CHR ''+'' \<Longrightarrow> \<not> is_digit 10 c \<Longrightarrow> scan_int 10 (c # cs) = None"
  by (simp add: scan_int_def skip_space_def)

text \<open>
  A valid PDU whose number has four characters, the first of them not a digit, ends the handler with the exception
  of \<open>std::stoi\<close>, which nothing catches.
\<close>
theorem HandleSendSMSPDU_throws:
  assumes "wf_pdu p" and "GetPhoneNumberFromAddress p = Inr num" and "length num = 4"
    and "hd num \<in> {CHR ''A'', CHR ''B'', CHR ''C'', CHR ''D'', CHR ''E'', CHR ''*'', CHR ''#''}"
  shows "HandleSendSMSPDU env client (pdu_text p) s = Inl (StdException ''invalid_argument'')"
proof -
  obtain c cs where num: "num = c # cs" using assms(3) by (cases num) auto
  have "\<not> isspace c" "c \<noteq> CHR ''-''" "c \<noteq> CHR ''+''" "c \<noteq> CHR 0x00" "\<not> is_digit 10 c"
    using assms(4) by (auto simp: num isspace_def is_digit_def digit_value_def)
  then have "scan_int 10 (c_str num) = None" by (simp add: num c_str_def scan_int_no_digit)
  then have "remote_port num = Inl (StdException ''invalid_argument'')"
    using assms(3) by (simp add: remote_port_def stoi_def)
  moreover have "is_valid_pdu p" using assms(1) by (simp add: wf_pdu_def)
  ultimately show ?thesis
    using assms(2) by (simp add: HandleSendSMSPDU_def DecodePDU_pdu_text [OF assms(1)] Let_def)
qed

theorem HandleSendSMSPDU_throws_witness:
  "HandleSendSMSPDU sample_sms_env ril (pdu_text (sample_pdu\<lparr>originator_address := ''0481BA21''\<rparr>)) SmsService =
   Inl (StdException ''invalid_argument'')"
proof -
  have wf: "wf_pdu (sample_pdu\<lparr>originator_address := ''0481BA21''\<rparr>)"
    and num: "GetPhoneNumberFromAddress (sample_pdu\<lparr>originator_address := ''0481BA21''\<rparr>) = Inr ''AB12''"
    by code_simp+
  show ?thesis by (rule HandleSendSMSPDU_throws [OF wf num]) simp_all
qed

text \<open>The service centre address cannot be queried before it is set.\<close>

lemma HandleGetSmscAddress_uninitialised:
  "HandleGetSmscAddress client SmsService = Inl (UndefinedBehaviour ''tosca is not initialised'')"
  by (simp add: HandleGetSmscAddress_def SmsService_def)

end
