(* ===== verification/Modem_Sup.thy ===== *)
theory Modem_Sup
  imports Modem_Service
begin

text \<open>
  The supplementary service of the modem simulator, \<open>host/commands/modem_simulator/sup_service.{h,cpp}\<close>: call
  forwarding, call waiting and the presentation of the calling line.  The constructor does not initialise
  \<open>clir_status_\<close>, so that its members are options; no operation ever sets its status.
\<close>

section \<open>Definitions\<close>

record CallForwardInfo =
  cf_status :: int
  cf_reason :: int
  number_type :: int
  ton :: int
  cf_number :: string
  timeSeconds :: int

definition CFU :: int where
  "CFU = 0"

definition CFB :: int where
  "CFB = 1"

definition CFNR :: int where
  "CFNR = 2"

definition CFNRC :: int where
  "CFNRC = 3"

definition ALL_CF :: int where
  "ALL_CF = 4"

definition CF_ENABLE :: int where
  "CF_ENABLE = 1"

definition INTERROGATE :: int where
  "INTERROGATE = 2"

definition REGISTRATION :: int where
  "REGISTRATION = 3"

definition call_forward_info :: "int \<Rightarrow> CallForwardInfo" where
  "call_forward_info reason =
     \<lparr>cf_status = 0, cf_reason = reason, number_type = 2, ton = 129, cf_number = [], timeSeconds = 0\<rparr>"

record sup_service =
  clir_type :: "int option"
  clir_status :: "int option"
  call_forward_infos :: "CallForwardInfo list"
  presentation_status :: int
  waiting_mode :: int
  waiting_class :: int

definition SupService :: sup_service where
  "SupService =
     \<lparr>clir_type = None, clir_status = None,
      call_forward_infos = map call_forward_info [CFU, CFB, CFNR, CFNRC],
      presentation_status = 1, waiting_mode = 0, waiting_class = 7\<rparr>"

definition HandleUSSD :: "client \<Rightarrow> string \<Rightarrow> sup_service \<Rightarrow> sup_service outcome" where
  "HandleUSSD client command s = Inr (s, SendCommandResponse client ''OK'')"

definition HandleCLIR :: "client \<Rightarrow> string \<Rightarrow> sup_service \<Rightarrow> sup_service outcome" where
  "HandleCLIR client command s =
     (let cmd = SkipPrefix command
      in if cmd = ''AT+CLIR?'' then
           (case (clir_type s, clir_status s) of
              (Some ty, Some st) \<Rightarrow>
                Inr (s, SendCommandResponses client [''+CLIR:'' @ to_string ty @ '','' @ to_string st, ''OK''])
            | _ \<Rightarrow> Inl (UndefinedBehaviour ''clir_status_ is not initialised''))
         else let (n, _) = GetNextInt cmd
         in rbind (to_enum 2 n) (\<lambda>ty. Inr (s\<lparr>clir_type := Some ty\<rparr>, SendCommandResponses client [''OK''])))"

definition HandleCLIP :: "client \<Rightarrow> sup_service \<Rightarrow> sup_service outcome" where
  "HandleCLIP client s = Inr (s, SendCommandResponses client [''+CLIP: 0, 0'', ''OK''])"

definition HandleSuppServiceNotifications :: "client \<Rightarrow> string \<Rightarrow> sup_service \<Rightarrow> sup_service outcome" where
  "HandleSuppServiceNotifications client command s = Inr (s, SendCommandResponse client ''OK'')"

definition ccfcu_line :: "int \<Rightarrow> int \<Rightarrow> int \<Rightarrow> bool \<Rightarrow> CallForwardInfo \<Rightarrow> string" where
  "ccfcu_line classx number_ty tn no_reply info =
     ''+CCFCU: '' @ to_string (cf_status info) @ '','' @ to_string classx @ '','' @ to_string number_ty @ '','' @
     to_string tn @ '','' @ [CHR 0x22] @ cf_number info @ [CHR 0x22] @
     (if no_reply then '',,,'' @ to_string (timeSeconds info) else [])"

definition HandleCallForward :: "client \<Rightarrow> string \<Rightarrow> sup_service \<Rightarrow> sup_service outcome" where
  "HandleCallForward client command s =
     (let (reason, cmd) = GetNextInt (SkipPrefix command);
          (status, cmd) = GetNextInt cmd;
          (number_ty, cmd) = GetNextInt cmd;
          (tn, cmd) = GetNextInt cmd;
          (num, cmd) = GetNextStr cmd;
          (classx, cmd) = GetNextInt cmd;
          infos = call_forward_infos s
      in if reason = ALL_CF then
           Inr (s, SendCommandResponses client
                     ((if status = INTERROGATE
                       then map (\<lambda>i. ccfcu_line classx number_ty tn (cf_reason i = CFNR) i) infos else []) @ [''OK'']))
         else if reason = CFU \<or> reason = CFB \<or> reason = CFNR \<or> reason = CFNRC then
           (if length infos \<le> nat reason then Inl (UndefinedBehaviour ''call_forward_infos_ index'')
            else let info = infos ! nat reason
            in if status = INTERROGATE then
                 Inr (s, SendCommandResponses client [ccfcu_line classx number_ty tn (reason = CFNR) info, ''OK''])
               else rbind (if status = REGISTRATION then Inr CF_ENABLE else to_enum 3 status) (\<lambda>st.
                 let seconds = fst (GetNextInt (SkipComma (SkipComma (SkipComma cmd))));
                     info = info\<lparr>cf_status := st, number_type := number_ty, ton := tn, cf_number := num\<rparr>;
                     info = (if reason = CFNR then info\<lparr>timeSeconds := (if 0 \<le> seconds then seconds else 0)\<rparr> else info)
                 in Inr (s\<lparr>call_forward_infos := infos[nat reason := info]\<rparr>, SendCommandResponses client [''OK''])))
         else Inr (s, SendCommandResponse client kCmeErrorInCorrectParameters))"

definition HandleCallWaiting :: "client \<Rightarrow> string \<Rightarrow> sup_service \<Rightarrow> sup_service outcome" where
  "HandleCallWaiting client command s =
     (let (mode, cmd) = GetNextInt (SkipComma (SkipPrefix command));
          (classx, cmd) = GetNextInt cmd
      in if mode = 2 then
           Inr (s, SendCommandResponses client
                     [''+CCWA: '' @ to_string (waiting_mode s) @ '','' @ to_string (if classx = -1 then 7 else classx),
                      ''OK''])
         else if mode = 0 \<or> mode = 1 then
           Inr (s\<lparr>waiting_mode := mode, waiting_class := (if classx \<noteq> -1 then classx else waiting_class s)\<rparr>,
                SendCommandResponses client [''OK''])
         else Inr (s, SendCommandResponses client [''OK'']))"

definition sup_handlers :: "sup_service command_handler list" where
  "sup_handlers =
     [partial_handler ''+CUSD'' HandleUSSD,
      partial_handler ''+CLIR'' HandleCLIR,
      partial_handler ''+CCWA'' HandleCallWaiting,
      full_handler ''+CLIP?'' HandleCLIP,
      partial_handler ''+CCFCU'' HandleCallForward,
      partial_handler ''+CSSN'' HandleSuppServiceNotifications]"

section \<open>Invariant\<close>

text \<open>There is one entry for each of the four reasons, at its index, and the status of the calling line is never set.\<close>

definition reasons_ok :: "CallForwardInfo list \<Rightarrow> bool" where
  "reasons_ok infos \<longleftrightarrow> map cf_reason infos = [CFU, CFB, CFNR, CFNRC]"

definition sup_inv :: "sup_service \<Rightarrow> bool" where
  "sup_inv s \<longleftrightarrow> reasons_ok (call_forward_infos s) \<and> clir_status s = None"

lemmas cf_reasons = CFU_def CFB_def CFNR_def CFNRC_def ALL_CF_def INTERROGATE_def REGISTRATION_def CF_ENABLE_def

lemma sup_inv_start: "sup_inv SupService"
  by (simp add: sup_inv_def reasons_ok_def SupService_def call_forward_info_def)

lemma reasons_ok_update:
  assumes "reasons_ok infos" and "cf_reason x = cf_reason (infos ! i)"
  shows "reasons_ok (infos[i := x])"
proof -
  have "map cf_reason (infos[i := x]) = map cf_reason infos"
    using assms(2)
    by (cases "i < length infos") (simp_all add: map_update list_update_same_conv list_update_beyond)
  with assms(1) show ?thesis by (simp add: reasons_ok_def)
qed

lemma HandleCallForward_inv:
  assumes "HandleCallForward client cmd s = Inr (s', evs)" and "sup_inv s"
  shows "sup_inv s'"
  using assms
  by (auto simp: HandleCallForward_def sup_inv_def rbind_eq_Inr reasons_ok_update Let_def
      split: prod.splits if_splits)

lemma sup_handlers_inv:
  assumes "HandleModemCommand sup_handlers client cmd s = Inr (Some (s', evs))" and "sup_inv s"
  shows "sup_inv s'"
proof -
  obtain h where "h \<in> set sup_handlers" "command_handler h client cmd s = Inr (s', evs)"
    using handler_outcome [OF assms(1)] by auto
  moreover have "sup_inv s'" if "HandleCLIR client cmd s = Inr (s', evs)"
    using that assms(2)
    by (auto simp: HandleCLIR_def sup_inv_def Let_def rbind_eq_Inr split: if_splits prod.splits option.splits)
  moreover have "sup_inv s'" if "HandleCallWaiting client cmd s = Inr (s', evs)"
    using that assms(2) by (auto simp: HandleCallWaiting_def sup_inv_def Let_def split: if_splits prod.splits)
  ultimately show ?thesis
    using assms(2)
    by (auto simp: sup_handlers_def HandleUSSD_def HandleCLIP_def HandleSuppServiceNotifications_def
        dest: HandleCallForward_inv)
qed

section \<open>Properties\<close>

text \<open>
  The query \<open>AT+CLIR?\<close> is undefined behaviour in every state of the service that keeps its invariant: the status
  it prints is never initialised.
\<close>
theorem CLIR_query_undefined:
  assumes "sup_inv s"
  shows "HandleModemCommand sup_handlers client ''AT+CLIR?'' s =
    Inl (UndefinedBehaviour ''clir_status_ is not initialised'')"
proof -
  have "SkipPrefix ''AT+CLIR?'' = ''AT+CLIR?''" by (simp add: SkipPrefix_def)
  then have "HandleCLIR client ''AT+CLIR?'' s = Inl (UndefinedBehaviour ''clir_status_ is not initialised'')"
    using assms by (simp add: HandleCLIR_def sup_inv_def split: option.split)
  then show ?thesis by (simp add: sup_handlers_def Compare_partial Compare_full starts_with_def)
qed

theorem CLIR_query_undefined_witness:
  "HandleModemCommand sup_handlers ril ''AT+CLIR?'' SupService =
     Inl (UndefinedBehaviour ''clir_status_ is not initialised'')"
  by (rule CLIR_query_undefined [OF sup_inv_start])

end
