(* ===== verification/Modem_Data.thy ===== *)
theory Modem_Data
  imports Modem_Service
begin

text \<open>
  The data service of the modem simulator, \<open>host/commands/modem_simulator/data_service.{h,cpp}\<close>: the packet data
  contexts and the reports of the physical channels.  The addresses come from the device's configuration.
\<close>

section \<open>Definitions\<close>

datatype cid_state = ACTIVE | NO_ACTIVE

fun cid_state_int :: "cid_state \<Rightarrow> int" where
  "cid_state_int ACTIVE = 0"
| "cid_state_int NO_ACTIVE = 1"

record PDPContext =
  cid :: int
  pdp_state :: cid_state
  conn_types :: string
  apn :: string
  addresses :: string
  dnses :: string
  gateways :: string

record ril_config =
  ril_address_and_prefix :: string
  ril_dns :: string
  ril_gateway :: string

type_synonym data_service = "PDPContext list"

definition DataService :: data_service where
  "DataService = []"

definition HandleActivateDataCall :: "client \<Rightarrow> string \<Rightarrow> data_service \<Rightarrow> data_service outcome" where
  "HandleActivateDataCall client command s = Inr (s, SendCommandResponse client ''OK'')"

definition HandleQueryDataCallList :: "client \<Rightarrow> data_service \<Rightarrow> data_service outcome" where
  "HandleQueryDataCallList client s =
     Inr (s, SendCommandResponses client
               (map (\<lambda>c. ''+CGACT: '' @ to_string (cid c) @ '','' @ to_string (cid_state_int (pdp_state c)))
                  (filter (\<lambda>c. pdp_state c = ACTIVE) s) @ [''OK'']))"

fun set_context :: "PDPContext \<Rightarrow> PDPContext list \<Rightarrow> PDPContext list" where
  \<comment> \<open>the first context with the same id is replaced, otherwise the context is appended\<close>
  "set_context c [] = [c]"
| "set_context c (d # ds) = (if cid c = cid d then c # ds else d # set_context c ds)"

definition HandlePDPContext :: "ril_config \<Rightarrow> client \<Rightarrow> string \<Rightarrow> data_service \<Rightarrow> data_service outcome" where
  "HandlePDPContext config client command s =
     (let (n, cmd) = GetNextInt (SkipPrefix command);
          (ip_type, cmd) = GetNextStrFlag (CHR '','') cmd;
          (name, cmd) = GetNextStrFlag (CHR '','') cmd
      in Inr (set_context
                \<lparr>cid = n, pdp_state = ACTIVE, conn_types = ip_type, apn = name,
                 addresses = ril_address_and_prefix config, dnses = ril_dns config, gateways = ril_gateway config\<rparr> s,
              SendCommandResponse client ''OK''))"

definition HandleQueryPDPContextList :: "client \<Rightarrow> data_service \<Rightarrow> data_service outcome" where
  "HandleQueryPDPContextList client s =
     Inr (s, SendCommandResponses client
               (map (\<lambda>c. ''+CGDCONT: '' @ to_string (cid c) @ '','' @ conn_types c @ '','' @ apn c @ '','' @
                         addresses c @ '',0,0'') s @ [''OK'']))"

definition HandleEnterDataState :: "client \<Rightarrow> string \<Rightarrow> data_service \<Rightarrow> data_service outcome" where
  "HandleEnterDataState client command s =
     (let (n, _) = GetNextInt (SkipComma (SkipPrefix command))
      in case find (\<lambda>c. n = cid c \<and> pdp_state c = ACTIVE) s of
           Some _ \<Rightarrow> Inr (s, SendCommandResponse client ''CONNECT'')
         | None \<Rightarrow> Inr (s, SendCommandResponse client ''ERROR''))"

definition HandleReadDynamicParam :: "client \<Rightarrow> string \<Rightarrow> data_service \<Rightarrow> data_service outcome" where
  "HandleReadDynamicParam client command s =
     (let (n, _) = GetNextInt (SkipPrefix command)
      in case find (\<lambda>c. n = cid c \<and> pdp_state c = ACTIVE) s of
           None \<Rightarrow> Inr (s, SendCommandResponses client [kCmeErrorInvalidIndex])
         | Some c \<Rightarrow>
             Inr (s, SendCommandResponses client
                       [''+CGCONTRDP: '' @ to_string (cid c) @ '',5,'' @ apn c @ '','' @ addresses c @ '','' @
                        gateways c @ '','' @ dnses c, ''OK'']))"

definition sendOnePhysChanCfgUpdate :: "int \<Rightarrow> int \<Rightarrow> int \<Rightarrow> int \<Rightarrow> int \<Rightarrow> event list" where
  "sendOnePhysChanCfgUpdate status bandwidth rat freq n =
     SendUnsolicitedCommand
       (''%CGFPCCFG: '' @ to_string status @ '','' @ to_string bandwidth @ '','' @ to_string rat @ '','' @
        to_string freq @ '','' @ to_string n)"

definition updatePhysicalChannelconfigs :: "int \<Rightarrow> int \<Rightarrow> int \<Rightarrow> int \<Rightarrow> data_service \<Rightarrow> event list" where
  "updatePhysicalChannelconfigs modem_tech freq cellBandwidthDownlink count s =
     (if count \<le> 0 then []
      else concat (map (\<lambda>c. sendOnePhysChanCfgUpdate 1 cellBandwidthDownlink modem_tech freq (cid c) @
                            sendOnePhysChanCfgUpdate 2 cellBandwidthDownlink modem_tech freq (cid c))
                     (filter (\<lambda>c. pdp_state c = ACTIVE) s)) @
           [PostCallback (CbUpdatePhysicalChannelconfigs modem_tech freq cellBandwidthDownlink (count - 1)) 1000])"

definition onUpdatePhysicalChannelconfigs :: "int \<Rightarrow> int \<Rightarrow> int \<Rightarrow> data_service \<Rightarrow> event list" where
  "onUpdatePhysicalChannelconfigs modem_tech freq cellBandwidthDownlink s =
     updatePhysicalChannelconfigs modem_tech freq cellBandwidthDownlink 3 s"

definition default_supported :: "client \<Rightarrow> 's \<Rightarrow> 's outcome" where
  "default_supported client s = Inr (s, HandleCommandDefaultSupported client)"

definition data_handlers :: "ril_config \<Rightarrow> data_service command_handler list" where
  "data_handlers config =
     [partial_handler ''+CGACT='' HandleActivateDataCall,
      full_handler ''+CGACT?'' HandleQueryDataCallList,
      partial_handler ''+CGDCONT='' (HandlePDPContext config),
      full_handler ''+CGDCONT?'' HandleQueryPDPContextList,
      full_handler ''+CGQREQ=1'' default_supported,
      full_handler ''+CGQMIN=1'' default_supported,
      full_handler ''+CGEREP=1,0'' default_supported,
      partial_handler ''+CGDATA'' HandleEnterDataState,
      full_handler ''D*99***1#'' default_supported,
      partial_handler ''+CGCONTRDP'' HandleReadDynamicParam]"

section \<open>Contexts\<close>

text \<open>The contexts have different ids, and all of them are active.\<close>

definition data_inv :: "data_service \<Rightarrow> bool" where
  "data_inv s \<longleftrightarrow> distinct (map cid s) \<and> (\<forall>c \<in> set s. pdp_state c = ACTIVE)"

lemma cid_set_context: "cid ` set (set_context c s) = insert (cid c) (cid ` set s)"
  by (induction c s rule: set_context.induct) auto

lemma set_set_context: "set (set_context c s) \<subseteq> insert c (set s)"
  by (induction c s rule: set_context.induct) auto

lemma set_context_inv:
  assumes "data_inv s" and "pdp_state c = ACTIVE"
  shows "data_inv (set_context c s)"
proof -
  have "distinct (map cid (set_context c s))"
    using assms(1) unfolding data_inv_def
    by (induction c s rule: set_context.induct) (auto simp flip: set_map simp: cid_set_context [unfolded set_map [symmetric]])
  then show ?thesis using assms set_set_context [of c s] by (auto simp: data_inv_def)
qed

lemma find_set_context: "find (\<lambda>d. cid c = cid d \<and> pdp_state d = ACTIVE) (set_context c s) = Some c"
  if "pdp_state c = ACTIVE"
  using that by (induction c s rule: set_context.induct) auto

lemma data_handlers_inv:
  assumes "HandleModemCommand (data_handlers config) client cmd s = Inr (Some (s', evs))" and "data_inv s"
  shows "data_inv s'"
proof -
  obtain h where "h \<in> set (data_handlers config)" "command_handler h client cmd s = Inr (s', evs)"
    using handler_outcome [OF assms(1)] by auto
  then show ?thesis
    using assms(2)
    by (auto simp: data_handlers_def HandleActivateDataCall_def HandleQueryDataCallList_def HandlePDPContext_def
        HandleQueryPDPContextList_def default_supported_def HandleEnterDataState_def HandleReadDynamicParam_def Let_def
        split: prod.splits option.splits intro!: set_context_inv)
qed

section \<open>Properties\<close>

text \<open>The contexts with another id stay as they are.\<close>

lemma set_context_others: "m \<noteq> cid c \<Longrightarrow> filter (\<lambda>d. cid d = m) (set_context c s) = filter (\<lambda>d. cid d = m) s"
  by (induction c s rule: set_context.induct) auto

text \<open>
  A context that is defined with \<open>AT+CGDCONT\<close> can be used: entering the data state with its id connects, its
  dynamic parameters are the given name with the addresses of the configuration, and contexts with other ids stay.
\<close>
theorem PDPContext_defined:
  assumes "in_int32 n" and "CHR '','' \<notin> set ty" and "CHR '','' \<notin> set name"
  shows "\<exists>s'. HandlePDPContext config client
      (''AT+CGDCONT='' @ to_string n @ '','' @ ty @ '','' @ name @ '','' @ rest) s = Inr (s', SendCommandResponse client ''OK'') \<and>
    HandleEnterDataState client (''AT+CGDATA=PPP,'' @ to_string n) s' = Inr (s', SendCommandResponse client ''CONNECT'') \<and>
    HandleReadDynamicParam client (''AT+CGCONTRDP='' @ to_string n) s' =
      Inr (s', SendCommandResponses client
        [''+CGCONTRDP: '' @ to_string n @ '',5,'' @ name @ '','' @ ril_address_and_prefix config @ '','' @
         ril_gateway config @ '','' @ ril_dns config, ''OK'']) \<and>
    (\<forall>m. m \<noteq> n \<longrightarrow> filter (\<lambda>d. cid d = m) s' = filter (\<lambda>d. cid d = m) s)"
proof -
  define c where "c = \<lparr>cid = n, pdp_state = ACTIVE, conn_types = ty, apn = name,
    addresses = ril_address_and_prefix config, dnses = ril_dns config, gateways = ril_gateway config\<rparr>"
  have skip: "SkipPrefix (p @ ''='' @ t) = t" if "CHR ''='' \<notin> set p" for p t
    using skip_past_first [of "CHR ''=''" p t] that by (simp add: SkipPrefix_def)
  have "SkipPrefix (''AT+CGDCONT='' @ t) = t" "SkipPrefix (''AT+CGCONTRDP='' @ t) = t"
    "SkipPrefix (''AT+CGDATA=PPP,'' @ t) = ''PPP,'' @ t" for t
    using skip [of "''AT+CGDCONT''" t] skip [of "''AT+CGCONTRDP''" t] skip [of "''AT+CGDATA''" "''PPP,'' @ t"] by simp_all
  note skips = this
  have comma: "SkipComma (''PPP,'' @ t) = t" for t
    using skip_past_first [of "CHR '',''" "''PPP''" t] by (simp add: SkipComma_def)
  have "find (\<lambda>d. n = cid d \<and> pdp_state d = ACTIVE) (set_context c s) = Some c"
    using find_set_context [of c s] by (simp add: c_def)
  moreover have "GetNextInt (to_string n @ '','' @ t) = (n, t)" for t using assms(1) by simp
  moreover have "GetNextStrFlag (CHR '','') (u @ '','' @ t) = (u, t)" if "CHR '','' \<notin> set u" for u t
    using that by simp
  ultimately show ?thesis
    using assms set_context_others [of _ c s]
    by (intro exI [of _ "set_context c s"])
      (simp add: HandlePDPContext_def HandleEnterDataState_def HandleReadDynamicParam_def skips [simplified]
        comma [simplified] c_def)
qed

theorem PDPContext_defined_witness:
  "\<exists>s'. HandlePDPContext \<lparr>ril_address_and_prefix = ''10.0.2.15/24'', ril_dns = ''8.8.8.8'', ril_gateway = ''10.0.2.2''\<rparr> ril
      (''AT+CGDCONT='' @ to_string 1 @ '','' @ ''IP'' @ '','' @ ''internet'' @ '','' @ '',0,0'') DataService =
        Inr (s', SendCommandResponse ril ''OK'') \<and>
    HandleEnterDataState ril (''AT+CGDATA=PPP,'' @ to_string 1) s' = Inr (s', SendCommandResponse ril ''CONNECT'')"
  using PDPContext_defined [of 1 "''IP''" "''internet''"
      "\<lparr>ril_address_and_prefix = ''10.0.2.15/24'', ril_dns = ''8.8.8.8'', ril_gateway = ''10.0.2.2''\<rparr>" ril "'',0,0''" DataService]
  by (auto simp: in_int32_def)

end
