(* ===== verification/Modem_Misc.thy ===== *)
theory Modem_Misc
  imports Modem_Data
begin

text \<open>
  The miscellaneous service of the modem simulator, \<open>host/commands/modem_simulator/misc_service.{h,cpp}\<close>: the
  identity of the device and the report of the time.  The clock is an argument: the fields of \<open>std::gmtime\<close> with the
  difference of the local time to it, and whether daylight saving is in force.
\<close>

section \<open>Definitions\<close>

type_synonym misc_service = string  \<comment> \<open>\<open>timezone_\<close>\<close>

definition FixTimeZone :: "string \<Rightarrow> string" where
  "FixTimeZone line =
     (case find_char (CHR ''/'') line of
        None \<Rightarrow> line
      | Some slashpos \<Rightarrow> take slashpos line @ ''!'' @ drop (slashpos + 1) line)"

text \<open>The first line of \<open>/etc/timezone\<close>, if there is one\<close>

definition ParseTimeZone :: "string option \<Rightarrow> misc_service" where
  "ParseTimeZone first_line = (case first_line of None \<Rightarrow> [] | Some line \<Rightarrow> FixTimeZone line)"

definition SetTimeZone :: "string \<Rightarrow> misc_service \<Rightarrow> misc_service" where
  "SetTimeZone tz s = FixTimeZone tz"

definition HandleGetIMEI :: "client \<Rightarrow> string \<Rightarrow> misc_service \<Rightarrow> misc_service outcome" where
  "HandleGetIMEI client command s =
     (let identityGsmImei = ''867400022047199'';
          identityGsmSvn = ''01'';
          information = ''modem simulator'';
          snt = fst (GetNextInt (SkipPrefix command));
          response = (if command = ''AT+CGSN'' then identityGsmImei
                      else if snt = 0 then identityGsmImei @ information
                      else if snt = 1 then identityGsmImei
                      else if snt = 2 then identityGsmImei @ identityGsmSvn
                      else if snt = 3 then identityGsmSvn
                      else identityGsmImei)
      in Inr (s, SendCommandResponses client [response, ''OK'']))"

record misc_clock =
  gm_time :: clock_time
  tm_isdst :: int

definition TimeZoneOffset :: "misc_clock \<Rightarrow> int" where
  "TimeZoneOffset now = gmt_diff (gm_time now)"

definition two_digits :: "int \<Rightarrow> string" where
  "two_digits n = setw0 2 (to_string n)"

definition TimeUpdate :: "misc_clock \<Rightarrow> misc_service \<Rightarrow> event list" where
  "TimeUpdate now s =
     (let gm = gm_time now;
          tzdiff = TimeZoneOffset now sdiv (15 * 60)
      in SendUnsolicitedCommand
           (''%CTZV: '' @ two_digits (tm_year gm smod 100) @ ''/'' @ two_digits (tm_mon gm + 1) @ ''/'' @
            two_digits (tm_mday gm) @ '':'' @ two_digits (tm_hour gm) @ '':'' @ two_digits (tm_min gm) @ '':'' @
            two_digits (tm_sec gm) @ (if 0 \<le> tzdiff then ''+'' else ''-'') @
            to_string (if 0 \<le> tzdiff then tzdiff else - tzdiff) @ '':'' @ to_string (tm_isdst now) @
            (if s \<noteq> [] then '':'' @ s else [])))"

definition HandleTimeUpdate :: "misc_clock \<Rightarrow> client \<Rightarrow> string \<Rightarrow> misc_service \<Rightarrow> misc_service outcome" where
  "HandleTimeUpdate now client command s = Inr (s, TimeUpdate now s)"

definition misc_handlers :: "misc_clock \<Rightarrow> misc_service command_handler list" where
  "misc_handlers now =
     [full_handler ''E0Q0V1'' default_supported,
      full_handler ''S0=0'' default_supported,
      full_handler ''+CMEE=1'' default_supported,
      full_handler ''+CMOD=0'' default_supported,
      full_handler ''+CSSN=0,1'' default_supported,
      full_handler ''+COLP=0'' default_supported,
      full_handler (''+CSCS='' @ [CHR 0x22] @ ''HEX'' @ [CHR 0x22]) default_supported,
      full_handler ''+CMGF=0'' default_supported,
      partial_handler ''+CGSN'' HandleGetIMEI,
      partial_handler ''+REMOTETIMEUPDATE'' (HandleTimeUpdate now)]"

section \<open>The time zone\<close>

text \<open>
  The separator is left in a time zone name exactly when the name has two of them: only the first is replaced.
\<close>
theorem FixTimeZone_separators:
  "CHR ''/'' \<in> set (FixTimeZone line) \<longleftrightarrow> 2 \<le> count_list line (CHR ''/'')"
proof (cases "find_char (CHR ''/'') line")
  case None
  then show ?thesis by (auto simp: FixTimeZone_def find_char_def count_list_0_iff split: if_splits)
next
  case (Some n)
  note d = find_char_SomeD [OF Some]
  have line: "line = take n line @ CHR ''/'' # drop (Suc n) line"
    using d id_take_nth_drop [of n line] by simp
  have "count_list line (CHR ''/'') = Suc (count_list (drop (Suc n) line) (CHR ''/''))"
    using d by (subst line) (simp add: count_list_0_iff)
  moreover have "CHR ''/'' \<in> set (FixTimeZone line) \<longleftrightarrow> CHR ''/'' \<in> set (drop (Suc n) line)"
    using d Some by (auto simp: FixTimeZone_def)
  ultimately show ?thesis using count_list_0_iff [of "drop (Suc n) line" "CHR ''/''"] by linarith
qed

end
