(* ===== verification/Modem_Network.thy ===== *)
theory Modem_Network
  imports Modem_Service
begin

text \<open>
  The network service of the modem simulator, \<open>host/commands/modem_simulator/network_service.{h,cpp}\<close>: the radio, the
  operators, the registration, the network technology and the signal strength.  Enumerations that a command or the
  NVRAM file casts from a number are numbers, and a cast outside the range of the enumeration is undefined.  The item
  elements of \<open>numeric_operator.xml\<close>, as the XML library gives them, are an argument.
\<close>

section \<open>Data\<close>

datatype radio_state = RADIO_STATE_OFF | RADIO_STATE_ON

datatype operator_state = OPER_STATE_UNKNOWN | OPER_STATE_AVAILABLE | OPER_STATE_CURRENT | OPER_STATE_FORBIDDEN

fun operator_state_int :: "operator_state \<Rightarrow> int" where
  "operator_state_int OPER_STATE_UNKNOWN = 0"
| "operator_state_int OPER_STATE_AVAILABLE = 1"
| "operator_state_int OPER_STATE_CURRENT = 2"
| "operator_state_int OPER_STATE_FORBIDDEN = 3"

record NetworkOperator =
  numeric :: string
  long_name :: string
  short_name :: string
  operator_state :: operator_state

definition OPER_SELECTION_AUTOMATIC :: int where
  "OPER_SELECTION_AUTOMATIC = 0"

definition OPER_SELECTION_MANUAL :: int where
  "OPER_SELECTION_MANUAL = 1"

definition OPER_SELECTION_DEREGISTRATION :: int where
  "OPER_SELECTION_DEREGISTRATION = 2"

definition OPER_SELECTION_MANUAL_AUTOMATIC :: int where
  "OPER_SELECTION_MANUAL_AUTOMATIC = 4"

definition M_MODEM_TECH_GSM :: int where
  "M_MODEM_TECH_GSM = 1"

definition M_MODEM_TECH_WCDMA :: int where
  "M_MODEM_TECH_WCDMA = 2"

definition M_MODEM_TECH_CDMA :: int where
  "M_MODEM_TECH_CDMA = 4"

definition M_MODEM_TECH_EVDO :: int where
  "M_MODEM_TECH_EVDO = 8"

definition M_MODEM_TECH_LTE :: int where
  "M_MODEM_TECH_LTE = 32"

definition M_MODEM_TECH_NR :: int where
  "M_MODEM_TECH_NR = 64"

definition INT_MAX :: int where
  "INT_MAX = 2147483647"

record SignalStrength =
  gsm_rssi :: int
  gsm_ber :: int
  cdma_dbm :: int
  cdma_ecio :: int
  evdo_dbm :: int
  evdo_ecio :: int
  evdo_snr :: int
  lte_rssi :: int
  lte_rsrp :: int
  lte_rsrq :: int
  lte_rssnr :: int
  lte_cqi :: int
  lte_ta :: int
  tdscdma_rscp :: int
  wcdma_rssi :: int
  wcdma_ber :: int
  nr_ss_rsrp :: int
  nr_ss_rsrq :: int
  nr_ss_sinr :: int
  nr_csi_rsrp :: int
  nr_csi_rsrq :: int
  nr_csi_sinr :: int

definition no_signal :: SignalStrength where
  "no_signal =
     \<lparr>gsm_rssi = INT_MAX, gsm_ber = INT_MAX, cdma_dbm = INT_MAX, cdma_ecio = INT_MAX, evdo_dbm = INT_MAX,
      evdo_ecio = INT_MAX, evdo_snr = INT_MAX, lte_rssi = INT_MAX, lte_rsrp = INT_MAX, lte_rsrq = INT_MAX,
      lte_rssnr = INT_MAX, lte_cqi = INT_MAX, lte_ta = INT_MAX, tdscdma_rscp = INT_MAX, wcdma_rssi = INT_MAX,
      wcdma_ber = INT_MAX, nr_ss_rsrp = INT_MAX, nr_ss_rsrq = INT_MAX, nr_ss_sinr = INT_MAX, nr_csi_rsrp = INT_MAX,
      nr_csi_rsrq = INT_MAX, nr_csi_sinr = INT_MAX\<rparr>"

datatype unsol_mode = REGISTRATION_UNSOL_DISABLED | REGISTRATION_UNSOL_ENABLED | REGISTRATION_UNSOL_ENABLED_FULL

fun unsol_mode_int :: "unsol_mode \<Rightarrow> int" where
  "unsol_mode_int REGISTRATION_UNSOL_DISABLED = 0"
| "unsol_mode_int REGISTRATION_UNSOL_ENABLED = 1"
| "unsol_mode_int REGISTRATION_UNSOL_ENABLED_FULL = 2"

definition ACCESS_TECH_EGPRS :: int where
  "ACCESS_TECH_EGPRS = 3"

definition ACCESS_TECH_HSPA :: int where
  "ACCESS_TECH_HSPA = 6"

definition ACCESS_TECH_EUTRAN :: int where
  "ACCESS_TECH_EUTRAN = 7"

definition ACCESS_TECH_NR :: int where
  "ACCESS_TECH_NR = 11"

record NetworkRegistrationStatus =
  unsol_mode :: unsol_mode
  reg_state :: int
  network_type :: int

definition registration_status :: NetworkRegistrationStatus where
  "registration_status =
     \<lparr>unsol_mode = REGISTRATION_UNSOL_ENABLED_FULL, reg_state = NET_REGISTRATION_UNREGISTERED,
      network_type = ACCESS_TECH_EUTRAN\<rparr>"

record network_service =
  radio_state :: radio_state
  operator_list :: "NetworkOperator list"
  current_operator_numeric :: string
  oper_selection_mode :: int
  signal_strength_percent :: int
  voice_registration_status :: NetworkRegistrationStatus
  data_registration_status :: NetworkRegistrationStatus
  current_network_mode :: int
  preferred_network_mode :: int
  modem_radio_capability :: int
  first_signal_strength_request :: bool
  android_last_signal_time :: int

definition kAreaCode :: string where
  "kAreaCode = ''2142''"

definition kCellId :: string where
  "kCellId = ''0000B804''"

section \<open>Operators\<close>

text \<open>A mutable element of a list, by index; \<open>operator_list_.begin()\<close> of an empty list is not dereferenced.\<close>

definition set_state :: "operator_state \<Rightarrow> NetworkOperator \<Rightarrow> NetworkOperator" where
  "set_state st op = op\<lparr>operator_state := st\<rparr>"

definition select_first :: "network_service \<Rightarrow> network_service result" where
  \<comment> \<open>the first operator of the list becomes the current one\<close>
  "select_first s =
     (case operator_list s of
        [] \<Rightarrow> Inl (UndefinedBehaviour ''operator_list_ is empty'')
      | op # ops \<Rightarrow>
          Inr (s\<lparr>current_operator_numeric := numeric op, operator_list := set_state OPER_STATE_CURRENT  op # ops\<rparr>))"

fun make_current :: "string \<Rightarrow> NetworkOperator list \<Rightarrow> NetworkOperator list option" where
  \<comment> \<open>the first operator with the number becomes the current one, if there is one\<close>
  "make_current num [] = None"
| "make_current num (op # ops) =
     (if numeric op = num then Some (set_state OPER_STATE_CURRENT  op # ops)
      else map_option (\<lambda>ops. op # ops) (make_current num ops))"

definition InitializeNetworkOperator :: "network_service \<Rightarrow> network_service result" where
  "InitializeNetworkOperator s =
     (let s = s\<lparr>operator_list := operator_list s @
                [\<lparr>numeric = ''311740'', long_name = ''Android Virtual Operator'', short_name = ''Android'',
                  operator_state = OPER_STATE_AVAILABLE\<rparr>,
                 \<lparr>numeric = ''310300'', long_name = ''Alternative Operator'', short_name = ''Alternative'',
                  operator_state = OPER_STATE_AVAILABLE\<rparr>,
                 \<lparr>numeric = ''310400'', long_name = ''Hermetic Network Operator'', short_name = ''Hermetic'',
                  operator_state = OPER_STATE_FORBIDDEN\<rparr>]\<rparr>
      in if oper_selection_mode s = OPER_SELECTION_AUTOMATIC then select_first s
         else if oper_selection_mode s = OPER_SELECTION_MANUAL_AUTOMATIC then
           (case make_current (current_operator_numeric s) (operator_list s) of
              Some ops \<Rightarrow> Inr (s\<lparr>operator_list := ops\<rparr>)
            | None \<Rightarrow> select_first s)
         else Inr s)"

fun find_index_of :: "string \<Rightarrow> NetworkOperator list \<Rightarrow> nat option" where
  "find_index_of num [] = None"
| "find_index_of num (op # ops) =
     (if numeric op = num then Some 0 else map_option Suc (find_index_of num ops))"

text \<open>
  \<open>items\<close> is \<open>None\<close> when the file of operators cannot be read, otherwise its item elements: the attribute with the
  number and the text, where they are present.
\<close>

definition InitializeSimOperator ::
    "(string option \<times> string option) list option \<Rightarrow> string \<Rightarrow> network_service \<Rightarrow> network_service result" where
  "InitializeSimOperator items sim_operator_numeric s =
     (if sim_operator_numeric = [] then Inr s
      else case find_index_of sim_operator_numeric (operator_list s) of
        Some n \<Rightarrow>
          Inr (s\<lparr>operator_list := (operator_list s)[n := operator_list s ! 0, 0 := operator_list s ! n]\<rparr>)
      | None \<Rightarrow>
          (case items of
             None \<Rightarrow> Inr s
           | Some items \<Rightarrow>
               (case find (\<lambda>(attr, _). (case attr of Some v \<Rightarrow> v | None \<Rightarrow> []) = sim_operator_numeric) items of
                  None \<Rightarrow> InitializeNetworkOperator s
                | Some (_, None) \<Rightarrow> Inl (UndefinedBehaviour ''string from a null pointer'')
                | Some (_, Some names) \<Rightarrow>
                    (case find_char (CHR ''='') names of
                       None \<Rightarrow> InitializeNetworkOperator s
                     | Some pos \<Rightarrow>
                         InitializeNetworkOperator
                           (s\<lparr>operator_list :=
                               \<lparr>numeric = sim_operator_numeric, long_name = take pos names,
                                short_name = drop (pos + 1) names, operator_state = OPER_STATE_AVAILABLE\<rparr> #
                               operator_list s\<rparr>)))))"

section \<open>Technology and signal strength\<close>

definition getNetworkTypeFromTech :: "int \<Rightarrow> int" where
  "getNetworkTypeFromTech modemTech =
     (if modemTech = M_MODEM_TECH_GSM then ACCESS_TECH_EGPRS
      else if modemTech = M_MODEM_TECH_WCDMA then ACCESS_TECH_HSPA
      else if modemTech = M_MODEM_TECH_LTE then ACCESS_TECH_EUTRAN
      else if modemTech = M_MODEM_TECH_NR then ACCESS_TECH_NR
      else ACCESS_TECH_EGPRS)"

definition getTechFromNetworkType :: "int \<Rightarrow> int" where
  "getTechFromNetworkType act =
     (if act \<in> {0, 1, 3, 8} then M_MODEM_TECH_GSM
      else if act \<in> {2, 4, 5, 6} then M_MODEM_TECH_WCDMA
      else if act \<in> {7, 9, 10} then M_MODEM_TECH_LTE
      else if act \<in> {11, 12, 13} then M_MODEM_TECH_NR
      else M_MODEM_TECH_GSM)"

text \<open>The two loops of \<open>getModemTechFromPrefer\<close> visit the bits of the mask from 31 down to 0.\<close>

definition getModemTechFromPrefer :: "int \<Rightarrow> int" where
  "getModemTechFromPrefer preferred_mask =
     (case find (\<lambda>(i, j). bit preferred_mask (j + 8 * i)) [(i, j). i \<leftarrow> rev [0..<4], j \<leftarrow> rev [0..<8]] of
        Some (i, j) \<Rightarrow> 2 ^ j
      | None \<Rightarrow> M_MODEM_TECH_GSM)"

definition IsHasNetwork :: "network_service \<Rightarrow> bool" where
  "IsHasNetwork s \<longleftrightarrow>
     radio_state s \<noteq> RADIO_STATE_OFF \<and> oper_selection_mode s \<noteq> OPER_SELECTION_DEREGISTRATION"

text \<open>
  The product with \<open>percent / 101.0\<close> is not an integer for a percentage from 1 to 100 and a range of fewer than 202
  values other than 101, and the rounding of the division and the multiplication is far smaller than its distance to
  the next integer, so that the truncation of the double is the integer quotient.
\<close>

definition GetValueInRange :: "int \<times> int \<Rightarrow> int \<Rightarrow> int" where
  "GetValueInRange rng percent =
     (let range_size = snd rng - fst rng + 1 in fst rng + percent * range_size div 101)"

definition kRssiRange :: "int \<times> int" where
  "kRssiRange = (4, 30)"

definition kDbmRange :: "int \<times> int" where
  "kDbmRange = (- 120, - 4)"

definition kRsrpRange :: "int \<times> int" where
  "kRsrpRange = (- 140, - 44)"

definition BuildCSQCommandResponse :: "SignalStrength \<Rightarrow> string" where
  "BuildCSQCommandResponse x =
     ''+CSQ: '' @ to_string (gsm_rssi x) @ '','' @ to_string (gsm_ber x) @ '','' @ to_string (cdma_dbm x) @ '','' @
     to_string (cdma_ecio x) @ '','' @ to_string (evdo_dbm x) @ '','' @ to_string (evdo_ecio x) @ '','' @
     to_string (evdo_snr x) @ '','' @ to_string (lte_rssi x) @ '','' @ to_string (lte_rsrp x) @ '','' @
     to_string (lte_rsrq x) @ '','' @ to_string (lte_rssnr x) @ '','' @ to_string (lte_cqi x) @ '','' @
     to_string (lte_ta x) @ '','' @ to_string (tdscdma_rscp x) @ '','' @ to_string (wcdma_rssi x) @ '','' @
     to_string (wcdma_ber x) @ '','' @ to_string (nr_ss_rsrp x) @ '','' @ to_string (nr_ss_rsrq x) @ '','' @
     to_string (nr_ss_sinr x) @ '','' @ to_string (nr_csi_rsrp x) @ '','' @ to_string (nr_csi_rsrq x) @ '','' @
     to_string (nr_csi_sinr x)"

definition GetCurrentSignalStrength :: "network_service \<Rightarrow> SignalStrength" where
  "GetCurrentSignalStrength s =
     (if \<not> IsHasNetwork s then no_signal
      else let percent = signal_strength_percent s; mode = current_network_mode s
      in if mode = M_MODEM_TECH_GSM then no_signal\<lparr>gsm_rssi := GetValueInRange kRssiRange percent, gsm_ber := 99\<rparr>
         else if mode = M_MODEM_TECH_CDMA then
           no_signal\<lparr>cdma_dbm := GetValueInRange kDbmRange percent * (-1), cdma_ecio := -1\<rparr>
         else if mode = M_MODEM_TECH_EVDO then
           no_signal\<lparr>evdo_dbm := GetValueInRange kDbmRange percent * (-1), evdo_ecio := -1, evdo_snr := -1\<rparr>
         else if mode = M_MODEM_TECH_LTE then
           no_signal\<lparr>lte_rsrp := GetValueInRange kRsrpRange percent * (-1), lte_rssi := 99\<rparr>
         else if mode = M_MODEM_TECH_WCDMA then no_signal\<lparr>wcdma_rssi := GetValueInRange kRssiRange percent\<rparr>
         else if mode = M_MODEM_TECH_NR then no_signal\<lparr>nr_ss_rsrp := GetValueInRange kRsrpRange percent * (-1)\<rparr>
         else no_signal)"

definition OnSignalStrengthChanged :: "network_service \<Rightarrow> event list" where
  "OnSignalStrengthChanged s = SendUnsolicitedCommand (BuildCSQCommandResponse (GetCurrentSignalStrength s))"

definition UpdateSignalStrengthCallback :: "network_service \<Rightarrow> network_service \<times> event list" where
  "UpdateSignalStrengthCallback s =
     (let post = [PostCallback CbUpdateSignalStrength 10000]
      in if IsHasNetwork s then
           let p = signal_strength_percent s - 5;
               s = s\<lparr>signal_strength_percent := (if p \<le> 10 then 100 else p)\<rparr>
           in (s, OnSignalStrengthChanged s @ post)
         else (s, post))"

section \<open>Registration\<close>

definition quoted :: "string \<Rightarrow> string" where
  "quoted s = [CHR 0x22] @ s @ [CHR 0x22]"

definition location_suffix :: "NetworkRegistrationStatus \<Rightarrow> string" where
  "location_suffix r = '','' @ quoted kAreaCode @ '','' @ quoted kCellId @ '','' @ to_string (network_type r)"

definition registered :: "int \<Rightarrow> bool" where
  "registered st \<longleftrightarrow> st = NET_REGISTRATION_HOME \<or> st = NET_REGISTRATION_ROAMING"

definition OnVoiceRegisterStateChanged :: "network_service \<Rightarrow> event list" where
  "OnVoiceRegisterStateChanged s =
     (let r = voice_registration_status s
      in case unsol_mode r of
           REGISTRATION_UNSOL_ENABLED \<Rightarrow> SendUnsolicitedCommand (''+CREG: '' @ to_string (reg_state r))
         | REGISTRATION_UNSOL_ENABLED_FULL \<Rightarrow>
             SendUnsolicitedCommand
               (''+CREG: '' @ to_string (reg_state r) @ (if registered (reg_state r) then location_suffix r else []))
         | REGISTRATION_UNSOL_DISABLED \<Rightarrow> [])"

definition OnDataRegisterStateChanged :: "network_service \<Rightarrow> event list" where
  "OnDataRegisterStateChanged s =
     (let r = data_registration_status s;
          eutran = (network_type r = ACCESS_TECH_EUTRAN);
          suffix = (if registered (reg_state r) then location_suffix r else [])
      in case unsol_mode r of
           REGISTRATION_UNSOL_ENABLED \<Rightarrow>
             SendUnsolicitedCommand
               (''+CGREG: '' @ to_string (reg_state r) @
                (if eutran then [CHR 0x0D] @ ''+CEREG: '' @ to_string (reg_state r) else []))
         | REGISTRATION_UNSOL_ENABLED_FULL \<Rightarrow>
             SendUnsolicitedCommand
               (''+CGREG: '' @ to_string (reg_state r) @ suffix @
                (if eutran then [CHR 0x0D] @ ''+CEREG: '' @ to_string (reg_state r) @ suffix else []))
         | REGISTRATION_UNSOL_DISABLED \<Rightarrow> [])"

definition UpdateRegisterState :: "int \<Rightarrow> network_service \<Rightarrow> network_service \<times> event list" where
  "UpdateRegisterState state s =
     (let ty = getNetworkTypeFromTech (current_network_mode s);
          s = s\<lparr>voice_registration_status := (voice_registration_status s)\<lparr>reg_state := state, network_type := ty\<rparr>,
                data_registration_status := (data_registration_status s)\<lparr>reg_state := state, network_type := ty\<rparr>\<rparr>;
          nr = (current_network_mode s = M_MODEM_TECH_NR)
      in (s, OnVoiceRegisterStateChanged s @ OnDataRegisterStateChanged s @ OnSignalStrengthChanged s @
             [PhysicalChannelConfigs (current_network_mode s) (if nr then 4 else 0) (if nr then 50000 else 5000)]))"

datatype sim_status = SIM_STATUS_ABSENT | SIM_STATUS_NOT_READY | SIM_STATUS_READY | SIM_STATUS_PIN | SIM_STATUS_PUK

definition OnSimStatusChanged :: "sim_status \<Rightarrow> network_service \<Rightarrow> network_service \<times> event list" where
  "OnSimStatusChanged status s =
     (if radio_state s = RADIO_STATE_OFF then (s, [])
      else let st = (if status = SIM_STATUS_READY then NET_REGISTRATION_HOME else NET_REGISTRATION_EMERGENCY);
               s = s\<lparr>voice_registration_status := (voice_registration_status s)\<lparr>reg_state := st\<rparr>\<rparr>;
               s = (if status = SIM_STATUS_READY then s else s\<lparr>current_network_mode := M_MODEM_TECH_WCDMA\<rparr>)
           in (s, [PostCallback (CbUpdateRegisterState st) 1000]))"

text \<open>The constructor, with what the NVRAM file holds, and \<open>SetupDependency\<close>\<close>

record nvram =
  nv_network_selection_mode :: int
  nv_operator_numeric :: string
  nv_modem_technoloy :: int
  nv_preferred_network_mode :: int
  nv_emergency_mode :: bool

definition InitDefaultNvramConfig :: nvram where
  "InitDefaultNvramConfig =
     \<lparr>nv_network_selection_mode = 0, nv_operator_numeric = [], nv_modem_technoloy = M_MODEM_TECH_LTE,
      nv_preferred_network_mode = or (or M_MODEM_TECH_LTE M_MODEM_TECH_WCDMA) M_MODEM_TECH_GSM,
      nv_emergency_mode = False\<rparr>"

definition NetworkService :: "nvram \<Rightarrow> (network_service \<times> event list) result" where
  "NetworkService nv =
     rbind (to_enum 3 (nv_network_selection_mode nv)) (\<lambda>mode.
     rbind (to_enum 7 (nv_modem_technoloy nv)) (\<lambda>tech.
     rbind (InitializeNetworkOperator
       \<lparr>radio_state = RADIO_STATE_OFF, operator_list = [], current_operator_numeric = nv_operator_numeric nv,
        oper_selection_mode = mode, signal_strength_percent = 80, voice_registration_status = registration_status,
        data_registration_status = registration_status, current_network_mode = tech,
        preferred_network_mode = nv_preferred_network_mode nv,
        modem_radio_capability =
          or (or (or M_MODEM_TECH_GSM M_MODEM_TECH_WCDMA) M_MODEM_TECH_LTE) M_MODEM_TECH_NR,
        first_signal_strength_request = True, android_last_signal_time = 0\<rparr>) (\<lambda>s.
     Inr (UpdateSignalStrengthCallback s))))"

section \<open>Handlers\<close>

definition HandleRadioPowerReq :: "client \<Rightarrow> network_service \<Rightarrow> network_service outcome" where
  "HandleRadioPowerReq client s =
     Inr (s, SendCommandResponses client
               [''+CFUN: '' @ (if radio_state s = RADIO_STATE_OFF then ''0'' else ''1''), ''OK''])"

definition HandleRadioPower :: "sim_status \<Rightarrow> client \<Rightarrow> string \<Rightarrow> network_service \<Rightarrow> network_service outcome" where
  "HandleRadioPower status client command s =
     (let (on, _) = GetNextInt (SkipPrefix command)
      in if on = 0 then
           let (s, evs) = UpdateRegisterState NET_REGISTRATION_UNREGISTERED (s\<lparr>radio_state := RADIO_STATE_OFF\<rparr>)
           in Inr (s, evs @ SendCommandResponse client ''OK'')
         else if on = 1 then
           let (s, evs) = OnSimStatusChanged status (s\<lparr>radio_state := RADIO_STATE_ON\<rparr>)
           in Inr (s, evs @ [TimeUpdateEvent] @ SendCommandResponse client ''OK'')
         else Inr (s, SendCommandResponse client kCmeErrorOperationNotSupported))"

definition WakeupFromSleep :: "int \<Rightarrow> network_service \<Rightarrow> bool" where
  "WakeupFromSleep now s \<longleftrightarrow>
     android_last_signal_time s \<noteq> 0 \<and> android_last_signal_time s + 120 < now"

definition HandleSignalStrength :: "int \<Rightarrow> client \<Rightarrow> network_service \<Rightarrow> network_service outcome" where
  "HandleSignalStrength now client s =
     (let wake = WakeupFromSleep now s;
          first = first_signal_strength_request s;
          s' = s\<lparr>first_signal_strength_request := (if wake then first else False), android_last_signal_time := now\<rparr>
      in Inr (s', (if wake \<or> first then [TimeUpdateEvent] else []) @
                  SendCommandResponses client [BuildCSQCommandResponse (GetCurrentSignalStrength s'), ''OK'']))"

definition HandleQueryNetworkSelectionMode :: "client \<Rightarrow> network_service \<Rightarrow> network_service outcome" where
  "HandleQueryNetworkSelectionMode client s =
     (let line = (if \<not> IsHasNetwork s then ''+COPS: 0,0,0''
                  else case find (\<lambda>op. numeric op = current_operator_numeric s) (operator_list s) of
                         Some op \<Rightarrow> ''+COPS: '' @ to_string (oper_selection_mode s) @ '',2,'' @ numeric op
                       | None \<Rightarrow> ''+COPS: '' @ to_string (oper_selection_mode s) @ '',0,0'')
      in Inr (s, SendCommandResponses client [line, ''OK'']))"

definition HandleRequestOperator :: "client \<Rightarrow> network_service \<Rightarrow> network_service outcome" where
  "HandleRequestOperator client s =
     (if \<not> IsHasNetwork s then Inr (s, SendCommandResponse client kCmeErrorOperationNotAllowed)
      else case find (\<lambda>op. numeric op = current_operator_numeric s) (operator_list s) of
             None \<Rightarrow> Inr (s, SendCommandResponse client kCmeErrorNoNetworkService)
           | Some op \<Rightarrow>
               Inr (s, SendCommandResponses client
                         [''+COPS: 0,0,'' @ long_name op, ''+COPS: 0,1,'' @ short_name op,
                          ''+COPS: 0,2,'' @ numeric op, ''OK'']))"

definition HandleQueryAvailableNetwork :: "client \<Rightarrow> network_service \<Rightarrow> network_service outcome" where
  "HandleQueryAvailableNetwork client s =
     Inr (s, SendCommandResponses client
               (map (\<lambda>op. ''+COPS: ('' @ to_string (operator_state_int (operator_state op)) @ '','' @ long_name op @
                          '','' @ short_name op @ '','' @ numeric op @ ''),'') (operator_list s) @ [''OK'']))"
text \<open>\<open>AT+COPS=<mode>,...\<close>, for the four modes\<close>

definition set_registration :: "int \<Rightarrow> network_service \<Rightarrow> network_service" where
  "set_registration st s =
     s\<lparr>voice_registration_status := (voice_registration_status s)\<lparr>reg_state := st\<rparr>\<rparr>"

fun first_current_available :: "NetworkOperator list \<Rightarrow> NetworkOperator list" where
  \<comment> \<open>the first current operator becomes an available one\<close>
  "first_current_available [] = []"
| "first_current_available (op # ops) =
     (if operator_state op = OPER_STATE_CURRENT then set_state OPER_STATE_AVAILABLE op # ops
      else op # first_current_available ops)"

definition select_automatic :: "network_service \<Rightarrow> network_service result" where
  "select_automatic s =
     (let s = s\<lparr>oper_selection_mode := OPER_SELECTION_AUTOMATIC\<rparr>
      in case operator_list s of
           [] \<Rightarrow> Inl (UndefinedBehaviour ''operator_list_ is empty'')
         | op # ops \<Rightarrow>
             Inr (set_registration NET_REGISTRATION_HOME
                    (s\<lparr>current_operator_numeric := numeric op,
                       operator_list := set_state OPER_STATE_CURRENT op # first_current_available ops\<rparr>)))"

definition others_available :: "string \<Rightarrow> NetworkOperator list \<Rightarrow> NetworkOperator list" where
  \<comment> \<open>the current operators with another number become available\<close>
  "others_available num ops =
     map (\<lambda>op. if numeric op \<noteq> num \<and> operator_state op = OPER_STATE_CURRENT then set_state OPER_STATE_AVAILABLE op
               else op) ops"

text \<open>
  After its second loop over the operators, the manual selection dereferences the iterator, which is then
  \<open>operator_list_.end()\<close>.
\<close>

definition select_manual :: "client \<Rightarrow> string \<Rightarrow> network_service \<Rightarrow> network_service outcome" where
  "select_manual client cmd s =
     (let (num, cmd) = GetNextStr cmd;
          s = s\<lparr>oper_selection_mode := OPER_SELECTION_MANUAL, current_operator_numeric := num\<rparr>
      in case make_current num (operator_list s) of
           None \<Rightarrow>
             Inr (set_registration NET_REGISTRATION_UNKNOWN s, SendCommandResponse client kCmeErrorNoNetworkService)
         | Some ops \<Rightarrow>
             let s = s\<lparr>operator_list := others_available num ops\<rparr>;
                 (act, _) = GetNextInt cmd
             in rbind (if act = -1 then Inr s
                       else rbind (to_enum 4 act) (\<lambda>act.
                              let tech = getTechFromNetworkType act
                              in Inr (if and tech (modem_radio_capability s) \<noteq> 0 then s\<lparr>current_network_mode := tech\<rparr>
                                      else s)))
                  (\<lambda>s. Inl (UndefinedBehaviour ''operator_list_.end() is dereferenced'')))"

definition select_manual_automatic :: "client \<Rightarrow> string \<Rightarrow> network_service \<Rightarrow> network_service outcome" where
  "select_manual_automatic client cmd s =
     (let s = s\<lparr>oper_selection_mode := OPER_SELECTION_MANUAL_AUTOMATIC\<rparr>;
          (num, cmd) = GetNextStr cmd
      in case find (\<lambda>op. numeric op = num) (operator_list s) of
           None \<Rightarrow> Inl (UndefinedBehaviour ''operator_list_.end() is dereferenced'')
         | Some op \<Rightarrow>
             let s = s\<lparr>current_operator_numeric := numeric op\<rparr>;
                 ops = map (\<lambda>op. if numeric op = current_operator_numeric s then set_state OPER_STATE_CURRENT op
                                 else if operator_state op = OPER_STATE_CURRENT then set_state OPER_STATE_AVAILABLE op
                                 else op) (operator_list s)
             in Inr (set_registration NET_REGISTRATION_HOME (s\<lparr>operator_list := ops\<rparr>),
                     SendCommandResponse client ''OK''))"

definition save_selection :: "network_service \<Rightarrow> event list" where
  "save_selection s =
     [SetNvram (NvNetworkSelectionMode (oper_selection_mode s)), SetNvram (NvOperatorNumeric (current_operator_numeric s)),
      SaveNvram, PostCallback (CbUpdateRegisterState (reg_state (voice_registration_status s))) 1000]"

definition HandleSetNetworkSelectionMode :: "client \<Rightarrow> string \<Rightarrow> network_service \<Rightarrow> network_service outcome" where
  "HandleSetNetworkSelectionMode client command s =
     (let (n, cmd) = GetNextInt (SkipPrefix command);
          cmd = SkipPrefix cmd
      in rbind (to_enum 3 n) (\<lambda>mode.
           if mode = OPER_SELECTION_AUTOMATIC then
             rbind (select_automatic s) (\<lambda>s. Inr (s, SendCommandResponse client ''OK'' @ save_selection s))
           else if mode = OPER_SELECTION_MANUAL then
             rbind (select_manual client cmd s) (\<lambda>(s, evs). Inr (s, evs @ save_selection s))
           else if mode = OPER_SELECTION_DEREGISTRATION then
             let s = set_registration NET_REGISTRATION_UNREGISTERED
                       (s\<lparr>oper_selection_mode := OPER_SELECTION_DEREGISTRATION\<rparr>)
             in Inr (s, SendCommandResponse client ''OK'' @ save_selection s)
           else if mode = OPER_SELECTION_MANUAL_AUTOMATIC then
             rbind (select_manual_automatic client cmd s) (\<lambda>(s, evs). Inr (s, evs @ save_selection s))
           else Inr (s, SendCommandResponse client kCmeErrorInCorrectParameters)))"

definition unsol_mode_of :: "int \<Rightarrow> unsol_mode option" where
  "unsol_mode_of n =
     (if n = 0 then Some REGISTRATION_UNSOL_DISABLED
      else if n = 1 then Some REGISTRATION_UNSOL_ENABLED
      else if n = 2 then Some REGISTRATION_UNSOL_ENABLED_FULL
      else None)"

definition full_report :: "network_service \<Rightarrow> bool" where
  \<comment> \<open>the condition that both registration queries test on the voice registration\<close>
  "full_report s \<longleftrightarrow>
     unsol_mode (voice_registration_status s) = REGISTRATION_UNSOL_ENABLED_FULL \<and>
     (let st = reg_state (voice_registration_status s) in registered st \<or> st = NET_REGISTRATION_EMERGENCY)"

definition HandleVoiceNetworkRegistration :: "client \<Rightarrow> string \<Rightarrow> network_service \<Rightarrow> network_service outcome" where
  "HandleVoiceNetworkRegistration client command s =
     (let cmd = SkipPrefix command; r = voice_registration_status s
      in if cmd = ''AT+CREG?'' then
           Inr (s, SendCommandResponses client
                     [''+CREG: '' @ to_string (unsol_mode_int (unsol_mode r)) @ '','' @ to_string (reg_state r) @
                      (if full_report s then location_suffix r else []), ''OK''])
         else case unsol_mode_of (fst (GetNextInt cmd)) of
                Some m \<Rightarrow>
                  Inr (s\<lparr>voice_registration_status := r\<lparr>unsol_mode := m\<rparr>\<rparr>, SendCommandResponses client [''OK''])
              | None \<Rightarrow> Inr (s, SendCommandResponse client kCmeErrorInCorrectParameters))"

definition has_substring :: "string \<Rightarrow> string \<Rightarrow> bool" where
  "has_substring p s \<longleftrightarrow> (\<exists>n \<le> length s. starts_with p (drop n s))"

definition HandleDataNetworkRegistration :: "client \<Rightarrow> string \<Rightarrow> network_service \<Rightarrow> network_service outcome" where
  "HandleDataNetworkRegistration client command s =
     (let cmd = SkipPrefix command;
          r = data_registration_status s;
          pre = (if has_substring ''CGREG'' command then ''+CGREG: ''
                 else if has_substring ''CEREG'' command then ''+CEREG: '' else [])
      in if cmd = ''AT+CGREG?'' \<or> cmd = ''AT+CEREG?'' then
           let r' = (if full_report s then r\<lparr>network_type := getNetworkTypeFromTech (current_network_mode s)\<rparr> else r)
           in Inr (s\<lparr>data_registration_status := r'\<rparr>,
                   SendCommandResponses client
                     [pre @ to_string (unsol_mode_int (unsol_mode r)) @ '','' @ to_string (reg_state r) @
                      (if full_report s then location_suffix r' else []), ''OK''])
         else case unsol_mode_of (fst (GetNextInt cmd)) of
                Some m \<Rightarrow>
                  Inr (s\<lparr>data_registration_status := r\<lparr>unsol_mode := m\<rparr>\<rparr>, SendCommandResponses client [''OK''])
              | None \<Rightarrow> Inr (s, SendCommandResponse client kCmeErrorInCorrectParameters))"

definition HandleGetPreferredNetworkType :: "client \<Rightarrow> network_service \<Rightarrow> network_service outcome" where
  "HandleGetPreferredNetworkType client s =
     Inr (s, SendCommandResponses client
               [''+CTEC: '' @ to_string (current_network_mode s) @ '','' @ to_hex (preferred_network_mode s), ''OK''])"

definition HandleQuerySupportedTechs :: "client \<Rightarrow> network_service \<Rightarrow> network_service outcome" where
  "HandleQuerySupportedTechs client s = Inr (s, SendCommandResponses client [''+CTEC: 0,1,5,6'', ''OK''])"

definition change_preferred :: "int \<Rightarrow> network_service \<Rightarrow> network_service result" where
  "change_preferred new_mask s =
     (if new_mask \<noteq> preferred_network_mode s then
        rbind (to_enum 7 (getModemTechFromPrefer new_mask)) (\<lambda>tech.
          Inr (s\<lparr>current_network_mode := tech, preferred_network_mode := new_mask\<rparr>))
      else Inr s)"

definition HandleSetPreferredNetworkType :: "client \<Rightarrow> string \<Rightarrow> network_service \<Rightarrow> network_service outcome" where
  "HandleSetPreferredNetworkType client command s =
     (let (current, cmd) = GetNextInt (SkipPrefix command);
          (preferred, cmd) = GetNextStr cmd
      in rbind (stoi 16 preferred) (\<lambda>mask.
         rbind (change_preferred mask s) (\<lambda>s.
         let (s, evs, line) =
               (if current \<noteq> current_network_mode s then
                  let (s, evs) = UpdateRegisterState NET_REGISTRATION_UNREGISTERED s
                  in (s, evs @ [PostCallback (CbUpdateRegisterState NET_REGISTRATION_HOME) 200],
                      ''+CTEC: '' @ to_string (current_network_mode s))
                else (s, [], ''+CTEC: DONE''))
         in Inr (s, evs @ [SetNvram (NvModemTechnology (current_network_mode s)),
                           SetNvram (NvPreferredNetworkMode (preferred_network_mode s)), SaveNvram] @
                    SendCommandResponses client [line, ''OK'']))))"

definition HandleReceiveRemoteVoiceDataReg :: "client \<Rightarrow> string \<Rightarrow> network_service \<Rightarrow> network_service outcome" where
  "HandleReceiveRemoteVoiceDataReg client command s =
     rbind (substr_from command (length ''AT+REMOTEREG:'')) (\<lambda>states.
     rbind (stoi 10 states) (\<lambda>stated.
     rbind (to_enum 4 stated) (\<lambda>st.
       let (s, evs) = UpdateRegisterState NET_REGISTRATION_UNREGISTERED s
       in Inr (s, evs @ [PostCallback (CbUpdateRegisterState st) 1000]))))"

definition HandleReceiveRemoteCTEC :: "client \<Rightarrow> string \<Rightarrow> network_service \<Rightarrow> network_service outcome" where
  "HandleReceiveRemoteCTEC client command s =
     rbind (substr_from command (length ''AT+REMOTECTEC: '')) (\<lambda>types.
     rbind (stoi 10 types) (\<lambda>mask.
     rbind (to_enum 7 (getModemTechFromPrefer mask)) (\<lambda>tech.
       let s = s\<lparr>preferred_network_mode := mask\<rparr>
       in if tech \<noteq> current_network_mode s then
            let saved_state = reg_state (voice_registration_status s);
                (s, evs) = UpdateRegisterState NET_REGISTRATION_UNREGISTERED (s\<lparr>current_network_mode := tech\<rparr>)
            in Inr (s, evs @ [PostCallback (CbUpdateRegisterState saved_state) 1000])
          else Inr (s, []))))"

definition HandleReceiveRemoteSignal :: "client \<Rightarrow> string \<Rightarrow> network_service \<Rightarrow> network_service outcome" where
  "HandleReceiveRemoteSignal client command s =
     rbind (substr_from command (length ''AT+REMOTESIGNAL:'')) (\<lambda>percents.
     rbind (stoi 10 percents) (\<lambda>percent.
       if 0 \<le> percent \<and> percent \<le> 100 then
         let s = s\<lparr>signal_strength_percent := percent\<rparr> in Inr (s, OnSignalStrengthChanged s)
       else Inr (s, [])))"

definition forward_event :: "client \<Rightarrow> string \<Rightarrow> network_service \<Rightarrow> network_service outcome" where
  \<comment> \<open>\<open>HandleIdentifierDisclosure\<close> and \<open>HandleSecurityAlgorithmUpdate\<close>\<close>
  "forward_event client command s =
     rbind (substr_from command 2) (\<lambda>text. Inr (s, SendUnsolicitedCommand text))"

definition network_handlers :: "int \<Rightarrow> sim_status \<Rightarrow> network_service command_handler list" where
  "network_handlers now status =
     [full_handler ''+CFUN?'' HandleRadioPowerReq,
      partial_handler ''+CFUN='' (HandleRadioPower status),
      partial_handler ''+REMOTECFUN='' (HandleRadioPower status),
      full_handler ''+CSQ'' (HandleSignalStrength now),
      full_handler ''+COPS?'' HandleQueryNetworkSelectionMode,
      full_handler ''+COPS=3,0;+COPS?;+COPS=3,1;+COPS?;+COPS=3,2;+COPS?'' HandleRequestOperator,
      full_handler ''+COPS=?'' HandleQueryAvailableNetwork,
      partial_handler ''+COPS='' HandleSetNetworkSelectionMode,
      partial_handler ''+CREG'' HandleVoiceNetworkRegistration,
      partial_handler ''+CGREG'' HandleDataNetworkRegistration,
      partial_handler ''+CEREG'' HandleDataNetworkRegistration,
      full_handler ''+CTEC?'' HandleGetPreferredNetworkType,
      full_handler ''+CTEC=?'' HandleQuerySupportedTechs,
      partial_handler ''+CTEC='' HandleSetPreferredNetworkType,
      partial_handler ''+REMOTECTEC'' HandleReceiveRemoteCTEC,
      partial_handler ''+REMOTESIGNAL'' HandleReceiveRemoteSignal,
      partial_handler ''+REMOTEREG'' HandleReceiveRemoteVoiceDataReg,
      partial_handler ''+REMOTEIDDISCLOSURE'' forward_event,
      partial_handler ''+UPDATESECURITYALGORITHM'' forward_event]"

section \<open>The service as a transition system\<close>

inductive network_step :: "network_service \<Rightarrow> event list \<Rightarrow> network_service \<Rightarrow> bool" where
  command: "HandleModemCommand (network_handlers now status) client cmd s = Inr (Some (s', evs)) \<Longrightarrow> network_step s evs s'"
| register: "UpdateRegisterState st s = (s', evs) \<Longrightarrow> network_step s evs s'"
| signal: "UpdateSignalStrengthCallback s = (s', evs) \<Longrightarrow> network_step s evs s'"
| sim: "OnSimStatusChanged status s = (s', evs) \<Longrightarrow> network_step s evs s'"
| sim_operator: "InitializeSimOperator items num s = Inr s' \<Longrightarrow> network_step s [] s'"

inductive network_reachable :: "network_service \<Rightarrow> bool" where
  start: "NetworkService nv = Inr (s, evs) \<Longrightarrow> network_reachable s"
| step: "network_reachable s \<Longrightarrow> network_step s evs s' \<Longrightarrow> network_reachable s'"

text \<open>The percentage stays a percentage, and there are operators to choose from.\<close>

definition network_inv :: "network_service \<Rightarrow> bool" where
  "network_inv s \<longleftrightarrow>
     0 \<le> signal_strength_percent s \<and> signal_strength_percent s \<le> 100 \<and> operator_list s \<noteq> []"

lemma make_current_nonempty: "make_current num ops = Some ops' \<Longrightarrow> ops' \<noteq> []"
  by (cases ops) (auto split: if_splits)

lemma InitializeNetworkOperator_inv:
  "InitializeNetworkOperator s = Inr s' \<Longrightarrow>
   operator_list s' \<noteq> [] \<and> signal_strength_percent s' = signal_strength_percent s"
  by (auto simp: InitializeNetworkOperator_def select_first_def Let_def make_current_nonempty
      split: if_splits option.splits list.splits)

lemma UpdateRegisterState_inv: "UpdateRegisterState st s = (s', evs) \<Longrightarrow> network_inv s' = network_inv s"
  by (auto simp: UpdateRegisterState_def network_inv_def Let_def)

lemma OnSimStatusChanged_inv: "OnSimStatusChanged status s = (s', evs) \<Longrightarrow> network_inv s' = network_inv s"
  by (auto simp: OnSimStatusChanged_def network_inv_def Let_def split: if_splits)

lemma network_inv_fst [simp]:
  "network_inv (fst (UpdateRegisterState st s)) = network_inv s"
  "network_inv (fst (OnSimStatusChanged status s)) = network_inv s"
  by (rule UpdateRegisterState_inv OnSimStatusChanged_inv, rule surjective_pairing)+

lemma UpdateSignalStrengthCallback_inv:
  "UpdateSignalStrengthCallback s = (s', evs) \<Longrightarrow> network_inv s \<Longrightarrow> network_inv s'"
  by (auto simp: UpdateSignalStrengthCallback_def network_inv_def Let_def split: if_splits)

lemma InitializeSimOperator_inv:
  assumes "InitializeSimOperator items num s = Inr s'" and "network_inv s"
  shows "network_inv s'"
  using assms InitializeNetworkOperator_inv
  by (auto simp: InitializeSimOperator_def network_inv_def split: if_splits option.splits prod.splits)

lemma select_inv:
  "select_automatic s = Inr s' \<Longrightarrow> network_inv s \<Longrightarrow> network_inv s'"
  "select_manual client cmd s = Inr (s', evs) \<Longrightarrow> network_inv s \<Longrightarrow> network_inv s'"
  "select_manual_automatic client cmd s = Inr (s', evs) \<Longrightarrow> network_inv s \<Longrightarrow> network_inv s'"
  by (auto simp: select_automatic_def select_manual_def select_manual_automatic_def set_registration_def network_inv_def
      rbind_eq_Inr Let_def split: list.splits option.splits prod.splits)

lemma HandleSetNetworkSelectionMode_inv:
  assumes "HandleSetNetworkSelectionMode client cmd s = Inr (s', evs)" and "network_inv s"
  shows "network_inv s'"
proof -
  have "network_inv (set_registration st (s\<lparr>oper_selection_mode := m\<rparr>))" for st m
    using assms(2) by (simp add: network_inv_def set_registration_def)
  then show ?thesis
    using assms
    by (auto dest: select_inv simp: HandleSetNetworkSelectionMode_def rbind_eq_Inr Let_def split: if_splits prod.splits)
qed

lemma network_inv_updates [simp]:
  "network_inv (s\<lparr>radio_state := r\<rparr>) = network_inv s"
  "network_inv (s\<lparr>first_signal_strength_request := b\<rparr>) = network_inv s"
  "network_inv (s\<lparr>android_last_signal_time := t\<rparr>) = network_inv s"
  "network_inv (s\<lparr>voice_registration_status := v\<rparr>) = network_inv s"
  "network_inv (s\<lparr>data_registration_status := v\<rparr>) = network_inv s"
  "network_inv (s\<lparr>current_network_mode := m\<rparr>) = network_inv s"
  "network_inv (s\<lparr>preferred_network_mode := m\<rparr>) = network_inv s"
  by (simp_all add: network_inv_def)

lemma query_handlers_inv:
  assumes "network_inv s"
  shows "HandleRadioPowerReq client s = Inr (s', evs) \<Longrightarrow> network_inv s'"
    and "HandleSignalStrength now client s = Inr (s', evs) \<Longrightarrow> network_inv s'"
    and "HandleQueryNetworkSelectionMode client s = Inr (s', evs) \<Longrightarrow> network_inv s'"
    and "HandleRequestOperator client s = Inr (s', evs) \<Longrightarrow> network_inv s'"
    and "HandleQueryAvailableNetwork client s = Inr (s', evs) \<Longrightarrow> network_inv s'"
    and "HandleVoiceNetworkRegistration client cmd s = Inr (s', evs) \<Longrightarrow> network_inv s'"
    and "HandleDataNetworkRegistration client cmd s = Inr (s', evs) \<Longrightarrow> network_inv s'"
    and "HandleGetPreferredNetworkType client s = Inr (s', evs) \<Longrightarrow> network_inv s'"
    and "HandleQuerySupportedTechs client s = Inr (s', evs) \<Longrightarrow> network_inv s'"
    and "forward_event client cmd s = Inr (s', evs) \<Longrightarrow> network_inv s'"
  using assms
  by (auto simp: HandleRadioPowerReq_def HandleSignalStrength_def HandleQueryNetworkSelectionMode_def
      HandleRequestOperator_def HandleQueryAvailableNetwork_def HandleVoiceNetworkRegistration_def
      HandleDataNetworkRegistration_def HandleGetPreferredNetworkType_def HandleQuerySupportedTechs_def
      forward_event_def rbind_eq_Inr Let_def split: if_splits option.splits)

lemma HandleRadioPower_inv:
  "HandleRadioPower status client cmd s = Inr (s', evs) \<Longrightarrow> network_inv s \<Longrightarrow> network_inv s'"
  unfolding HandleRadioPower_def Let_def case_prod_unfold by (auto split: if_splits)

lemma HandleSetPreferredNetworkType_inv:
  assumes "HandleSetPreferredNetworkType client cmd s = Inr (s', evs)" and "network_inv s"
  shows "network_inv s'"
proof -
  from assms(1) obtain m s1 where s1: "change_preferred m s = Inr s1"
    and s': "s' = s1 \<or> s' = fst (UpdateRegisterState NET_REGISTRATION_UNREGISTERED s1)"
    unfolding HandleSetPreferredNetworkType_def Let_def case_prod_unfold rbind_eq_Inr
    by (auto split: if_splits)
  have "network_inv s1" using s1 assms(2) by (auto simp: change_preferred_def rbind_eq_Inr split: if_splits)
  with s' show ?thesis by auto
qed

lemma HandleReceiveRemoteCTEC_inv:
  "HandleReceiveRemoteCTEC client cmd s = Inr (s', evs) \<Longrightarrow> network_inv s \<Longrightarrow> network_inv s'"
  unfolding HandleReceiveRemoteCTEC_def Let_def case_prod_unfold rbind_eq_Inr by (auto split: if_splits)

lemma HandleReceiveRemoteVoiceDataReg_inv:
  "HandleReceiveRemoteVoiceDataReg client cmd s = Inr (s', evs) \<Longrightarrow> network_inv s \<Longrightarrow> network_inv s'"
  unfolding HandleReceiveRemoteVoiceDataReg_def Let_def case_prod_unfold rbind_eq_Inr by auto

lemma HandleReceiveRemoteSignal_inv:
  "HandleReceiveRemoteSignal client cmd s = Inr (s', evs) \<Longrightarrow> network_inv s \<Longrightarrow> network_inv s'"
  by (auto simp: HandleReceiveRemoteSignal_def network_inv_def rbind_eq_Inr Let_def split: if_splits)

lemma network_handlers_inv: "preserves network_inv (network_handlers now status)"
  unfolding network_handlers_def preserves_simps
  by (intro conjI allI impI preserves_simps(1))
    (blast intro: query_handlers_inv HandleRadioPower_inv HandleSetNetworkSelectionMode_inv
      HandleSetPreferredNetworkType_inv HandleReceiveRemoteCTEC_inv HandleReceiveRemoteSignal_inv
      HandleReceiveRemoteVoiceDataReg_inv)+

lemma network_step_inv: "network_step s evs s' \<Longrightarrow> network_inv s \<Longrightarrow> network_inv s'"
proof (induction rule: network_step.induct)
  case (command now status client cmd s s' evs)
  from preserves_command [OF network_handlers_inv command.hyps command.prems] show ?case .
qed (auto dest: UpdateRegisterState_inv OnSimStatusChanged_inv UpdateSignalStrengthCallback_inv InitializeSimOperator_inv)

lemma network_reachable_inv: "network_reachable s \<Longrightarrow> network_inv s"
proof (induction rule: network_reachable.induct)
  case (start nv s evs)
  then obtain s0 where "operator_list s0 \<noteq> []" "signal_strength_percent s0 = 80" "UpdateSignalStrengthCallback s0 = (s, evs)"
    by (auto simp: NetworkService_def rbind_eq_Inr dest!: InitializeNetworkOperator_inv)
  moreover then have "network_inv s0" by (simp add: network_inv_def)
  ultimately show ?case using UpdateSignalStrengthCallback_inv by blast
qed (rule network_step_inv)

section \<open>Properties\<close>

lemma GetValueInRange_bounds:
  assumes "fst r \<le> snd r" and "0 \<le> p" and "p \<le> 100"
  shows "fst r \<le> GetValueInRange r p \<and> GetValueInRange r p \<le> snd r"
proof -
  define n where "n = snd r - fst r + 1"
  have n: "0 < n" using assms(1) by (simp add: n_def)
  have "0 \<le> p * n div 101" using n assms(2) by (simp add: pos_imp_zdiv_nonneg_iff)
  moreover have "p * n \<le> 100 * n" using n assms(3) by (intro mult_right_mono) auto
  then have "p * n < n * 101" using n by linarith
  then have "p * n div 101 < n" by (simp add: div_less_iff_less_mult)
  ultimately show ?thesis using n_def by (simp add: GetValueInRange_def Let_def)
qed


lemma find_highest:
  "k < n \<Longrightarrow> P k \<Longrightarrow> \<forall>m. k < m \<and> m < n \<longrightarrow> \<not> P m \<Longrightarrow> find P (rev [0..<n]) = Some k"
proof (induction n)
  case (Suc n)
  then show ?case by (cases "k = n") (auto simp: less_Suc_eq)
qed simp

lemma find_map: "find P (map f xs) = map_option f (find (P \<circ> f) xs)"
  by (induction xs) auto

lemma prefer_bits:
  "[(i, j). i \<leftarrow> rev [0..<4], j \<leftarrow> rev [0..<8]] = map (\<lambda>k. (k div 8, k mod 8)) (rev [0..<32])"
  by (simp add: upt_rec)

text \<open>
  The technology for a mask of preferences is that of the highest bit that is set in the mask: the highest
  priority, and in it the highest numbered technology.
\<close>
theorem getModemTechFromPrefer_highest:
  assumes "k < 32" and "bit pref k" and "\<forall>m. k < m \<and> m < 32 \<longrightarrow> \<not> bit pref m"
  shows "getModemTechFromPrefer pref = 2 ^ (k mod 8)"
proof -
  have "find (\<lambda>(i, j). bit pref (j + 8 * i)) (map (\<lambda>k. (k div 8, k mod 8)) (rev [0..<32])) =
      map_option (\<lambda>k. (k div 8, k mod 8)) (find (bit pref) (rev [0..<32]))"
    by (simp add: find_map comp_def)
  also have "find (bit pref) (rev [0..<32]) = Some k" using assms by (rule find_highest)
  finally show ?thesis unfolding getModemTechFromPrefer_def prefer_bits by simp
qed

theorem getModemTechFromPrefer_highest_witness:
  "getModemTechFromPrefer 3 = 2"
proof -
  have "\<forall>m. 1 < m \<and> m < 32 \<longrightarrow> \<not> bit (3 :: int) m" by (auto simp: bit_numeral_rec bit_1_iff split: nat.splits)
  from getModemTechFromPrefer_highest [OF _ _ this] show ?thesis by simp
qed

lemma HandleRadioPower_on:
  "HandleRadioPower SIM_STATUS_READY client ''AT+CFUN=1'' s =
     Inr (s\<lparr>radio_state := RADIO_STATE_ON,
            voice_registration_status := (voice_registration_status s)\<lparr>reg_state := NET_REGISTRATION_HOME\<rparr>\<rparr>,
          [PostCallback (CbUpdateRegisterState NET_REGISTRATION_HOME) 1000, TimeUpdateEvent] @
          SendCommandResponse client ''OK'')"
proof -
  have "GetNextInt (SkipPrefix ''AT+CFUN=1'') = (1, [])" by code_simp
  then show ?thesis by (simp add: HandleRadioPower_def OnSimStatusChanged_def)
qed

lemma HandleRadioPower_off:
  "HandleRadioPower status client ''AT+CFUN=0'' s =
     (let (s', evs) = UpdateRegisterState NET_REGISTRATION_UNREGISTERED (s\<lparr>radio_state := RADIO_STATE_OFF\<rparr>)
      in Inr (s', evs @ SendCommandResponse client ''OK''))"
proof -
  have "GetNextInt (SkipPrefix ''AT+CFUN=0'') = (0, [])" by code_simp
  then show ?thesis by (simp add: HandleRadioPower_def)
qed

lemma UpdateRegisterState_voice:
  "reg_state (voice_registration_status (fst (UpdateRegisterState st s))) = st"
  "radio_state (fst (UpdateRegisterState st s)) = radio_state s"
  by (simp_all add: UpdateRegisterState_def Let_def)

lemma UpdateRegisterState_no_cancel: "CancelCallback n \<notin> set (snd (UpdateRegisterState st s))"
  by (auto simp: UpdateRegisterState_def Let_def OnVoiceRegisterStateChanged_def OnDataRegisterStateChanged_def
      OnSignalStrengthChanged_def SendUnsolicitedCommand_def split: unsol_mode.splits)

text \<open>
  C36. Switching the radio on and, before its callback runs, off again leaves the device registered at home with the
  radio off: the callback that switching on posted is not cancelled, and sets the registration when it runs.
\<close>
theorem radio_off_registered:
  "\<exists>s1 evs1 s2 evs2. HandleRadioPower SIM_STATUS_READY client ''AT+CFUN=1'' s = Inr (s1, evs1) \<and>
     PostCallback (CbUpdateRegisterState NET_REGISTRATION_HOME) 1000 \<in> set evs1 \<and>
     HandleRadioPower SIM_STATUS_READY client ''AT+CFUN=0'' s1 = Inr (s2, evs2) \<and>
     (\<forall>n. CancelCallback n \<notin> set evs2) \<and> radio_state s2 = RADIO_STATE_OFF \<and>
     reg_state (voice_registration_status s2) = NET_REGISTRATION_UNREGISTERED \<and>
     radio_state (fst (UpdateRegisterState NET_REGISTRATION_HOME s2)) = RADIO_STATE_OFF \<and>
     reg_state (voice_registration_status (fst (UpdateRegisterState NET_REGISTRATION_HOME s2))) = NET_REGISTRATION_HOME"
proof -
  let ?s1 = "s\<lparr>radio_state := RADIO_STATE_ON,
    voice_registration_status := (voice_registration_status s)\<lparr>reg_state := NET_REGISTRATION_HOME\<rparr>\<rparr>"
  obtain s2 evs2 where s2:
    "UpdateRegisterState NET_REGISTRATION_UNREGISTERED (?s1\<lparr>radio_state := RADIO_STATE_OFF\<rparr>) = (s2, evs2)"
    by force
  have "reg_state (voice_registration_status s2) = NET_REGISTRATION_UNREGISTERED" "radio_state s2 = RADIO_STATE_OFF"
    "\<forall>n. CancelCallback n \<notin> set evs2"
    using UpdateRegisterState_voice [of NET_REGISTRATION_UNREGISTERED "?s1\<lparr>radio_state := RADIO_STATE_OFF\<rparr>"]
      UpdateRegisterState_no_cancel [of _ NET_REGISTRATION_UNREGISTERED "?s1\<lparr>radio_state := RADIO_STATE_OFF\<rparr>"]
    unfolding s2 by simp_all
  note after = this
  have off: "HandleRadioPower SIM_STATUS_READY client ''AT+CFUN=0'' ?s1 =
      Inr (s2, evs2 @ SendCommandResponse client ''OK'')"
    unfolding HandleRadioPower_off s2 by simp
  show ?thesis
    by (rule exI [of _ ?s1], rule exI [of _ "[PostCallback (CbUpdateRegisterState NET_REGISTRATION_HOME) 1000,
            TimeUpdateEvent] @ SendCommandResponse client ''OK''"], rule exI [of _ s2],
          rule exI [of _ "evs2 @ SendCommandResponse client ''OK''"])
      (simp add: HandleRadioPower_on off after UpdateRegisterState_voice SendCommandResponse_def)
qed

lemma default_service:
  "\<exists>s evs. NetworkService InitDefaultNvramConfig = Inr (s, evs) \<and>
     map numeric (operator_list s) = [''311740'', ''310300'', ''310400''] \<and>
     map operator_state (operator_list s) = [OPER_STATE_CURRENT, OPER_STATE_AVAILABLE, OPER_STATE_FORBIDDEN] \<and>
     oper_selection_mode s = OPER_SELECTION_AUTOMATIC"
  by (simp add: NetworkService_def InitDefaultNvramConfig_def to_enum_def M_MODEM_TECH_LTE_def
      InitializeNetworkOperator_def select_first_def set_state_def UpdateSignalStrengthCallback_def IsHasNetwork_def
      OPER_SELECTION_AUTOMATIC_def)


lemma selection_command:
  assumes "CHR 0x22 \<notin> set num" and "CHR ''='' \<notin> set num" and "n \<in> {1, 4}"
  shows "GetNextInt (SkipPrefix (''AT+COPS='' @ to_dec n @ '',2,'' @ quoted num)) = (int n, ''2,'' @ quoted num)"
    and "SkipPrefix (''2,'' @ quoted num) = ''2,'' @ quoted num"
    and "GetNextStr (''2,'' @ quoted num) = (num, [])"
proof -
  have skip: "SkipPrefix (''AT+COPS='' @ t) = t" for t
    using skip_past_first [of "CHR ''=''" "''AT+COPS''" t] by (simp add: SkipPrefix_def)
  have "GetNextInt (to_string (int n) @ CHR '','' # t) = (int n, t)" for t
    using assms(3) by (intro GetNextInt_to_string) (auto simp: in_int32_def)
  then show "GetNextInt (SkipPrefix (''AT+COPS='' @ to_dec n @ '',2,'' @ quoted num)) = (int n, ''2,'' @ quoted num)"
    unfolding skip by (simp add: to_string_def)
  show "SkipPrefix (''2,'' @ quoted num) = ''2,'' @ quoted num"
    using assms(2) by (simp add: SkipPrefix_def quoted_def)
  have "find_char (CHR 0x22) (''2,'' @ quoted num) = Some 2"
    using find_char_first [of "CHR 0x22" "''2,''" "num @ [CHR 0x22]"] by (simp add: quoted_def)
  then show "GetNextStr (''2,'' @ quoted num) = (num, [])"
    using assms(1) find_char_first [of "CHR 0x22" num "[]"] by (simp add: GetNextStr_def quoted_def SkipComma_def)
qed

lemma make_current_iff: "make_current num ops \<noteq> None \<longleftrightarrow> num \<in> numeric ` set ops"
  by (induction num ops rule: make_current.induct) auto

text \<open>
  A manual selection of an operator that is in the list, and a manual selection with automatic fallback of one that
  is not, dereference \<open>operator_list_.end()\<close>.
\<close>
theorem selection_undefined:
  assumes "CHR 0x22 \<notin> set num" and "CHR ''='' \<notin> set num"
  shows "HandleSetNetworkSelectionMode client
      (''AT+COPS='' @ to_dec (if num \<in> numeric ` set (operator_list s) then 1 else 4) @ '',2,'' @ quoted num) s =
    Inl (UndefinedBehaviour ''operator_list_.end() is dereferenced'')"
proof (cases "num \<in> numeric ` set (operator_list s)")
  case True
  then obtain ops where "make_current num (operator_list s) = Some ops" using make_current_iff [of num] by auto
  then show ?thesis
    using True selection_command [OF assms, of 1]
    by (simp add: HandleSetNetworkSelectionMode_def to_enum_def OPER_SELECTION_AUTOMATIC_def OPER_SELECTION_MANUAL_def
        select_manual_def GetNextInt_def)
next
  case False
  then have "find (\<lambda>op. numeric op = num) (operator_list s) = None" by (auto simp: find_None_iff)
  then show ?thesis
    using False selection_command [OF assms, of 4]
    by (simp add: HandleSetNetworkSelectionMode_def to_enum_def OPER_SELECTION_AUTOMATIC_def OPER_SELECTION_MANUAL_def
        OPER_SELECTION_DEREGISTRATION_def OPER_SELECTION_MANUAL_AUTOMATIC_def select_manual_automatic_def)
qed

theorem selection_undefined_witness:
  "\<exists>s evs. NetworkService InitDefaultNvramConfig = Inr (s, evs) \<and>
     HandleSetNetworkSelectionMode ril (''AT+COPS='' @ to_dec 1 @ '',2,'' @ quoted ''310300'') s =
       Inl (UndefinedBehaviour ''operator_list_.end() is dereferenced'')"
proof -
  obtain s evs where s: "NetworkService InitDefaultNvramConfig = Inr (s, evs)"
    "map numeric (operator_list s) = [''311740'', ''310300'', ''310400'']"
    using default_service by (elim exE conjE) (rule that)
  from s(2) have "set (map numeric (operator_list s)) = {''311740'', ''310300'', ''310400''}" by simp
  then have "''310300'' \<in> numeric ` set (operator_list s)" by simp
  then show ?thesis using selection_undefined [of "''310300''" ril s] s(1) by auto
qed

text \<open>
  A manual selection with automatic fallback of an operator in the list makes the operators with that number, and
  no other, the current ones, registers at home, and saves the selection.
\<close>
theorem selection_fallback_known:
  assumes "CHR 0x22 \<notin> set num" and "CHR ''='' \<notin> set num" and "num \<in> numeric ` set (operator_list s)"
  shows "\<exists>s'. HandleSetNetworkSelectionMode client (''AT+COPS='' @ to_dec 4 @ '',2,'' @ quoted num) s =
      Inr (s', SendCommandResponse client ''OK'' @
               [SetNvram (NvNetworkSelectionMode OPER_SELECTION_MANUAL_AUTOMATIC), SetNvram (NvOperatorNumeric num),
                SaveNvram, PostCallback (CbUpdateRegisterState NET_REGISTRATION_HOME) 1000]) \<and>
    map numeric (operator_list s') = map numeric (operator_list s) \<and>
    (\<forall>op \<in> set (operator_list s'). operator_state op = OPER_STATE_CURRENT \<longleftrightarrow> numeric op = num) \<and>
    reg_state (voice_registration_status s') = NET_REGISTRATION_HOME"
proof -
  have "find (\<lambda>op. numeric op = num) (operator_list s) \<noteq> None"
    using assms(3) by (auto simp: find_None_iff)
  then obtain op where op: "find (\<lambda>op. numeric op = num) (operator_list s) = Some op" by blast
  then have "numeric op = num" by (auto simp: find_Some_iff)
  let ?s = "s\<lparr>oper_selection_mode := OPER_SELECTION_MANUAL_AUTOMATIC, current_operator_numeric := num\<rparr>"
  let ?ops = "map (\<lambda>op. if numeric op = num then set_state OPER_STATE_CURRENT op
      else if operator_state op = OPER_STATE_CURRENT then set_state OPER_STATE_AVAILABLE op else op) (operator_list s)"
  let ?s' = "set_registration NET_REGISTRATION_HOME (?s\<lparr>operator_list := ?ops\<rparr>)"
  have "HandleSetNetworkSelectionMode client (''AT+COPS='' @ to_dec 4 @ '',2,'' @ quoted num) s =
      Inr (?s', SendCommandResponse client ''OK'' @ save_selection ?s')"
    using selection_command [OF assms(1,2), of 4] op \<open>numeric op = num\<close>
    by (simp add: HandleSetNetworkSelectionMode_def to_enum_def OPER_SELECTION_AUTOMATIC_def OPER_SELECTION_MANUAL_def
        OPER_SELECTION_DEREGISTRATION_def OPER_SELECTION_MANUAL_AUTOMATIC_def select_manual_automatic_def)
  moreover have "save_selection ?s' =
      [SetNvram (NvNetworkSelectionMode OPER_SELECTION_MANUAL_AUTOMATIC), SetNvram (NvOperatorNumeric num), SaveNvram,
       PostCallback (CbUpdateRegisterState NET_REGISTRATION_HOME) 1000]"
    by (simp add: save_selection_def set_registration_def)
  ultimately show ?thesis
    by (intro exI [of _ ?s']) (auto simp: set_registration_def set_state_def)
qed

theorem selection_fallback_known_witness:
  "\<exists>s evs s'. NetworkService InitDefaultNvramConfig = Inr (s, evs) \<and>
     HandleSetNetworkSelectionMode ril (''AT+COPS='' @ to_dec 4 @ '',2,'' @ quoted ''310300'') s =
       Inr (s', SendCommandResponse ril ''OK'' @
               [SetNvram (NvNetworkSelectionMode OPER_SELECTION_MANUAL_AUTOMATIC), SetNvram (NvOperatorNumeric ''310300''),
                SaveNvram, PostCallback (CbUpdateRegisterState NET_REGISTRATION_HOME) 1000])"
proof -
  obtain s evs where s: "NetworkService InitDefaultNvramConfig = Inr (s, evs)"
    "map numeric (operator_list s) = [''311740'', ''310300'', ''310400'']"
    using default_service by (elim exE conjE) (rule that)
  from s(2) have "set (map numeric (operator_list s)) = {''311740'', ''310300'', ''310400''}" by simp
  then have "''310300'' \<in> numeric ` set (operator_list s)" by simp
  then show ?thesis using selection_fallback_known [of "''310300''" s ril] s(1) by auto
qed

lemma operators_three:
  assumes "map numeric ops = [a, b, c]" and "map operator_state ops = [x, y, z]"
  shows "\<exists>p q r. ops = [p, q, r] \<and> numeric p = a \<and> numeric q = b \<and> numeric r = c \<and>
    operator_state p = x \<and> operator_state q = y \<and> operator_state r = z"
  using assms by (auto simp: map_eq_Cons_conv)

text \<open>
  A SIM whose operator is not one of the three built-in ones makes the service add those three a second time: the
  list then has seven entries, three of them twice, and two of them current.
\<close>
theorem sim_operator_duplicates:
  assumes "NetworkService InitDefaultNvramConfig = Inr (s, evs)"
    and "num \<notin> {[], ''311740'', ''310300'', ''310400''}"
    and "find (\<lambda>(attr, _). (case attr of Some v \<Rightarrow> v | None \<Rightarrow> []) = num) items = Some (a, Some names)"
    and "find_char (CHR ''='') names = Some pos"
  shows "\<exists>s'. InitializeSimOperator (Some items) num s = Inr s' \<and>
    map numeric (operator_list s') =
      [num, ''311740'', ''310300'', ''310400'', ''311740'', ''310300'', ''310400''] \<and>
    length (filter (\<lambda>op. operator_state op = OPER_STATE_CURRENT) (operator_list s')) = 2"
proof -
  obtain p q r where ops: "operator_list s = [p, q, r]" and nums: "numeric p = ''311740''" "numeric q = ''310300''"
    "numeric r = ''310400''" and states: "operator_state p = OPER_STATE_CURRENT"
    "operator_state q = OPER_STATE_AVAILABLE" "operator_state r = OPER_STATE_FORBIDDEN"
    and mode: "oper_selection_mode s = OPER_SELECTION_AUTOMATIC"
    using default_service assms(1) operators_three [of "operator_list s"] by auto
  have "find_index_of num (operator_list s) = None" using assms(2) nums by (auto simp: ops)
  then show ?thesis
    using assms(2-4) nums states mode
    by (simp add: InitializeSimOperator_def InitializeNetworkOperator_def select_first_def set_state_def ops)
qed

theorem sim_operator_duplicates_witness:
  "\<exists>s evs s'. NetworkService InitDefaultNvramConfig = Inr (s, evs) \<and>
     InitializeSimOperator (Some [(Some ''310260'', Some ''T-Mobile=TMO'')]) ''310260'' s = Inr s' \<and>
     length (operator_list s') = 7"
proof -
  obtain s evs where s: "NetworkService InitDefaultNvramConfig = Inr (s, evs)" using default_service by blast
  have f: "find (\<lambda>(attr, _). (case attr of Some v \<Rightarrow> v | None \<Rightarrow> []) = ''310260'')
      [(Some ''310260'', Some ''T-Mobile=TMO'')] = Some (Some ''310260'', Some ''T-Mobile=TMO'')" by simp
  have "find_char (CHR ''='') ''T-Mobile=TMO'' = Some 8" by (simp add: find_char_def)
  from sim_operator_duplicates [OF s _ f this] obtain s' where
    s': "InitializeSimOperator (Some [(Some ''310260'', Some ''T-Mobile=TMO'')]) ''310260'' s = Inr s'"
      "map numeric (operator_list s') =
        [''310260'', ''311740'', ''310300'', ''310400'', ''311740'', ''310300'', ''310400'']" by auto
  from arg_cong [OF s'(2), of length] have "length (operator_list s') = 7" by simp
  with s s'(1) show ?thesis by blast
qed

end
