(* ===== verification/Modem_Sim.thy ===== *)
theory Modem_Sim
  imports Modem_Network
begin

text \<open>
  The SIM of the modem simulator (\<open>host/commands/modem_simulator/sim_service.{h,cpp}\<close>): PINs and PUKs with their
  retries, facility locks, logical channels, and the SIM files.  The files are elements of an XML document that
  \<open>tinyxml2\<close> reads and writes; that library is a parameter (the record \<open>tinyxml2\<close>) with a type \<open>'d\<close> of documents and
  a type \<open>'e\<close> of elements.  The loops over \<open>FirstChildElement\<close> and \<open>NextSiblingElement\<close> run over the list of the
  elements they visit.  A member that a constructor leaves uninitialised is an option.
\<close>

section \<open>Documents\<close>

record ('d, 'e) tinyxml2 =
  RootElement :: "'d \<Rightarrow> 'e option"
  ChildElements :: "'d \<Rightarrow> 'e \<Rightarrow> 'e list"  \<comment> \<open>\<open>FirstChildElement()\<close> and its \<open>NextSiblingElement()\<close>\<close>
  NamedChildren :: "'d \<Rightarrow> 'e \<Rightarrow> string \<Rightarrow> 'e list"  \<comment> \<open>\<open>FirstChildElement(name)\<close> and its \<open>NextSiblingElement(name)\<close>\<close>
  Attribute :: "'d \<Rightarrow> 'e \<Rightarrow> string \<Rightarrow> string option"  \<comment> \<open>\<open>FindAttribute(name)->Value()\<close>\<close>
  GetText :: "'d \<Rightarrow> 'e \<Rightarrow> string option"
  SetText :: "'d \<Rightarrow> 'e \<Rightarrow> string \<Rightarrow> 'd"
  NewElement :: "'d \<Rightarrow> 'e \<Rightarrow> string \<Rightarrow> string option \<Rightarrow> 'd \<times> 'e"
    \<comment> \<open>\<open>NewElement(name)\<close>, with a \<open>NewText\<close> child if there is a text, put behind the children of a parent\<close>
  Parse :: "'d \<Rightarrow> string \<Rightarrow> 'd \<times> bool"  \<comment> \<open>the document after \<open>LoadFile\<close> of a file with the text, and whether that succeeded\<close>
  Print :: "'d \<Rightarrow> string"  \<comment> \<open>the text that \<open>SaveFile\<close> writes\<close>

definition FirstChildElement :: "('d, 'e) tinyxml2 \<Rightarrow> 'd \<Rightarrow> 'e \<Rightarrow> string \<Rightarrow> 'e option" where
  "FirstChildElement x d e name = (case NamedChildren x d e name of [] \<Rightarrow> None | c # _ \<Rightarrow> Some c)"

text \<open>A text where a \<open>std::string\<close> is made of the pointer\<close>

definition text_of :: "('d, 'e) tinyxml2 \<Rightarrow> 'd \<Rightarrow> 'e \<Rightarrow> string result" where
  "text_of x d e =
     (case GetText x d e of None \<Rightarrow> Inl (UndefinedBehaviour ''string from a null pointer'') | Some t \<Rightarrow> Inr t)"

definition MF_SIM :: string where
  "MF_SIM = ''3F00''"

definition DF_TELECOM :: string where
  "DF_TELECOM = ''7F10''"

definition DF_PHONEBOOK :: string where
  "DF_PHONEBOOK = ''5F3A''"

definition DF_GRAPHICS :: string where
  "DF_GRAPHICS = ''5F50''"

definition DF_ADF :: string where
  "DF_ADF = ''7FFF''"

text \<open>File ids (\<open>EFId\<close>), which are plain 32-bit integers\<close>

definition EF_ADN :: int where "EF_ADN = 0x6F3A"

definition EF_FDN :: int where "EF_FDN = 0x6F3B"

definition EF_MSISDN :: int where "EF_MSISDN = 0x6F40"

text \<open>
  \<open>EF_ADN\<close>, \<open>EF_FDN\<close>, \<open>EF_MSISDN\<close>, \<open>EF_SDN\<close>, \<open>EF_EXT1\<close>, \<open>EF_EXT2\<close>, \<open>EF_EXT3\<close>, \<open>EF_PSI\<close>; \<open>EF_ICCID\<close>, \<open>EF_PL\<close>; \<open>EF_PBR\<close>;
  \<open>EF_IMG\<close>
\<close>

definition GetCommonIccEFPath :: "int \<Rightarrow> string" where
  "GetCommonIccEFPath efid =
     (if efid \<in> {EF_ADN, EF_FDN, EF_MSISDN, 0x6F49, 0x6F4A, 0x6F4B, 0x6F4C, 0x6FE5} then MF_SIM @ DF_TELECOM
      else if efid \<in> {0x2FE2, 0x2F05} then MF_SIM
      else if efid = 0x4F30 then MF_SIM @ DF_TELECOM @ DF_PHONEBOOK
      else if efid = 0x4F20 then MF_SIM @ DF_TELECOM @ DF_GRAPHICS
      else [])"

text \<open>
  The first group, in the order of the source: \<open>EF_SMS\<close>, \<open>EF_EXT5\<close>, \<open>EF_EXT6\<close>, \<open>EF_MWIS\<close>, \<open>EF_MBI\<close>, \<open>EF_SPN\<close>, \<open>EF_AD\<close>,
  \<open>EF_MBDN\<close>, \<open>EF_PNN\<close>, \<open>EF_OPL\<close>, \<open>EF_SPDI\<close>, \<open>EF_SST\<close>, \<open>EF_CFIS\<close>, \<open>EF_MAILBOX_CPHS\<close>, \<open>EF_VOICE_MAIL_INDICATOR_CPHS\<close>,
  \<open>EF_CFF_CPHS\<close>, \<open>EF_SPN_CPHS\<close>, \<open>EF_SPN_SHORT_CPHS\<close>, \<open>EF_FDN\<close>, \<open>EF_SDN\<close>, \<open>EF_EXT3\<close>, \<open>EF_MSISDN\<close>, \<open>EF_EXT2\<close>, \<open>EF_INFO_CPHS\<close>,
  \<open>EF_CSP_CPHS\<close>, \<open>EF_GID1\<close>, \<open>EF_GID2\<close>, \<open>EF_LI\<close>, \<open>EF_PLMN_W_ACT\<close>, \<open>EF_OPLMN_W_ACT\<close>, \<open>EF_HPLMN_W_ACT\<close>, \<open>EF_EHPLMN\<close>, \<open>EF_FPLMN\<close>,
  \<open>EF_LRPLMNSI\<close>, \<open>EF_HPPLMN\<close>
\<close>

definition GetUsimEFPath :: "int \<Rightarrow> string" where
  "GetUsimEFPath efid =
     (if efid \<in> {0x6F3C, 0x6F4E, 0x6FC8, 0x6FCA, 0x6FC9, 0x6F46, 0x6FAD, 0x6FC7, 0x6FC5, 0x6FC6, 0x6FCD, 0x6F38,
                 0x6FCB, 0x6F17, 0x6F11, 0x6F13, 0x6F14, 0x6F18, EF_FDN, 0x6F49, 0x6F4C, EF_MSISDN, 0x6F4B, 0x6F16,
                 0x6F15, 0x6F3E, 0x6F3F, 0x6F05, 0x6F60, 0x6F61, 0x6F62, 0x6FD9, 0x6F7B, 0x6FDC, 0x6F31}
      then MF_SIM @ DF_ADF
      else if efid = 0x4F30 then MF_SIM @ DF_TELECOM @ DF_PHONEBOOK
      else let path = GetCommonIccEFPath efid
           in if path = [] then MF_SIM @ DF_TELECOM @ DF_PHONEBOOK else path)"

definition FindAttribute :: "('d, 'e) tinyxml2 \<Rightarrow> 'd \<Rightarrow> 'e \<Rightarrow> string \<Rightarrow> string \<Rightarrow> 'e option" where
  "FindAttribute x d parent attr_name attr_value =
     find (\<lambda>child. Attribute x d child attr_name = Some attr_value) (ChildElements x d parent)"

text \<open>The loop that follows a path of four-character directory ids\<close>

function follow_path :: "('d, 'e) tinyxml2 \<Rightarrow> 'd \<Rightarrow> 'e \<Rightarrow> string \<Rightarrow> 'e option" where
  "follow_path x d parent path =
     (if path = [] then Some parent
      else case FindAttribute x d parent ''path'' (take 4 path) of
             None \<Rightarrow> None
           | Some app \<Rightarrow> follow_path x d app (drop 4 path))"
  by pat_completeness auto
termination
  by (relation "measure (\<lambda>(_, _, _, path). length path)") auto

declare follow_path.simps [simp del]

definition AppendNewElement :: "('d, 'e) tinyxml2 \<Rightarrow> 'd \<Rightarrow> 'e \<Rightarrow> string \<Rightarrow> 'd \<times> 'e" where
  "AppendNewElement x d parent name = NewElement x d parent name None"

definition AppendNewElementWithText :: "('d, 'e) tinyxml2 \<Rightarrow> 'd \<Rightarrow> 'e \<Rightarrow> string \<Rightarrow> string \<Rightarrow> 'd \<times> 'e" where
  "AppendNewElementWithText x d parent name txt = NewElement x d parent name (Some txt)"

section \<open>PINs\<close>

record pin_status =
  pin :: string
  puk :: string
  pin_remaining_times :: "int option"
  puk_remaining_times :: "int option"

datatype change_mode = WITH_PIN | WITH_PUK

definition kSimPinMaxRetryTimes :: int where
  "kSimPinMaxRetryTimes = 3"

definition kSimPukMaxRetryTimes :: int where
  "kSimPukMaxRetryTimes = 10"

definition kSimPukSize :: nat where
  "kSimPukSize = 8"

definition initialised :: "'a option \<Rightarrow> 'a result" where
  "initialised v = (case v of None \<Rightarrow> Inl (UndefinedBehaviour ''uninitialised member'') | Some a \<Rightarrow> Inr a)"

definition pin_size_ok :: "string \<Rightarrow> bool" where
  \<comment> \<open>\<open>kSimPinSizeRange\<close>\<close>
  "pin_size_ok p \<longleftrightarrow> 4 \<le> length p \<and> length p \<le> 8"

definition CheckPasswordValid :: "string \<Rightarrow> bool" where
  "CheckPasswordValid password = list_all (\<lambda>c. 48 \<le> (of_char c :: nat) \<and> (of_char c :: nat) \<le> 57) password"

definition VerifyPIN :: "string \<Rightarrow> pin_status \<Rightarrow> (bool \<times> pin_status) result" where
  "VerifyPIN p s =
     (if \<not> pin_size_ok p then Inr (False, s)
      else if \<not> CheckPasswordValid p then Inr (False, s)
      else rbind (initialised (pin_remaining_times s)) (\<lambda>n.
             if n \<le> 0 then Inr (False, s)
             else if p = pin s then Inr (True, s\<lparr>pin_remaining_times := Some kSimPinMaxRetryTimes\<rparr>)
             else Inr (False, s\<lparr>pin_remaining_times := Some (n - 1)\<rparr>)))"

definition VerifyPUK :: "string \<Rightarrow> pin_status \<Rightarrow> (bool \<times> pin_status) result" where
  "VerifyPUK p s =
     (if length p \<noteq> kSimPukSize then Inr (False, s)
      else if \<not> CheckPasswordValid p then Inr (False, s)
      else rbind (initialised (puk_remaining_times s)) (\<lambda>n.
             if n \<le> 0 then Inr (False, s)
             else if p = puk s
             then Inr (True, s\<lparr>pin_remaining_times := Some kSimPinMaxRetryTimes,
                               puk_remaining_times := Some kSimPukMaxRetryTimes\<rparr>)
             else Inr (False, s\<lparr>puk_remaining_times := Some (n - 1)\<rparr>)))"

definition ChangePIN :: "change_mode \<Rightarrow> string \<Rightarrow> string \<Rightarrow> pin_status \<Rightarrow> (bool \<times> pin_status) result" where
  "ChangePIN mode pin_or_puk new_pin s =
     (if \<not> pin_size_ok new_pin then Inr (False, s)
      else rbind (case mode of WITH_PIN \<Rightarrow> VerifyPIN pin_or_puk s | WITH_PUK \<Rightarrow> VerifyPUK pin_or_puk s) (\<lambda>(result, s).
             if \<not> result then Inr (False, s)
             else if \<not> CheckPasswordValid new_pin then Inr (False, s)
             else Inr (True, s\<lparr>pin := new_pin\<rparr>)))"

definition ChangePUK :: "string \<Rightarrow> string \<Rightarrow> pin_status \<Rightarrow> (bool \<times> pin_status) result" where
  "ChangePUK p new_puk s =
     rbind (VerifyPUK p s) (\<lambda>(result, s).
       if \<not> result then Inr (False, s)
       else if length new_puk \<noteq> kSimPukSize then Inr (False, s)
       else Inr (True, s\<lparr>puk := new_puk\<rparr>))"

section \<open>The service\<close>

datatype lock_status = DISABLE | ENABLE

record logical_channel =
  df_name :: string
  is_open :: bool
  session_id :: int

definition LogicalChannel :: "int \<Rightarrow> logical_channel" where
  "LogicalChannel n = \<lparr>df_name = [], is_open = False, session_id = n\<rparr>"

record 'd sim_service =
  sim_status :: sim_status
  doc :: 'd
  file_path :: string
  files :: "string \<Rightarrow> string option"  \<comment> \<open>the contents of the files of the host\<close>
  pin1_status :: pin_status
  pin2_status :: pin_status
  facility_lock :: "(string \<times> lock_status) list"
  logical_channels :: "logical_channel list"
  last_file_id :: string
  cdma_subscription_source :: "int option"
  cdma_roaming_preference :: "int option"

text \<open>What the service reads outside: the kind of SIM in the NVRAM configuration and the paths of the device\<close>

record sim_env =
  sim_type :: int
  sim_service_id :: int
  PerInstancePath :: "string \<Rightarrow> string"
  DefaultHostArtifactsPath :: "string \<Rightarrow> string"

section \<open>Loading and saving the profile\<close>

text \<open>\<open>FileExists\<close> and \<open>FileHasContent\<close>\<close>

definition file_usable :: "(string \<Rightarrow> string option) \<Rightarrow> string \<Rightarrow> bool" where
  "file_usable fs path = (case fs path of None \<Rightarrow> False | Some c \<Rightarrow> c \<noteq> [])"

definition SaveFile :: "('d, 'e) tinyxml2 \<Rightarrow> 'd sim_service \<Rightarrow> 'd sim_service" where
  "SaveFile x s = s\<lparr>files := (files s)(file_path s := Some (Print x (doc s)))\<rparr>"

definition icc_profile_name :: "sim_env \<Rightarrow> string" where
  "icc_profile_name env =
     ''iccprofile_for_sim'' @ to_string (sim_service_id env) @
     (if sim_type env = 2 then ''_for_CtsCarrierApiTestCases.xml'' else ''.xml'')"

definition default_pin_status :: pin_status where
  "default_pin_status =
     \<lparr>pin = ''1234'', puk = ''12345678'', pin_remaining_times = Some kSimPinMaxRetryTimes,
      puk_remaining_times = Some kSimPukMaxRetryTimes\<rparr>"

definition read_text :: "('d, 'e) tinyxml2 \<Rightarrow> 'd \<Rightarrow> 'e \<Rightarrow> string \<Rightarrow> string \<Rightarrow> string result" where
  "read_text x d e name def =
     (case FirstChildElement x d e name of None \<Rightarrow> Inr def | Some c \<Rightarrow> text_of x d c)"

definition read_times :: "('d, 'e) tinyxml2 \<Rightarrow> 'd \<Rightarrow> 'e \<Rightarrow> string \<Rightarrow> int option \<Rightarrow> int option result" where
  "read_times x d e name def =
     (case FirstChildElement x d e name of
        None \<Rightarrow> Inr def
      | Some c \<Rightarrow> rbind (text_of x d c) (\<lambda>t. rbind (stoi 10 t) (\<lambda>n. Inr (Some n))))"

text \<open>Pin1 and Pin2 are read in the same way under two sets of names.\<close>

definition read_pin_status ::
    "('d, 'e) tinyxml2 \<Rightarrow> 'd \<Rightarrow> 'e \<Rightarrow> string \<Rightarrow> string \<Rightarrow> string \<Rightarrow> string \<Rightarrow> pin_status \<Rightarrow> pin_status result" where
  "read_pin_status x d e code puk_code retries puk_retries s =
     rbind (read_text x d e code (pin s)) (\<lambda>p.
     rbind (read_text x d e puk_code (puk s)) (\<lambda>k.
     rbind (read_times x d e retries (pin_remaining_times s)) (\<lambda>n.
     rbind (read_times x d e puk_retries (puk_remaining_times s)) (\<lambda>m.
       Inr \<lparr>pin = p, puk = k, pin_remaining_times = n, puk_remaining_times = m\<rparr>))))"

definition read_pin_profile :: "('d, 'e) tinyxml2 \<Rightarrow> 'e \<Rightarrow> 'd sim_service \<Rightarrow> 'd sim_service result" where
  "read_pin_profile x e s =
     rbind (read_text x (doc s) e ''PINSTATE'' []) (\<lambda>state.
     rbind (read_pin_status x (doc s) e ''PINCODE'' ''PUKCODE'' ''PINREMAINTIMES'' ''PUKREMAINTIMES'' (pin1_status s)) (\<lambda>p1.
     rbind (read_pin_status x (doc s) e ''PIN2CODE'' ''PUK2CODE'' ''PIN2REMAINTIMES'' ''PUK2REMAINTIMES'' (pin2_status s)) (\<lambda>p2.
       Inr (s\<lparr>sim_status := (if state = ''PINSTATE_ENABLED_NOT_VERIFIED'' then SIM_STATUS_PIN
                              else if state = ''PINSTATE_ENABLED_BLOCKED'' then SIM_STATUS_PUK
                              else sim_status s),
              pin1_status := p1, pin2_status := p2\<rparr>))))"

definition load_profile :: "('d, 'e) tinyxml2 \<Rightarrow> string \<Rightarrow> 'd sim_service \<Rightarrow> 'd sim_service result" where
  \<comment> \<open>from \<open>LoadFile\<close> on, for a file that is there\<close>
  "load_profile x content s =
     (let (d, success) = Parse x (doc s) content;
          s = s\<lparr>doc := d\<rparr>
      in if \<not> success then Inr (s\<lparr>sim_status := SIM_STATUS_ABSENT\<rparr>)
         else case RootElement x d of
           None \<Rightarrow> Inr (s\<lparr>sim_status := SIM_STATUS_ABSENT\<rparr>)
         | Some root \<Rightarrow>
             let s = s\<lparr>sim_status := SIM_STATUS_READY, pin1_status := default_pin_status,
                       pin2_status := default_pin_status\<rparr>
             in case FirstChildElement x d root ''PinProfile'' of
                  None \<Rightarrow> Inr s
                | Some pin_profile \<Rightarrow> read_pin_profile x pin_profile s)"

definition InitializeSimFileSystemAndSimState ::
    "('d, 'e) tinyxml2 \<Rightarrow> sim_env \<Rightarrow> 'd sim_service \<Rightarrow> 'd sim_service result" where
  "InitializeSimFileSystemAndSimState x env s =
     (let icc_profile_path = PerInstancePath env (icc_profile_name env);
          etc_file_path = DefaultHostArtifactsPath env (''etc/modem_simulator/files/'' @ icc_profile_name env);
          file = (if file_usable (files s) icc_profile_path then icc_profile_path else etc_file_path)
      in if \<not> file_usable (files s) file then Inr (s\<lparr>sim_status := SIM_STATUS_ABSENT\<rparr>)
         else load_profile x (the (files s file)) (s\<lparr>file_path := icc_profile_path\<rparr>))"

definition default_locks :: "(string \<times> lock_status) list" where
  \<comment> \<open>the entries of the \<open>std::map\<close> in its order\<close>
  "default_locks = map (\<lambda>k. (k, DISABLE)) [''AB'', ''AC'', ''AG'', ''AI'', ''AO'', ''FD'', ''IR'', ''OI'', ''OX'', ''SC'']"

fun read_locks :: "('d, 'e) tinyxml2 \<Rightarrow> 'd \<Rightarrow> 'e \<Rightarrow> (string \<times> lock_status) list \<Rightarrow> (string \<times> lock_status) list result" where
  "read_locks x d e [] = Inr []"
| "read_locks x d e ((k, st) # locks) =
     rbind (read_text x d e k []) (\<lambda>t.
     rbind (read_locks x d e locks) (\<lambda>rest. Inr ((k, if t = ''ENABLE'' then ENABLE else st) # rest)))"

definition InitializeFacilityLock :: "('d, 'e) tinyxml2 \<Rightarrow> 'd sim_service \<Rightarrow> 'd sim_service result" where
  "InitializeFacilityLock x s =
     (let s = s\<lparr>facility_lock := default_locks\<rparr>
      in case RootElement x (doc s) of
           None \<Rightarrow> Inr (s\<lparr>sim_status := SIM_STATUS_ABSENT\<rparr>)
         | Some root \<Rightarrow>
             (case FirstChildElement x (doc s) root ''FacilityLock'' of
                None \<Rightarrow> Inr s
              | Some e \<Rightarrow> rbind (read_locks x (doc s) e (facility_lock s)) (\<lambda>locks. Inr (s\<lparr>facility_lock := locks\<rparr>))))"

text \<open>The constructor, with the empty document of the library and the files there are\<close>

definition SimService :: "('d, 'e) tinyxml2 \<Rightarrow> sim_env \<Rightarrow> 'd \<Rightarrow> (string \<Rightarrow> string option) \<Rightarrow> 'd sim_service result" where
  "SimService x env empty_doc fs =
     (let no_pin = \<lparr>pin = [], puk = [], pin_remaining_times = None, puk_remaining_times = None\<rparr>;
          s = \<lparr>sim_status = SIM_STATUS_ABSENT, doc = empty_doc, file_path = [], files = fs, pin1_status = no_pin,
               pin2_status = no_pin, facility_lock = [], logical_channels = [], last_file_id = [],
               cdma_subscription_source = None, cdma_roaming_preference = None\<rparr>
      in rbind (InitializeSimFileSystemAndSimState x env s) (\<lambda>s.
         rbind (InitializeFacilityLock x s) (\<lambda>s.
           Inr (s\<lparr>logical_channels := [LogicalChannel 1, LogicalChannel 2, LogicalChannel 3]\<rparr>))))"

text \<open>An element is looked up under one name; its text is set, or a new element is appended.\<close>

definition put_text :: "('d, 'e) tinyxml2 \<Rightarrow> 'e \<Rightarrow> string \<Rightarrow> string \<Rightarrow> string \<Rightarrow> 'd \<Rightarrow> 'd" where
  "put_text x parent looked_up appended txt d =
     (case FirstChildElement x d parent looked_up of
        None \<Rightarrow> fst (AppendNewElementWithText x d parent appended txt)
      | Some c \<Rightarrow> SetText x d c txt)"

definition pin_state_text :: "'d sim_service \<Rightarrow> string" where
  "pin_state_text s =
     (if sim_status s = SIM_STATUS_PUK then ''PINSTATE_ENABLED_BLOCKED''
      else if map_of (facility_lock s) ''SC'' = Some ENABLE then ''PINSTATE_ENABLED_NOT_VERIFIED''
      else ''PINSTATE_UNKNOWN'')"

definition child_or_new :: "('d, 'e) tinyxml2 \<Rightarrow> 'd \<Rightarrow> 'e \<Rightarrow> string \<Rightarrow> 'd \<times> 'e" where
  "child_or_new x d root name =
     (case FirstChildElement x d root name of Some e \<Rightarrow> (d, e) | None \<Rightarrow> AppendNewElement x d root name)"

text \<open>The retries of Pin2 are looked up as \<open>PIN2REMAINTIMES\<close> and appended as \<open>PINREMAINTIMES\<close>.\<close>

definition SavePinStateToIccProfile :: "('d, 'e) tinyxml2 \<Rightarrow> 'd sim_service \<Rightarrow> 'd sim_service result" where
  "SavePinStateToIccProfile x s =
     (case RootElement x (doc s) of
        None \<Rightarrow> Inr (s\<lparr>sim_status := SIM_STATUS_ABSENT\<rparr>)
      | Some root \<Rightarrow>
          rbind (initialised (pin_remaining_times (pin1_status s))) (\<lambda>n1.
          rbind (initialised (puk_remaining_times (pin1_status s))) (\<lambda>m1.
          rbind (initialised (pin_remaining_times (pin2_status s))) (\<lambda>n2.
          rbind (initialised (puk_remaining_times (pin2_status s))) (\<lambda>m2.
            let (d, e) = child_or_new x (doc s) root ''PinProfile'';
                d = put_text x e ''PINSTATE'' ''PINSTATE'' (pin_state_text s) d;
                d = put_text x e ''PINCODE'' ''PINCODE'' (c_str (pin (pin1_status s))) d;
                d = put_text x e ''PUKCODE'' ''PUKCODE'' (c_str (puk (pin1_status s))) d;
                d = put_text x e ''PINREMAINTIMES'' ''PINREMAINTIMES'' (to_string n1) d;
                d = put_text x e ''PUKREMAINTIMES'' ''PUKREMAINTIMES'' (to_string m1) d;
                d = put_text x e ''PIN2CODE'' ''PIN2CODE'' (c_str (pin (pin2_status s))) d;
                d = put_text x e ''PUK2CODE'' ''PUK2CODE'' (c_str (puk (pin2_status s))) d;
                d = put_text x e ''PIN2REMAINTIMES'' ''PINREMAINTIMES'' (to_string n2) d;
                d = put_text x e ''PUK2REMAINTIMES'' ''PUK2REMAINTIMES'' (to_string m2) d
            in Inr (SaveFile x (s\<lparr>doc := d\<rparr>)))))))"

fun put_locks :: "('d, 'e) tinyxml2 \<Rightarrow> 'e \<Rightarrow> (string \<times> lock_status) list \<Rightarrow> 'd \<Rightarrow> 'd" where
  "put_locks x e [] d = d"
| "put_locks x e ((k, st) # locks) d =
     put_locks x e locks (put_text x e k k (if st = ENABLE then ''ENABLE'' else ''DISABLE'') d)"

definition SaveFacilityLockToIccProfile ::
    "('d, 'e) tinyxml2 \<Rightarrow> sim_env \<Rightarrow> 'd sim_service \<Rightarrow> 'd sim_service result" where
  "SaveFacilityLockToIccProfile x env s =
     (case RootElement x (doc s) of
        None \<Rightarrow> Inr (s\<lparr>sim_status := SIM_STATUS_ABSENT\<rparr>)
      | Some root \<Rightarrow>
          let (d, e) = child_or_new x (doc s) root ''FacilityLock'';
              s = SaveFile x (s\<lparr>doc := put_locks x e (facility_lock s) d\<rparr>)
          in rbind (InitializeSimFileSystemAndSimState x env s) (InitializeFacilityLock x))"

text \<open>\<open>ModemSimulator::SaveModemState\<close>\<close>

definition SaveModemState :: "('d, 'e) tinyxml2 \<Rightarrow> sim_env \<Rightarrow> 'd sim_service \<Rightarrow> 'd sim_service result" where
  "SaveModemState x env s = rbind (SavePinStateToIccProfile x s) (SaveFacilityLockToIccProfile x env)"

section \<open>Reading the SIM files\<close>

definition IsFDNEnabled :: "'d sim_service \<Rightarrow> bool" where
  "IsFDNEnabled s \<longleftrightarrow> map_of (facility_lock s) ''FD'' = Some ENABLE"

text \<open>A \<open>char\<close> as an \<open>int\<close>, and \<open>s.substr(pos, n)\<close> with a count that is converted from an \<open>int\<close>\<close>

definition schar :: "char \<Rightarrow> int" where
  "schar c = (let n = of_char c :: int in if n < 128 then n else n - 256)"

definition substr_int :: "string \<Rightarrow> int \<Rightarrow> int \<Rightarrow> string result" where
  "substr_int s pos n =
     (if pos < 0 then Inl (StdException ''out_of_range'')
      else if n < 0 then substr_from s (nat pos) else substr s (nat pos) (nat n))"

definition kFooterSizeBytes :: int where
  "kFooterSizeBytes = 14"

definition kMaxNumberSizeBytes :: int where
  "kMaxNumberSizeBytes = 11"

text \<open>The number of a record of the phone book, \<open>None\<close> if its length is invalid\<close>

definition record_number :: "string \<Rightarrow> string option result" where
  "record_number rec =
     (let footerOffset = int (length rec) - kFooterSizeBytes * 2
      in if footerOffset < 0 then Inl (UndefinedBehaviour ''index out of range'')
         else let numberLength = (schar (rec ! nat footerOffset) - 48) * 16 + schar (rec ! nat (footerOffset + 1)) - 48
              in if numberLength > kMaxNumberSizeBytes then Inr None
                 else rbind (if numberLength * 2 = 16 then substr_int rec (footerOffset + 6) (numberLength * 2 - 4)
                             else substr_int rec (footerOffset + 4) (numberLength * 2 - 2))
                        (\<lambda>bcd. Inr (Some (BCDToString bcd))))"

fun any_number :: "('d, 'e) tinyxml2 \<Rightarrow> 'd \<Rightarrow> string \<Rightarrow> 'e list \<Rightarrow> bool result" where
  "any_number x d num [] = Inr False"
| "any_number x d num (e # es) =
     rbind (text_of x d e) (\<lambda>rec.
     rbind (record_number rec) (\<lambda>fdn.
       if fdn = Some num then Inr True else any_number x d num es))"

definition IsFixedDialNumber :: "('d, 'e) tinyxml2 \<Rightarrow> 'd sim_service \<Rightarrow> string \<Rightarrow> bool result" where
  "IsFixedDialNumber x s num =
     (case RootElement x (doc s) of
        None \<Rightarrow> Inr False
      | Some root \<Rightarrow>
          (case follow_path x (doc s) root (GetUsimEFPath EF_FDN) of
             None \<Rightarrow> Inr False
           | Some parent \<Rightarrow>
               (case FindAttribute x (doc s) parent ''id'' ''6F3B'' of
                  None \<Rightarrow> Inr False
                | Some ef \<Rightarrow> any_number x (doc s) num (NamedChildren x (doc s) ef ''SIMIO''))))"

definition GetPhoneNumberElement :: "('d, 'e) tinyxml2 \<Rightarrow> 'd sim_service \<Rightarrow> 'e option" where
  "GetPhoneNumberElement x s =
     (case RootElement x (doc s) of
        None \<Rightarrow> None
      | Some root \<Rightarrow>
          (case follow_path x (doc s) root (GetUsimEFPath EF_MSISDN) of
             None \<Rightarrow> None
           | Some parent \<Rightarrow>
               (case FindAttribute x (doc s) parent ''id'' ''6F40'' of
                  None \<Rightarrow> None
                | Some ef \<Rightarrow> FindAttribute x (doc s) ef ''cmd'' ''B2'')))"

definition GetPhoneNumber :: "('d, 'e) tinyxml2 \<Rightarrow> 'd sim_service \<Rightarrow> string result" where
  "GetPhoneNumber x s =
     (case GetPhoneNumberElement x s of
        None \<Rightarrow> Inr []
      | Some final \<Rightarrow>
          rbind (text_of x (doc s) final) (\<lambda>rec.
          rbind (record_number rec) (\<lambda>num. Inr (case num of None \<Rightarrow> [] | Some n \<Rightarrow> n))))"

text \<open>\<open>s.replace(pos, n, t)\<close>\<close>

definition replace_at :: "string \<Rightarrow> int \<Rightarrow> nat \<Rightarrow> string \<Rightarrow> string result" where
  "replace_at s pos n t =
     (if pos < 0 \<or> int (length s) < pos then Inl (StdException ''out_of_range'')
      else Inr (take (nat pos) s @ t @ drop (nat pos + n) s))"

definition number_record :: "string \<Rightarrow> string \<Rightarrow> string result" where
  \<comment> \<open>the record with the number of \<open>SetPhoneNumber\<close>\<close>
  "number_record num rec =
     (let footerOffset = int (length rec) - kFooterSizeBytes * 2;
          bcd_number = StringToBCD num
      in rbind (if length num = 12 \<and> num = ''68''
                then rbind (replace_at rec (footerOffset + 6) (length bcd_number) bcd_number) (\<lambda>r. Inr (r, 8))
                else rbind (replace_at rec (footerOffset + 4) (length bcd_number) bcd_number)
                       (\<lambda>r. Inr (r, (length bcd_number + 2) div 2)))
           (\<lambda>(r, newLength).
             if footerOffset < 0 then Inl (UndefinedBehaviour ''index out of range'')
             else Inr (r[nat footerOffset := char_of (48 + newLength div 16),
                         nat footerOffset + 1 := char_of (48 + newLength mod 16)])))"

definition SetPhoneNumber :: "('d, 'e) tinyxml2 \<Rightarrow> string \<Rightarrow> 'd sim_service \<Rightarrow> (bool \<times> 'd sim_service) result" where
  "SetPhoneNumber x num s =
     (if kMaxNumberSizeBytes < int (length num) then Inr (False, s)
      else case GetPhoneNumberElement x s of
        None \<Rightarrow> Inr (False, s)
      | Some elem \<Rightarrow>
          rbind (text_of x (doc s) elem) (\<lambda>rec.
          rbind (number_record num rec) (\<lambda>rec.
            Inr (True, SaveFile x (s\<lparr>doc := SetText x (doc s) elem (c_str rec)\<rparr>)))))"

definition bind_element :: "'e option \<Rightarrow> 'a \<Rightarrow> ('e \<Rightarrow> 'a result) \<Rightarrow> 'a result" where
  \<comment> \<open>\<open>if (!element) return\<close> the default\<close>
  "bind_element e def f = (case e of None \<Rightarrow> Inr def | Some e \<Rightarrow> f e)"

definition GetSimOperator :: "('d, 'e) tinyxml2 \<Rightarrow> 'd sim_service \<Rightarrow> string result" where
  "GetSimOperator x s =
     (let d = doc s
      in bind_element (RootElement x d) [] (\<lambda>root.
         bind_element (FindAttribute x d root ''path'' MF_SIM) [] (\<lambda>mf.
         bind_element (FindAttribute x d mf ''path'' DF_ADF) [] (\<lambda>df.
         bind_element (FindAttribute x d df ''id'' ''6F07'') [] (\<lambda>ef.
         bind_element (FirstChildElement x d ef ''CIMI'') [] (\<lambda>cimi.
         rbind (text_of x d cimi) (\<lambda>imsi.
         bind_element (FindAttribute x d df ''id'' ''6FAD'') [] (\<lambda>ef.
         bind_element (find (\<lambda>e. Attribute x d e ''cmd'' = Some ''B0'') (NamedChildren x d ef ''SIMIO'')) [] (\<lambda>sim_io.
         rbind (text_of x d sim_io) (\<lambda>len.
         rbind (substr_int len (int (length len) - 2) (-1)) (\<lambda>t.
         rbind (stoi 10 t) (\<lambda>mnc_size. substr_int imsi 0 (3 + mnc_size)))))))))))))"

section \<open>PIN commands\<close>

text \<open>A change of the status of the SIM reaches the network service.\<close>

definition set_sim_status :: "sim_status \<Rightarrow> 'd sim_service \<Rightarrow> 'd sim_service \<times> event list" where
  "set_sim_status st s = (s\<lparr>sim_status := st\<rparr>, [SimStatusChanged])"

definition HandleSIMStatusReq :: "client \<Rightarrow> 'd sim_service \<Rightarrow> 'd sim_service outcome" where
  "HandleSIMStatusReq client s =
     (let answer = (case sim_status s of
                      SIM_STATUS_ABSENT \<Rightarrow> kCmeErrorSimNotInserted
                    | SIM_STATUS_NOT_READY \<Rightarrow> kCmeErrorSimBusy
                    | SIM_STATUS_READY \<Rightarrow> ''+CPIN: READY''
                    | SIM_STATUS_PIN \<Rightarrow> ''+CPIN: SIM PIN''
                    | SIM_STATUS_PUK \<Rightarrow> ''+CPIN: SIM PUK'')
      in Inr (s, SendCommandResponses client [answer, ''OK'']))"

definition checkPin1AndAdjustSimStatus ::
    "string \<Rightarrow> 'd sim_service \<Rightarrow> (bool \<times> 'd sim_service \<times> event list) result" where
  "checkPin1AndAdjustSimStatus p s =
     rbind (VerifyPIN p (pin1_status s)) (\<lambda>(ok, p1).
       let s = s\<lparr>pin1_status := p1\<rparr>
       in if ok then Inr (True, set_sim_status SIM_STATUS_READY s)
          else rbind (initialised (pin_remaining_times p1)) (\<lambda>n.
                 Inr (False, if n \<le> 0 then set_sim_status SIM_STATUS_PUK s else (s, []))))"

definition ChangePin1AndAdjustSimStatus ::
    "change_mode \<Rightarrow> string \<Rightarrow> string \<Rightarrow> 'd sim_service \<Rightarrow> (bool \<times> 'd sim_service \<times> event list) result" where
  "ChangePin1AndAdjustSimStatus mode p new_pin s =
     rbind (ChangePIN mode p new_pin (pin1_status s)) (\<lambda>(ok, p1).
       let s = s\<lparr>pin1_status := p1\<rparr>
       in if ok then Inr (True, set_sim_status SIM_STATUS_READY s)
          else if sim_status s = SIM_STATUS_READY then
            rbind (initialised (pin_remaining_times p1)) (\<lambda>n.
              Inr (False, if n \<le> 0 then set_sim_status SIM_STATUS_PIN s else (s, [])))
          else if sim_status s = SIM_STATUS_PIN then
            rbind (initialised (puk_remaining_times p1)) (\<lambda>n.
              Inr (False, if n \<le> 0 then set_sim_status SIM_STATUS_ABSENT s else (s, [])))
          else Inr (False, s, []))"

definition password_response :: "client \<Rightarrow> bool \<Rightarrow> event list" where
  "password_response client ok = SendCommandResponse client (if ok then ''OK'' else kCmeErrorIncorrectPassword)"

text \<open>\<open>pin,newpin\<close> or \<open>puk,newpin\<close>\<close>

definition change_with_comma ::
    "change_mode \<Rightarrow> client \<Rightarrow> string \<Rightarrow> 'd sim_service \<Rightarrow> 'd sim_service outcome" where
  "change_with_comma mode client cmd s =
     (let (p, new_pin) = GetNextStrFlag (CHR '','') cmd
      in rbind (ChangePin1AndAdjustSimStatus mode p new_pin s) (\<lambda>(ok, s, evs).
           Inr (s, evs @ password_response client ok)))"

definition HandleChangeOrEnterPIN :: "client \<Rightarrow> string \<Rightarrow> 'd sim_service \<Rightarrow> 'd sim_service outcome" where
  "HandleChangeOrEnterPIN client command s =
     (let cmd = SkipPrefix command
      in case sim_status s of
           SIM_STATUS_ABSENT \<Rightarrow> Inr (s, SendCommandResponse client kCmeErrorSimNotInserted)
         | SIM_STATUS_NOT_READY \<Rightarrow> Inr (s, SendCommandResponse client kCmeErrorSimBusy)
         | SIM_STATUS_READY \<Rightarrow>
             if find_char (CHR '','') cmd \<noteq> None then change_with_comma WITH_PIN client cmd s
             else rbind (VerifyPIN cmd (pin2_status s)) (\<lambda>(ok, p2).
                    Inr (s\<lparr>pin2_status := p2\<rparr>, password_response client ok))
         | SIM_STATUS_PIN \<Rightarrow>
             rbind (checkPin1AndAdjustSimStatus cmd s) (\<lambda>(ok, s, evs). Inr (s, evs @ password_response client ok))
         | SIM_STATUS_PUK \<Rightarrow>
             if find_char (CHR '','') cmd \<noteq> None then change_with_comma WITH_PUK client cmd s
             else Inr (s, SendCommandResponse client kCmeErrorOperationNotAllowed))"

definition HandleChangePassword :: "client \<Rightarrow> string \<Rightarrow> 'd sim_service \<Rightarrow> 'd sim_service outcome" where
  "HandleChangePassword client command s =
     (let (lock, cmd) = GetNextStr (SkipPrefix command);
          (old_password, cmd) = GetNextStr cmd;
          (new_password, _) = GetNextStr cmd
      in if lock = ''SC'' then
           rbind (ChangePin1AndAdjustSimStatus WITH_PIN old_password new_password s) (\<lambda>(ok, s, evs).
             Inr (s, evs @ password_response client ok))
         else if lock = ''P2'' \<or> lock = ''FD'' then
           rbind (ChangePIN WITH_PIN old_password new_password (pin2_status s)) (\<lambda>(ok, p2).
             Inr (s\<lparr>pin2_status := p2\<rparr>, password_response client ok))
         else Inr (s, SendCommandResponse client kCmeErrorOperationNotSupported))"

definition remain_times_line :: "string \<Rightarrow> int option \<Rightarrow> int \<Rightarrow> client \<Rightarrow> event list result" where
  "remain_times_line name remaining default_times client =
     rbind (initialised remaining) (\<lambda>n.
       Inr (SendCommandResponses client
              [''+CPINR: '' @ name @ '','' @ to_string n @ '','' @ to_string default_times, ''OK'']))"

definition HandleQueryRemainTimes :: "client \<Rightarrow> string \<Rightarrow> 'd sim_service \<Rightarrow> 'd sim_service outcome" where
  "HandleQueryRemainTimes client command s =
     (let lock_type = fst (GetNextStr (SkipPrefix command))
      in rbind (if lock_type = ''SIM PIN'' then
                  remain_times_line lock_type (pin_remaining_times (pin1_status s)) kSimPinMaxRetryTimes client
                else if lock_type = ''SIM PUK'' then
                  remain_times_line lock_type (puk_remaining_times (pin1_status s)) kSimPukMaxRetryTimes client
                else if lock_type = ''SIM PIN2'' then
                  remain_times_line lock_type (pin_remaining_times (pin2_status s)) kSimPinMaxRetryTimes client
                else if lock_type = ''SIM PUK2'' then
                  remain_times_line lock_type (puk_remaining_times (pin2_status s)) kSimPukMaxRetryTimes client
                else Inr (SendCommandResponse client kCmeErrorInCorrectParameters))
           (\<lambda>evs. Inr (s, evs)))"

section \<open>Facility locks\<close>

fun lock_status_int :: "lock_status \<Rightarrow> int" where
  "lock_status_int DISABLE = 0"
| "lock_status_int ENABLE = 1"

definition set_lock :: "string \<Rightarrow> int \<Rightarrow> 'd sim_service \<Rightarrow> 'd sim_service" where
  "set_lock lock mode s =
     s\<lparr>facility_lock := map (\<lambda>(k, st). (k, if k = lock then (if mode = 0 then DISABLE else ENABLE) else st))
                            (facility_lock s)\<rparr>"

definition change_lock :: "client \<Rightarrow> string \<Rightarrow> int \<Rightarrow> string \<Rightarrow> 'd sim_service \<Rightarrow> 'd sim_service outcome" where
  "change_lock client lock mode password s =
     (if lock = ''SC'' then
        rbind (checkPin1AndAdjustSimStatus password s) (\<lambda>(ok, s, evs).
          Inr (if ok then set_lock lock mode s else s, evs @ password_response client ok))
      else if lock = ''FD'' then
        rbind (VerifyPIN password (pin2_status s)) (\<lambda>(ok, p2).
          let s = s\<lparr>pin2_status := p2\<rparr>
          in Inr (if ok then set_lock lock mode s else s, password_response client ok))
      else Inr (set_lock lock mode s, SendCommandResponse client ''OK''))"

definition HandleFacilityLock :: "client \<Rightarrow> string \<Rightarrow> 'd sim_service \<Rightarrow> 'd sim_service outcome" where
  "HandleFacilityLock client command s =
     (let (lock, cmd) = GetNextStr command;
          (mode, cmd) = GetNextInt cmd;
          (password, _) = GetNextStr cmd
      in case map_of (facility_lock s) lock of
           None \<Rightarrow> Inr (s, SendCommandResponse client kCmeErrorOperationNotSupported)
         | Some st \<Rightarrow>
             if mode = 2 then
               Inr (s, SendCommandResponses client [''+CLCK: '' @ to_string (lock_status_int st), ''OK''])
             else if mode = 0 \<or> mode = 1 then change_lock client lock mode password s
             else Inr (s, SendCommandResponse client kCmeErrorInCorrectParameters))"

section \<open>SIM files and logical channels\<close>

definition file_not_found :: "client \<Rightarrow> event list" where
  "file_not_found client = SendCommandResponses client [''+CRSM: 106,130'', ''OK'']"

text \<open>Whether an element answers the command: for all but the two update commands, its command and data must not differ.\<close>

definition sim_io_matches ::
    "('d, 'e) tinyxml2 \<Rightarrow> 'd \<Rightarrow> string \<Rightarrow> string \<Rightarrow> string \<Rightarrow> string \<Rightarrow> string \<Rightarrow> 'e \<Rightarrow> bool" where
  "sim_io_matches x d c p1 p2 p3 data e \<longleftrightarrow>
     (c = ''DC'' \<or> c = ''D6'' \<or>
      Attribute x d e ''cmd'' \<in> {None, Some c} \<and> Attribute x d e ''data'' \<in> {None, Some data}) \<and>
     Attribute x d e ''p1'' = Some p1 \<and> Attribute x d e ''p2'' = Some p2 \<and> Attribute x d e ''p3'' = Some p3"

text \<open>The file of an id under a path: the phone book is kept under another id and path.\<close>

definition sim_file :: "string \<Rightarrow> string \<Rightarrow> (string \<times> string) result" where
  "sim_file file path =
     rbind (stoi 16 file) (\<lambda>fileid.
       let path = (if path = [] then GetUsimEFPath fileid else path)
       in Inr (if fileid = EF_ADN \<and> path = GetUsimEFPath fileid then (''4F3A'', MF_SIM @ DF_TELECOM @ DF_PHONEBOOK)
               else (file, path)))"

definition sim_io ::
    "('d, 'e) tinyxml2 \<Rightarrow> client \<Rightarrow> string \<Rightarrow> ('e \<Rightarrow> bool) \<Rightarrow> string \<Rightarrow> 'e \<Rightarrow> 'd sim_service \<Rightarrow> 'd sim_service outcome" where
  \<comment> \<open>the command on the records of an element file\<close>
  "sim_io x client c matches data ef s =
     (case find matches (NamedChildren x (doc s) ef ''SIMIO'') of
        None \<Rightarrow> Inr (s, file_not_found client)
      | Some final \<Rightarrow>
          if c = ''DC'' \<or> c = ''D6'' then
            Inr (SaveFile x (s\<lparr>doc := SetText x (doc s) final (c_str (''144,0,'' @ data))\<rparr>),
                 SendCommandResponses client [''+CRSM: 144,0'', ''OK''])
          else rbind (text_of x (doc s) final) (\<lambda>t.
                 Inr (s, SendCommandResponses client [''+CRSM: '' @ t, ''OK''])))"

definition HandleSIM_IO :: "('d, 'e) tinyxml2 \<Rightarrow> client \<Rightarrow> string \<Rightarrow> 'd sim_service \<Rightarrow> 'd sim_service outcome" where
  "HandleSIM_IO x client command s =
     (let cmd = SkipPrefix command
      in if cmd = ''242,0,0,0,0'' then
           Inr (s, SendCommandResponses client
                     [''+CRSM: 144,0,62338202782183023F00A50C80016187010183040007DBF08A01058B062F0601020002C60C90016083010183010A83010D8102FFFF'', ''OK''])
         else
           let (c, cmd) = GetNextStrDeciToHex cmd;
               (id, cmd) = GetNextStrDeciToHex cmd;
               (p1, cmd) = GetNextStrDeciToHex cmd;
               (p2, cmd) = GetNextStrDeciToHex cmd;
               (p3, cmd) = GetNextStrDeciToHex cmd;
               (data, cmd) = GetNextStrFlag (CHR '','') cmd;
               (path, _) = GetNextStr cmd
           in case RootElement x (doc s) of
                None \<Rightarrow> Inr (s, SendCommandResponse client kCmeErrorOperationNotAllowed)
              | Some root \<Rightarrow>
                  rbind (sim_file id path) (\<lambda>(id, path).
                    bind_element (follow_path x (doc s) root path) (s, file_not_found client) (\<lambda>parent.
                    bind_element (FindAttribute x (doc s) parent ''id'' id) (s, file_not_found client) (\<lambda>ef.
                      sim_io x client c (sim_io_matches x (doc s) c p1 p2 p3 data) data ef s))))"

text \<open>The answer with the text of an element, after a prefix\<close>

definition text_response :: "('d, 'e) tinyxml2 \<Rightarrow> client \<Rightarrow> string \<Rightarrow> 'e \<Rightarrow> 'd sim_service \<Rightarrow> 'd sim_service outcome" where
  "text_response x client lead e s =
     rbind (text_of x (doc s) e) (\<lambda>t. Inr (s, SendCommandResponses client [lead @ t, ''OK'']))"

definition not_found :: "client \<Rightarrow> 'd sim_service \<Rightarrow> 'd sim_service \<times> event list" where
  "not_found client s = (s, SendCommandResponse client kCmeErrorNotFound)"

definition with_root ::
    "('d, 'e) tinyxml2 \<Rightarrow> client \<Rightarrow> 'd sim_service \<Rightarrow> ('e \<Rightarrow> 'd sim_service outcome) \<Rightarrow> 'd sim_service outcome" where
  "with_root x client s f =
     (case RootElement x (doc s) of
        None \<Rightarrow> Inr (s, SendCommandResponse client kCmeErrorOperationNotAllowed)
      | Some root \<Rightarrow> f root)"

definition HandleGetIMSI :: "('d, 'e) tinyxml2 \<Rightarrow> client \<Rightarrow> 'd sim_service \<Rightarrow> 'd sim_service outcome" where
  "HandleGetIMSI x client s =
     with_root x client s (\<lambda>root.
       bind_element (FindAttribute x (doc s) root ''path'' MF_SIM) (not_found client s) (\<lambda>mf.
       bind_element (FindAttribute x (doc s) mf ''path'' DF_ADF) (not_found client s) (\<lambda>df.
       bind_element (FindAttribute x (doc s) df ''id'' ''6F07'') (not_found client s) (\<lambda>ef.
       bind_element (FirstChildElement x (doc s) ef ''CIMI'') (not_found client s) (\<lambda>final.
         text_response x client [] final s)))))"

definition HandleGetIccId :: "('d, 'e) tinyxml2 \<Rightarrow> client \<Rightarrow> 'd sim_service \<Rightarrow> 'd sim_service outcome" where
  "HandleGetIccId x client s =
     with_root x client s (\<lambda>root.
       bind_element (FindAttribute x (doc s) root ''path'' MF_SIM) (not_found client s) (\<lambda>mf.
       bind_element (FindAttribute x (doc s) mf ''id'' ''2FE2'') (not_found client s) (\<lambda>ef.
       bind_element (FirstChildElement x (doc s) ef ''CCID'') (not_found client s) (\<lambda>final.
         text_response x client [] final s))))"

definition HandleGetEid :: "('d, 'e) tinyxml2 \<Rightarrow> client \<Rightarrow> 'd sim_service \<Rightarrow> 'd sim_service outcome" where
  "HandleGetEid x client s =
     with_root x client s (\<lambda>root.
       bind_element (FirstChildElement x (doc s) root ''CardProfile'') (not_found client s) (\<lambda>card_profile.
       bind_element (FirstChildElement x (doc s) card_profile ''EID'') (not_found client s) (\<lambda>final.
         text_response x client ''+CEID: '' final s)))"

definition HandleGetAtr :: "('d, 'e) tinyxml2 \<Rightarrow> client \<Rightarrow> 'd sim_service \<Rightarrow> 'd sim_service outcome" where
  "HandleGetAtr x client s =
     with_root x client s (\<lambda>root.
       bind_element (FirstChildElement x (doc s) root ''CardProfile'') (not_found client s) (\<lambda>card_profile.
       bind_element (FirstChildElement x (doc s) card_profile ''ATR'') (not_found client s) (\<lambda>final.
         text_response x client ''+CATR: '' final s)))"

fun first_index :: "('a \<Rightarrow> bool) \<Rightarrow> 'a list \<Rightarrow> nat option" where
  "first_index P [] = None"
| "first_index P (a # as) = (if P a then Some 0 else map_option Suc (first_index P as))"

definition open_channel :: "string \<Rightarrow> nat \<Rightarrow> 'd sim_service \<Rightarrow> 'd sim_service" where
  "open_channel name n s =
     s\<lparr>logical_channels := (logical_channels s)[n := (logical_channels s ! n)\<lparr>is_open := True, df_name := name\<rparr>]\<rparr>"

text \<open>The channel that \<open>AT+CSIM\<close> opens: the first free one, if its session id is the number at the end of the data\<close>

definition csim_channel :: "string \<Rightarrow> 'd sim_service \<Rightarrow> 'd sim_service result" where
  "csim_channel data_value s =
     rbind (substr_int data_value (int (length data_value) - 2) 2) (\<lambda>id.
       case first_index (\<lambda>c. \<not> is_open c) (logical_channels s) of
         None \<Rightarrow> Inr s
       | Some n \<Rightarrow>
           rbind (stoi 10 id) (\<lambda>session.
             Inr (if session_id (logical_channels s ! n) = session then open_channel ''CSIM'' n s else s)))"

definition HandleCSIM_IO :: "('d, 'e) tinyxml2 \<Rightarrow> client \<Rightarrow> string \<Rightarrow> 'd sim_service \<Rightarrow> 'd sim_service outcome" where
  "HandleCSIM_IO x client command s =
     (let data_value = fst (GetNextStr (SkipComma (SkipPrefix command)))
      in with_root x client s (\<lambda>root.
           bind_element (FindAttribute x (doc s) root ''aid'' ''CSIM'') (not_found client s) (\<lambda>df.
             if 10 < length data_value then Inr (s, SendCommandResponses client [''+CSIM: 4,9000'', ''OK''])
             else bind_element (FindAttribute x (doc s) df ''cmd'' data_value) (not_found client s) (\<lambda>final.
                    rbind (csim_channel data_value s) (\<lambda>s. text_response x client ''+CSIM: '' final s)))))"

definition HandleOpenLogicalChannel ::
    "('d, 'e) tinyxml2 \<Rightarrow> client \<Rightarrow> string \<Rightarrow> 'd sim_service \<Rightarrow> 'd sim_service outcome" where
  "HandleOpenLogicalChannel x client command s =
     (let cmd = SkipPrefix command
      in if cmd = [] then Inr (s, SendCommandResponse client kCmeErrorInCorrectParameters)
         else with_root x client s (\<lambda>root.
           bind_element (FindAttribute x (doc s) root ''aid'' cmd) (not_found client s) (\<lambda>df.
             case first_index (\<lambda>c. \<not> is_open c) (logical_channels s) of
               None \<Rightarrow> Inr (s, SendCommandResponse client kCmeErrorMemoryFull)
             | Some n \<Rightarrow>
                 Inr (open_channel cmd n s,
                      SendCommandResponses client [to_string (session_id (logical_channels s ! n)), ''OK'']))))"

definition HandleCloseLogicalChannel :: "client \<Rightarrow> string \<Rightarrow> 'd sim_service \<Rightarrow> 'd sim_service outcome" where
  "HandleCloseLogicalChannel client command s =
     (let session = fst (GetNextInt (SkipPrefix command))
      in case first_index (\<lambda>c. session_id c = session) (logical_channels s) of
           None \<Rightarrow> Inr (not_found client s)
         | Some n \<Rightarrow>
             if is_open (logical_channels s ! n) then
               Inr (s\<lparr>logical_channels := (logical_channels s)
                        [n := (logical_channels s ! n)\<lparr>is_open := False, df_name := []\<rparr>]\<rparr>,
                    SendCommandResponses client [''+CCHC'', ''OK''])
             else Inr (not_found client s))"

text \<open>For a file other than CSIM, the file id of the last select command\<close>

definition selected_file :: "string \<Rightarrow> 'd sim_service \<Rightarrow> 'd sim_service result" where
  "selected_file cmd s =
     rbind (substr cmd 2 2) (\<lambda>t.
       if t = ''a4'' then rbind (substr_int cmd (int (length cmd) - 4) 4) (\<lambda>id. Inr (s\<lparr>last_file_id := id\<rparr>))
       else Inr s)"

definition transmit ::
    "('d, 'e) tinyxml2 \<Rightarrow> client \<Rightarrow> string \<Rightarrow> 'e \<Rightarrow> 'd sim_service \<Rightarrow> 'd sim_service outcome" where
  "transmit x client cmd df s =
     bind_element (FindAttribute x (doc s) df ''cmd'' cmd) (not_found client s) (\<lambda>final.
       text_response x client ''+CGLA: '' final s)"

definition HandleTransmitLogicalChannel ::
    "('d, 'e) tinyxml2 \<Rightarrow> client \<Rightarrow> string \<Rightarrow> 'd sim_service \<Rightarrow> 'd sim_service outcome" where
  "HandleTransmitLogicalChannel x client command s =
     (let (session, cmd) = GetNextInt (SkipPrefix command);
          (len, cmd) = GetNextInt cmd
      in if int (length cmd) \<noteq> len mod 2 ^ 64 then Inr (s, SendCommandResponse client kCmeErrorInCorrectParameters)
         else case first_index (\<lambda>c. session_id c = session \<and> is_open c) (logical_channels s) of
           None \<Rightarrow> Inr (s, SendCommandResponse client kCmeErrorInvalidIndex)
         | Some n \<Rightarrow>
             let name = df_name (logical_channels s ! n)
             in with_root x client s (\<lambda>root.
                  bind_element (FindAttribute x (doc s) root ''aid'' name) (not_found client s) (\<lambda>df.
                    if name = ''CSIM'' then transmit x client cmd df s
                    else rbind (selected_file cmd s) (\<lambda>s.
                           bind_element (FindAttribute x (doc s) df ''id'' (last_file_id s)) (not_found client s) (\<lambda>df.
                             transmit x client cmd df s)))))"

section \<open>Other commands and the handlers\<close>

definition HandleCdmaSubscriptionSource :: "client \<Rightarrow> string \<Rightarrow> 'd sim_service \<Rightarrow> 'd sim_service outcome" where
  "HandleCdmaSubscriptionSource client command s =
     (if command = ''AT+CCSS?'' then
        rbind (initialised (cdma_subscription_source s)) (\<lambda>n.
          Inr (s, SendCommandResponses client [''+CCSS: '' @ to_string n, ''OK'']))
      else Inr (s\<lparr>cdma_subscription_source := Some (fst (GetNextInt command))\<rparr>, SendCommandResponses client [''OK'']))"

definition HandleCdmaRoamingPreference :: "client \<Rightarrow> string \<Rightarrow> 'd sim_service \<Rightarrow> 'd sim_service outcome" where
  "HandleCdmaRoamingPreference client command s =
     (if command = ''AT+WRMP?'' then
        rbind (initialised (cdma_roaming_preference s)) (\<lambda>n.
          Inr (s, SendCommandResponses client [''+WRMP: '' @ to_string n, ''OK'']))
      else Inr (s\<lparr>cdma_roaming_preference := Some (fst (GetNextInt command))\<rparr>, SendCommandResponses client [''OK'']))"

definition sim_challenges :: "(string \<times> string) list" where
  "sim_challenges =
     [(''2713AB0BA8E8E7D8F1D74545BA03F563'', ''^MBAU: 0,8F2980FC3872FF89,E9620240''),
      (''C3718EC16B3C2A66F8A7200A64069F04'', ''^MBAU: 0,CFDA6C980502DA48,F7E53577''),
      (''11111111111111111111111111111111'', ''^MBAU: 0,0000000000000000,00000000''),
      (''11111111111111111111111111111111,12351417161900001130131215141716'',
       ''^MBAU: 0,111013121514171619181B1A1D1C1F1E,1013121514171619181B1A1D1C1F1E11,'' @
       ''13121514171619181B1A1D1C1F1E1110'')]"

definition HandleSimAuthentication :: "client \<Rightarrow> string \<Rightarrow> 'd sim_service \<Rightarrow> 'd sim_service outcome" where
  "HandleSimAuthentication client command s =
     (let cmds = fst (GetNextStr (SkipPrefix command))
      in Inr (s, SendCommandResponses client
                   [case map_of sim_challenges cmds of None \<Rightarrow> [] | Some answer \<Rightarrow> answer, ''OK'']))"

definition HandlePhoneNumberUpdate ::
    "('d, 'e) tinyxml2 \<Rightarrow> client \<Rightarrow> string \<Rightarrow> 'd sim_service \<Rightarrow> 'd sim_service outcome" where
  "HandlePhoneNumberUpdate x client command s =
     rbind (SetPhoneNumber x (fst (GetNextStrFlag (CHR '' '') (SkipWhiteSpace command))) s) (\<lambda>(_, s). Inr (s, []))"

definition sim_handlers :: "('d, 'e) tinyxml2 \<Rightarrow> 'd sim_service command_handler list" where
  "sim_handlers x =
     [full_handler ''+CPIN?'' HandleSIMStatusReq,
      partial_handler ''+CPIN='' HandleChangeOrEnterPIN,
      partial_handler ''+CRSM='' (HandleSIM_IO x),
      partial_handler ''+CSIM='' (HandleCSIM_IO x),
      full_handler ''+CIMI'' (HandleGetIMSI x),
      full_handler ''+CICCID'' (HandleGetIccId x),
      full_handler ''+CEID'' (HandleGetEid x),
      full_handler ''+CATR'' (HandleGetAtr x),
      partial_handler ''+CLCK='' HandleFacilityLock,
      partial_handler ''+CCHO='' (HandleOpenLogicalChannel x),
      partial_handler ''+CCHC='' HandleCloseLogicalChannel,
      partial_handler ''+CGLA='' (HandleTransmitLogicalChannel x),
      partial_handler ''+CPWD='' HandleChangePassword,
      partial_handler ''+CPINR='' HandleQueryRemainTimes,
      partial_handler ''+CCSS'' HandleCdmaSubscriptionSource,
      partial_handler ''+WRMP'' HandleCdmaRoamingPreference,
      partial_handler ''^MBAU='' HandleSimAuthentication,
      partial_handler ''+REMOTEUPADATEPHONENUMBER'' (HandlePhoneNumberUpdate x)]"

section \<open>A small document\<close>

text \<open>
  A document with one phone number: the root 0 has the directory 1, that the directory 2, that the file 3, and that the
  record 4.  The state of the document is the text of each element.
\<close>

definition sample_xml :: "(nat \<Rightarrow> string option, nat) tinyxml2" where
  "sample_xml =
     \<lparr>RootElement = (\<lambda>_. Some 0),
      ChildElements = (\<lambda>_ e. if e < 4 then [e + 1] else []),
      NamedChildren = (\<lambda>_ _ _. []),
      Attribute = (\<lambda>_ e name. map_of [((1, ''path''), ''3F00''), ((2, ''path''), ''7FFF''), ((3, ''id''), ''6F40''), ((4, ''cmd''), ''B2'')]
                     (e, name)),
      GetText = (\<lambda>d e. map_option c_str (d e)),
      SetText = (\<lambda>d e t. d(e := Some t)),
      NewElement = (\<lambda>d e name txt. (d, e)),
      Parse = (\<lambda>d t. (d, True)),
      Print = (\<lambda>_. ''x'')\<rparr>"

definition sample_sim :: "sim_status \<Rightarrow> int \<Rightarrow> int \<Rightarrow> (nat \<Rightarrow> string option) sim_service" where
  "sample_sim st n m =
     \<lparr>sim_status = st, doc = [4 \<mapsto> ''144,0,FFFF'' @ replicate 28 CHR ''F''], file_path = ''icc.xml'', files = (\<lambda>_. None),
      pin1_status = \<lparr>pin = ''4711'', puk = ''12345678'', pin_remaining_times = Some n, puk_remaining_times = Some m\<rparr>,
      pin2_status = default_pin_status, facility_lock = default_locks,
      logical_channels = [LogicalChannel 1, LogicalChannel 2, LogicalChannel 3], last_file_id = [],
      cdma_subscription_source = None, cdma_roaming_preference = None\<rparr>"

end
