(* ===== verification/Modem_Stk.thy ===== *)
theory Modem_Stk
  imports Modem_Sim
begin

text \<open>
  The SIM application toolkit of the modem simulator (\<open>host/commands/modem_simulator/stk_service.{h,cpp}\<close>): a menu in
  the SIM profile, walked with a stack of menu ids.  The profile is the document \<open>d\<close> of the SIM service, which this
  service only reads.
\<close>

section \<open>The menu\<close>

record stk_service =
  current_select_item_menu_ids :: "string list"

definition StkService :: stk_service where
  "StkService = \<lparr>current_select_item_menu_ids = []\<rparr>"

text \<open>The first of some elements with a menu id\<close>

definition find_menu :: "('d, 'e) tinyxml2 \<Rightarrow> 'd \<Rightarrow> string \<Rightarrow> 'e list \<Rightarrow> 'e option" where
  "find_menu x d menu_id items = find (\<lambda>e. Attribute x d e ''menuId'' = Some menu_id) items"

fun select_path :: "('d, 'e) tinyxml2 \<Rightarrow> 'd \<Rightarrow> 'e option \<Rightarrow> 'e \<Rightarrow> string list \<Rightarrow> 'e option" where
  \<comment> \<open>the loop over the menu ids, with the item selected so far\<close>
  "select_path x d item menu [] = item"
| "select_path x d item menu (i # ids) =
     (case find_menu x d i (NamedChildren x d menu ''SELECTITEM'') of
        None \<Rightarrow> None
      | Some e \<Rightarrow> select_path x d (Some e) e ids)"

text \<open>The selected item and the stack, which is emptied if the profile has no menu\<close>

definition GetCurrentSelectItem :: "('d, 'e) tinyxml2 \<Rightarrow> 'd \<Rightarrow> stk_service \<Rightarrow> 'e option \<times> stk_service" where
  "GetCurrentSelectItem x d s =
     (case RootElement x d of
        None \<Rightarrow> (None, s\<lparr>current_select_item_menu_ids := []\<rparr>)
      | Some root \<Rightarrow>
          (case FirstChildElement x d root ''SETUPMENU'' of
             None \<Rightarrow> (None, s\<lparr>current_select_item_menu_ids := []\<rparr>)
           | Some menu \<Rightarrow> (select_path x d None menu (current_select_item_menu_ids s), s)))"

definition attribute_or_empty :: "('d, 'e) tinyxml2 \<Rightarrow> 'd \<Rightarrow> 'e \<Rightarrow> string" where
  "attribute_or_empty x d e = (case Attribute x d e ''text'' of None \<Rightarrow> [] | Some t \<Rightarrow> t)"

text \<open>An item with the command 24 (\<open>SELECT_ITEM\<close>) is put on the stack.\<close>

definition push_item :: "('d, 'e) tinyxml2 \<Rightarrow> 'd \<Rightarrow> 'e \<Rightarrow> string \<Rightarrow> stk_service \<Rightarrow> stk_service" where
  "push_item x d e menu_id s =
     (if Attribute x d e ''cmd'' = Some ''24''
      then s\<lparr>current_select_item_menu_ids := current_select_item_menu_ids s @ [menu_id]\<rparr> else s)"

section \<open>Handlers\<close>

definition HandleReportStkServiceIsRunning ::
    "('d, 'e) tinyxml2 \<Rightarrow> 'd \<Rightarrow> client \<Rightarrow> stk_service \<Rightarrow> stk_service outcome" where
  "HandleReportStkServiceIsRunning x d client s =
     (let evs = SendCommandResponses client [''+CUSATD: 0,1'', ''OK'']
      in case RootElement x d of
           None \<Rightarrow> Inr (s, evs)
         | Some root \<Rightarrow>
             (case FirstChildElement x d root ''SETUPMENU'' of
                None \<Rightarrow> Inl (UndefinedBehaviour ''FindAttribute on a null pointer'')
              | Some setup_menu \<Rightarrow>
                  Inr (s, evs @ SendUnsolicitedCommand (''+CUSATP:'' @ attribute_or_empty x d setup_menu))))"

text \<open>The last two characters, whose position wraps around for a shorter text\<close>

definition last_two :: "string \<Rightarrow> string result" where
  "last_two data = (if length data < 2 then Inl (StdException ''out_of_range'') else substr_from data (length data - 2))"

definition HandleSendEnvelope ::
    "('d, 'e) tinyxml2 \<Rightarrow> 'd \<Rightarrow> client \<Rightarrow> string \<Rightarrow> stk_service \<Rightarrow> stk_service outcome" where
  "HandleSendEnvelope x d client command s =
     (let evs = SendCommandResponses client [''+CUSATE: 0'', ''OK'']
      in rbind (last_two (fst (GetNextStr (SkipPrefix command)))) (\<lambda>menu_id.
           bind_element (RootElement x d) (s, evs) (\<lambda>root.
           bind_element (FirstChildElement x d root ''SETUPMENU'') (s, evs) (\<lambda>setup_menu.
           bind_element (find_menu x d menu_id (NamedChildren x d setup_menu ''SELECTITEM'')) (s, evs) (\<lambda>item.
             Inr (push_item x d item menu_id s,
                  evs @ SendUnsolicitedCommand (''+CUSATP:'' @ attribute_or_empty x d item)))))))"

definition end_session :: "stk_service \<Rightarrow> stk_service outcome" where
  "end_session s = Inr (s\<lparr>current_select_item_menu_ids := []\<rparr>, SendUnsolicitedCommand ''+CUSATEND'')"

definition show_text :: "('d, 'e) tinyxml2 \<Rightarrow> 'd \<Rightarrow> 'e \<Rightarrow> event list" where
  "show_text x d e =
     (case Attribute x d e ''text'' of None \<Rightarrow> [] | Some t \<Rightarrow> SendUnsolicitedCommand (''+CUSATP: '' @ t))"

text \<open>One menu back: \<open>pop_back\<close>, and the text of the item that is then selected\<close>

definition move_back :: "('d, 'e) tinyxml2 \<Rightarrow> 'd \<Rightarrow> stk_service \<Rightarrow> stk_service outcome" where
  "move_back x d s =
     (if current_select_item_menu_ids s = [] then Inl (UndefinedBehaviour ''pop_back on an empty vector'')
      else let s = s\<lparr>current_select_item_menu_ids := butlast (current_select_item_menu_ids s)\<rparr>
           in if current_select_item_menu_ids s = [] then Inr (s, SendUnsolicitedCommand ''+CUSATEND'')
              else case GetCurrentSelectItem x d s of
                     (None, s) \<Rightarrow> Inl (UndefinedBehaviour ''FindAttribute on a null pointer'')
                   | (Some item, s) \<Rightarrow> Inr (s, show_text x d item))"

definition OnUnsolicitedCommandForTR ::
    "('d, 'e) tinyxml2 \<Rightarrow> 'd \<Rightarrow> string \<Rightarrow> stk_service \<Rightarrow> stk_service outcome" where
  "OnUnsolicitedCommandForTR x d command s =
     rbind (last_two (fst (GetNextStr (SkipPrefix command)))) (\<lambda>menu_id.
       if menu_id = ''10'' \<or> menu_id = ''12'' then end_session s
       else case GetCurrentSelectItem x d s of
              (None, s) \<Rightarrow> end_session s
            | (Some item, s) \<Rightarrow>
                if menu_id = ''11'' then move_back x d s
                else if menu_id = ''00'' then Inr (s, show_text x d item)
                else (case find_menu x d menu_id (ChildElements x d item) of
                        None \<Rightarrow> end_session s
                      | Some e \<Rightarrow>
                          Inr (push_item x d e menu_id s,
                               SendUnsolicitedCommand (''+CUSATP:'' @ attribute_or_empty x d e))))"

definition HandleSendTerminalResponseToSim ::
    "('d, 'e) tinyxml2 \<Rightarrow> 'd \<Rightarrow> client \<Rightarrow> string \<Rightarrow> stk_service \<Rightarrow> stk_service outcome" where
  "HandleSendTerminalResponseToSim x d client command s =
     rbind (OnUnsolicitedCommandForTR x d command s) (\<lambda>(s, evs).
       Inr (s, SendCommandResponses client [''+CUSATT: 0'', ''OK''] @ evs))"

definition stk_handlers :: "('d, 'e) tinyxml2 \<Rightarrow> 'd \<Rightarrow> stk_service command_handler list" where
  "stk_handlers x d =
     [full_handler ''+CUSATD?'' (HandleReportStkServiceIsRunning x d),
      partial_handler ''+CUSATE='' (HandleSendEnvelope x d),
      partial_handler ''+CUSATT='' (HandleSendTerminalResponseToSim x d)]"

section \<open>Walking the menu\<close>

text \<open>An item reached by a path of ids is reached after a shorter path has been walked.\<close>

lemma select_path_append:
  "select_path x d item menu (ids @ ids') =
     (case select_path x d (Some menu) menu ids of
        None \<Rightarrow> None
      | Some e \<Rightarrow> select_path x d (if ids = [] then item else Some e) e ids')"
proof (induction ids arbitrary: item menu)
  case (Cons i ids)
  show ?case
  proof (cases "find_menu x d i (NamedChildren x d menu ''SELECTITEM'')")
    case (Some e)
    show ?thesis unfolding append_Cons select_path.simps Some option.case(2) Cons
      by (auto split: option.splits)
  qed simp
qed simp

lemma select_path_start: "ids \<noteq> [] \<Longrightarrow> select_path x d item menu ids = select_path x d item' menu ids"
  by (cases ids) auto

lemma select_path_butlast:
  assumes "select_path x d None menu ids = Some e" and "butlast ids \<noteq> []"
  shows "\<exists>e'. select_path x d None menu (butlast ids) = Some e'"
proof -
  have "ids = butlast ids @ [last ids]" using assms(2) by (cases ids rule: rev_cases) auto
  with assms(1) select_path_append [of x d None menu "butlast ids" "[last ids]"]
  show ?thesis using select_path_start [OF assms(2), of x d None menu "Some menu"]
    by (auto split: option.splits)
qed

lemma select_path_nonempty: "select_path x d None menu ids = Some e \<Longrightarrow> ids \<noteq> []"
  by auto

lemma move_back_defined:
  assumes "GetCurrentSelectItem x d s = (Some item, s')"
  shows "\<exists>s'' evs. move_back x d s' = Inr (s'', evs) \<and>
    current_select_item_menu_ids s'' = butlast (current_select_item_menu_ids s)"
proof -
  from assms obtain root menu where root: "RootElement x d = Some root"
    and menu: "FirstChildElement x d root ''SETUPMENU'' = Some menu" and [simp]: "s' = s"
    and sel: "select_path x d None menu (current_select_item_menu_ids s) = Some item"
    by (auto simp: GetCurrentSelectItem_def split: option.splits)
  from select_path_nonempty [OF sel] select_path_butlast [OF sel] root menu
  show ?thesis
    by (cases "butlast (current_select_item_menu_ids s) = []") (auto simp: move_back_def GetCurrentSelectItem_def)
qed


text \<open>A profile with a menu that has one submenu, and that one item\<close>

definition menu_xml :: "(unit, nat) tinyxml2" where
  "menu_xml =
     \<lparr>RootElement = (\<lambda>_. Some 0),
      ChildElements = (\<lambda>_ e. if e < 3 then [e + 1] else []),
      NamedChildren = (\<lambda>_ e name. if e = 0 \<and> name = ''SETUPMENU'' \<or> e \<in> {1, 2} \<and> name = ''SELECTITEM'' then [e + 1] else []),
      Attribute = (\<lambda>_ e name. map_of [((2, ''menuId''), ''01''), ((2, ''cmd''), ''24''), ((2, ''text''), ''Games''),
                                   ((3, ''menuId''), ''02''), ((3, ''cmd''), ''21'')] (e, name)),
      GetText = (\<lambda>_ _. None), SetText = (\<lambda>d _ _. d), NewElement = (\<lambda>d e _ _. (d, e)),
      Parse = (\<lambda>d _. (d, True)), Print = (\<lambda>_. [])\<rparr>"


end
