(* ===== verification/Modem_Sim_Lock.thy ===== *)
theory Modem_Sim_Lock
  imports Modem_Sim "HOL-Library.Sublist"
begin

text \<open>
  The codes of the SIM (\<open>sim_service.cpp\<close>): what any sequence of commands can do to a SIM that is locked.
\<close>

section \<open>The codes of the SIM\<close>

text \<open>What the parser returns and what it leaves are parts of the command.\<close>

lemma sublist_skip_past: "sublist (skip_past c s) s"
  by (auto simp: skip_past_def split: option.splits)

lemmas sublist_skip =
  sublist_skip_past [of "CHR ''=''", folded SkipPrefix_def]
  sublist_skip_past [of "CHR '',''", folded SkipComma_def]
  sublist_skip_past [of "CHR '' ''", folded SkipWhiteSpace_def]

lemma sublist_GetNextStr: "sublist (fst (GetNextStr s)) s" "sublist (snd (GetNextStr s)) s"
proof -
  have drop: "sublist (take n (drop m s)) s" "sublist (drop n (drop m s)) s" for n m
    by (meson sublist_drop sublist_order.order_trans sublist_take)+
  then show "sublist (fst (GetNextStr s)) s"
    by (auto simp: GetNextStr_def Let_def split: option.splits simp del: drop_drop)
  show "sublist (snd (GetNextStr s)) s"
    using drop sublist_order.order_trans [OF sublist_skip(2)]
    by (auto simp: GetNextStr_def Let_def split: option.splits simp del: drop_drop)
qed

lemma sublist_GetNextStrFlag: "sublist (fst (GetNextStrFlag c s)) s" "sublist (snd (GetNextStrFlag c s)) s"
  by (auto simp: GetNextStrFlag_def split: option.splits)

lemma sublist_GetNextInt: "sublist (snd (GetNextInt s)) s"
  using sublist_GetNextStrFlag(2) by (auto simp: GetNextInt_def case_prod_unfold Let_def)

lemmas sublist_parse = sublist_skip sublist_GetNextStr sublist_GetNextStrFlag sublist_GetNextInt

lemma VerifyPIN_cases:
  assumes "VerifyPIN p st = Inr (ok, st')"
  shows "ok \<and> p = pin st \<and> (\<exists>n > 0. pin_remaining_times st = Some n) \<and>
           st' = st\<lparr>pin_remaining_times := Some kSimPinMaxRetryTimes\<rparr> \<or>
         \<not> ok \<and> (st' = st \<or>
           (\<exists>n > 0. pin_remaining_times st = Some n \<and> st' = st\<lparr>pin_remaining_times := Some (n - 1)\<rparr> \<and> p \<noteq> pin st))"
  using assms
  by (auto simp: VerifyPIN_def initialised_def split: if_splits option.splits)

lemma VerifyPUK_cases:
  assumes "VerifyPUK p st = Inr (ok, st')"
  shows "ok \<and> p = puk st \<and> (\<exists>n > 0. puk_remaining_times st = Some n) \<and>
           st' = st\<lparr>pin_remaining_times := Some kSimPinMaxRetryTimes,
                    puk_remaining_times := Some kSimPukMaxRetryTimes\<rparr> \<or>
         \<not> ok \<and> (st' = st \<or>
           (\<exists>n > 0. puk_remaining_times st = Some n \<and> st' = st\<lparr>puk_remaining_times := Some (n - 1)\<rparr> \<and> p \<noteq> puk st))"
  using assms
  by (auto simp: VerifyPUK_def initialised_def split: if_splits option.splits)
text \<open>A SIM that is not ready, with its codes and at most these retries left\<close>

definition sim_locked :: "string \<Rightarrow> string \<Rightarrow> int \<Rightarrow> int \<Rightarrow> 'd sim_service \<Rightarrow> bool" where
  "sim_locked p k n m s \<longleftrightarrow>
     sim_status s \<noteq> SIM_STATUS_READY \<and> pin (pin1_status s) = p \<and> puk (pin1_status s) = k \<and>
     (\<forall>i. pin_remaining_times (pin1_status s) = Some i \<longrightarrow> i \<le> n) \<and>
     (\<forall>i. puk_remaining_times (pin1_status s) = Some i \<longrightarrow> i \<le> m)"

lemma checkPin1_outcome:
  assumes "checkPin1AndAdjustSimStatus q s = Inr (ok, s', evs)"
  shows "VerifyPIN q (pin1_status s) = Inr (ok, pin1_status s') \<and>
    sim_status s' \<in> (if ok then {SIM_STATUS_READY} else {sim_status s, SIM_STATUS_PUK})"
  using assms
  by (auto simp: checkPin1AndAdjustSimStatus_def rbind_eq_Inr Let_def set_sim_status_def split: if_splits)

lemma ChangePin1_outcome:
  assumes "ChangePin1AndAdjustSimStatus mode q new_pin s = Inr (ok, s', evs)"
  shows "ChangePIN mode q new_pin (pin1_status s) = Inr (ok, pin1_status s') \<and>
    sim_status s' \<in> (if ok then {SIM_STATUS_READY} else {sim_status s, SIM_STATUS_PIN, SIM_STATUS_ABSENT})"
  using assms
  by (auto simp: ChangePin1AndAdjustSimStatus_def rbind_eq_Inr Let_def set_sim_status_def split: if_splits)

lemma checkPin1_locked:
  assumes "checkPin1AndAdjustSimStatus q s = Inr (ok, s', evs)" and "sim_locked p k n m s" and "q \<noteq> p"
  shows "\<not> ok \<and> sim_locked p k n m s'"
proof -
  have verify: "VerifyPIN q (pin1_status s) = Inr (ok, pin1_status s')"
    and status: "sim_status s' \<in> (if ok then {SIM_STATUS_READY} else {sim_status s, SIM_STATUS_PUK})"
    using checkPin1_outcome [OF assms(1)] by auto
  show ?thesis
    using VerifyPIN_cases [OF verify] status assms(2,3) by (auto simp: sim_locked_def)
qed

lemma ChangePIN_locked:
  assumes "ChangePIN mode q new_pin st = Inr (ok, st')" and "q \<noteq> pin st" and "q \<noteq> puk st"
  shows "\<not> ok \<and> pin st' = pin st \<and> puk st' = puk st \<and>
    (\<forall>i. pin_remaining_times st' = Some i \<longrightarrow> (\<exists>j \<ge> i. pin_remaining_times st = Some j)) \<and>
    (\<forall>i. puk_remaining_times st' = Some i \<longrightarrow> (\<exists>j \<ge> i. puk_remaining_times st = Some j))"
proof (cases "pin_size_ok new_pin")
  case True
  define r where "r = (case mode of WITH_PIN \<Rightarrow> VerifyPIN q st | WITH_PUK \<Rightarrow> VerifyPUK q st)"
  have unfold: "rbind r (\<lambda>(result, s). if \<not> result then Inr (False, s)
      else if \<not> CheckPasswordValid new_pin then Inr (False, s) else Inr (True, s\<lparr>pin := new_pin\<rparr>)) = Inr (ok, st')"
    using assms(1) True by (simp add: ChangePIN_def r_def)
  then obtain ok' st1 where r: "r = Inr (ok', st1)" by (auto simp: rbind_eq_Inr)
  have "\<not> ok' \<and> (st1 = st \<or> (\<exists>n. pin_remaining_times st = Some n \<and> st1 = st\<lparr>pin_remaining_times := Some (n - 1)\<rparr>) \<or>
      (\<exists>n. puk_remaining_times st = Some n \<and> st1 = st\<lparr>puk_remaining_times := Some (n - 1)\<rparr>))"
    using r VerifyPIN_cases [of q st ok' st1] VerifyPUK_cases [of q st ok' st1] assms(2,3)
    by (auto simp: r_def split: change_mode.splits)
  with unfold r show ?thesis by auto
qed (use assms(1) in \<open>auto simp: ChangePIN_def\<close>)

lemma ChangePin1_locked:
  assumes "ChangePin1AndAdjustSimStatus mode q new_pin s = Inr (ok, s', evs)" and "sim_locked p k n m s"
    and "q \<noteq> p" and "q \<noteq> k"
  shows "\<not> ok \<and> sim_locked p k n m s'"
proof -
  have change: "ChangePIN mode q new_pin (pin1_status s) = Inr (ok, pin1_status s')"
    and status: "sim_status s' \<in> (if ok then {SIM_STATUS_READY} else {sim_status s, SIM_STATUS_PIN, SIM_STATUS_ABSENT})"
    using ChangePin1_outcome [OF assms(1)] by auto
  have "q \<noteq> pin (pin1_status s)" "q \<noteq> puk (pin1_status s)" using assms(2-4) by (auto simp: sim_locked_def)
  from ChangePIN_locked [OF change this] status assms(2) show ?thesis by (fastforce simp: sim_locked_def)
qed

text \<open>Most handlers leave the status and the first PIN as they are.\<close>

definition same_lock :: "'d sim_service \<Rightarrow> 'd sim_service \<Rightarrow> bool" where
  "same_lock s s' \<longleftrightarrow> sim_status s' = sim_status s \<and> pin1_status s' = pin1_status s"

lemma same_lock_refl [simp]: "same_lock s s"
  by (simp add: same_lock_def)

lemma same_lock_updates [simp]:
  "same_lock s (SaveFile x s') \<longleftrightarrow> same_lock s s'"
  "same_lock s (s'\<lparr>doc := d\<rparr>) \<longleftrightarrow> same_lock s s'"
  "same_lock s (s'\<lparr>pin2_status := p2\<rparr>) \<longleftrightarrow> same_lock s s'"
  "same_lock s (s'\<lparr>logical_channels := cs\<rparr>) \<longleftrightarrow> same_lock s s'"
  "same_lock s (s'\<lparr>last_file_id := i\<rparr>) \<longleftrightarrow> same_lock s s'"
  "same_lock s (set_lock lock mode s') \<longleftrightarrow> same_lock s s'"
  "same_lock s (open_channel name j s') \<longleftrightarrow> same_lock s s'"
  by (simp_all add: same_lock_def SaveFile_def set_lock_def open_channel_def)

lemma bind_element_Inr:
  "bind_element e def f = Inr r \<longleftrightarrow> (e = None \<and> r = def \<or> (\<exists>c. e = Some c \<and> f c = Inr r))"
  by (auto simp: bind_element_def split: option.splits)

lemma with_root_Inr:
  "with_root x client s f = Inr r \<longleftrightarrow>
     (RootElement x (doc s) = None \<and> r = (s, SendCommandResponse client kCmeErrorOperationNotAllowed) \<or>
      (\<exists>root. RootElement x (doc s) = Some root \<and> f root = Inr r))"
  by (auto simp: with_root_def split: option.splits)

lemmas file_outcome = with_root_Inr bind_element_Inr rbind_eq_Inr text_response_def not_found_def Let_def case_prod_unfold

lemma same_lock_sim_io: "sim_io x client c matches data ef s = Inr (s', evs) \<Longrightarrow> same_lock s s'"
  by (auto simp: sim_io_def rbind_eq_Inr split: if_splits option.splits)

lemma same_lock_SIM_IO: "HandleSIM_IO x client cmd s = Inr (s', evs) \<Longrightarrow> same_lock s s'"
  unfolding HandleSIM_IO_def
  by (auto simp: file_outcome dest: same_lock_sim_io split: if_splits option.splits)

lemma same_lock_files:
  "HandleGetIMSI x client s = Inr (s', evs) \<Longrightarrow> same_lock s s'"
  "HandleGetIccId x client s = Inr (s', evs) \<Longrightarrow> same_lock s s'"
  "HandleGetEid x client s = Inr (s', evs) \<Longrightarrow> same_lock s s'"
  "HandleGetAtr x client s = Inr (s', evs) \<Longrightarrow> same_lock s s'"
  "HandlePhoneNumberUpdate x client cmd s = Inr (s', evs) \<Longrightarrow> same_lock s s'"
  unfolding HandleGetIMSI_def HandleGetIccId_def HandleGetEid_def HandleGetAtr_def
    HandlePhoneNumberUpdate_def SetPhoneNumber_def
  by (auto simp: file_outcome split: if_splits option.splits)

lemma same_lock_channels:
  "HandleCSIM_IO x client cmd s = Inr (s', evs) \<Longrightarrow> same_lock s s'"
  "HandleOpenLogicalChannel x client cmd s = Inr (s', evs) \<Longrightarrow> same_lock s s'"
  "HandleCloseLogicalChannel client cmd s = Inr (s', evs) \<Longrightarrow> same_lock s s'"
  "HandleTransmitLogicalChannel x client cmd s = Inr (s', evs) \<Longrightarrow> same_lock s s'"
  unfolding HandleCSIM_IO_def csim_channel_def HandleOpenLogicalChannel_def HandleCloseLogicalChannel_def
    HandleTransmitLogicalChannel_def transmit_def selected_file_def
  by (auto simp: file_outcome split: if_splits option.splits)

lemma same_lock_others:
  "HandleSIMStatusReq client s = Inr (s', evs) \<Longrightarrow> same_lock s s'"
  "HandleQueryRemainTimes client cmd s = Inr (s', evs) \<Longrightarrow> same_lock s s'"
  "HandleCdmaSubscriptionSource client cmd s = Inr (s', evs) \<Longrightarrow> same_lock s s'"
  "HandleCdmaRoamingPreference client cmd s = Inr (s', evs) \<Longrightarrow> same_lock s s'"
  "HandleSimAuthentication client cmd s = Inr (s', evs) \<Longrightarrow> same_lock s s'"
  unfolding HandleSIMStatusReq_def HandleQueryRemainTimes_def HandleCdmaSubscriptionSource_def
    HandleCdmaRoamingPreference_def HandleSimAuthentication_def
  by (auto simp: rbind_eq_Inr Let_def same_lock_def split: if_splits)

lemmas same_lock_handlers = same_lock_SIM_IO same_lock_files same_lock_channels same_lock_others

lemma sim_locked_same: "same_lock s s' \<Longrightarrow> sim_locked p k n m s \<Longrightarrow> sim_locked p k n m s'"
  by (simp add: same_lock_def sim_locked_def)

lemma not_sublist_neq: "\<not> sublist p cmd \<Longrightarrow> sublist q cmd \<Longrightarrow> q \<noteq> p"
  by auto

text \<open>The three handlers that take a code\<close>

lemma HandleChangeOrEnterPIN_locked:
  assumes "HandleChangeOrEnterPIN client cmd s = Inr (s', evs)" and "sim_locked p k n m s"
    and "\<not> sublist p cmd" and "\<not> sublist k cmd"
  shows "sim_locked p k n m s'"
proof -
  let ?c = "SkipPrefix cmd"
  have whole: "?c \<noteq> p" by (rule not_sublist_neq [OF assms(3)]) (rule sublist_parse)
  have "sublist (fst (GetNextStrFlag (CHR '','') ?c)) cmd"
    using sublist_order.order_trans [OF sublist_GetNextStrFlag(1) sublist_skip(1)] .
  then have first: "fst (GetNextStrFlag (CHR '','') ?c) \<noteq> p" "fst (GetNextStrFlag (CHR '','') ?c) \<noteq> k"
    using not_sublist_neq assms(3,4) by blast+
  from assms(2) have "sim_status s \<noteq> SIM_STATUS_READY" by (simp add: sim_locked_def)
  with assms(1,2) whole first show ?thesis
    unfolding HandleChangeOrEnterPIN_def change_with_comma_def
    by (auto simp: rbind_eq_Inr Let_def case_prod_unfold dest: checkPin1_locked ChangePin1_locked
        split: sim_status.splits if_splits)
qed

lemma HandleChangePassword_locked:
  assumes "HandleChangePassword client cmd s = Inr (s', evs)" and "sim_locked p k n m s"
    and "\<not> sublist p cmd" and "\<not> sublist k cmd"
  shows "sim_locked p k n m s'"
proof -
  define c where "c = snd (GetNextStr (SkipPrefix cmd))"
  have "sublist (fst (GetNextStr c)) cmd" unfolding c_def
    by (meson sublist_GetNextStr sublist_skip(1) sublist_order.order_trans)
  then have "fst (GetNextStr c) \<noteq> p" "fst (GetNextStr c) \<noteq> k" using not_sublist_neq assms(3,4) by blast+
  with assms(1,2) show ?thesis
    unfolding HandleChangePassword_def
    by (auto simp: rbind_eq_Inr Let_def case_prod_unfold sim_locked_def [of p k n m "s\<lparr>pin2_status := y\<rparr>" for y]
        c_def [symmetric] dest: ChangePin1_locked split: if_splits) (auto simp: sim_locked_def)
qed

definition lock_password :: "string \<Rightarrow> string" where
  "lock_password cmd = fst (GetNextStr (snd (GetNextInt (snd (GetNextStr cmd)))))"

lemma change_lock_outcome:
  assumes "change_lock client lock mode password s = Inr (s', evs)"
  shows "same_lock s s' \<or>
    (\<exists>ok s1 e. checkPin1AndAdjustSimStatus password s = Inr (ok, s1, e) \<and> same_lock s1 s')"
proof (cases "lock = ''SC''")
  case True
  with assms obtain ok s1 e where "checkPin1AndAdjustSimStatus password s = Inr (ok, s1, e)"
      "s' = (if ok then set_lock lock mode s1 else s1)"
    by (auto simp: change_lock_def rbind_eq_Inr)
  then show ?thesis by auto
next
  case False
  with assms show ?thesis
    by (cases "lock = ''FD''") (auto simp: change_lock_def rbind_eq_Inr Let_def)
qed

lemma HandleFacilityLock_outcome:
  assumes "HandleFacilityLock client cmd s = Inr (s', evs)"
  shows "same_lock s s' \<or>
    (\<exists>ok s1 e. checkPin1AndAdjustSimStatus (lock_password cmd) s = Inr (ok, s1, e) \<and> same_lock s1 s')"
  using assms change_lock_outcome [of client _ _ "lock_password cmd" s s' evs]
  unfolding HandleFacilityLock_def Let_def case_prod_unfold lock_password_def
  by (auto split: if_splits option.splits)

lemma HandleFacilityLock_locked:
  assumes "HandleFacilityLock client cmd s = Inr (s', evs)" and "sim_locked p k n m s" and "\<not> sublist p cmd"
  shows "sim_locked p k n m s'"
proof -
  have "sublist (lock_password cmd) cmd" unfolding lock_password_def
    by (meson sublist_GetNextStr sublist_GetNextInt sublist_order.order_trans)
  then have "lock_password cmd \<noteq> p" using not_sublist_neq assms(3) by blast
  with HandleFacilityLock_outcome [OF assms(1)] assms(2) show ?thesis
    using checkPin1_locked sim_locked_same by blast
qed

text \<open>A sequence of commands to the service\<close>

fun sim_run :: "('d, 'e) tinyxml2 \<Rightarrow> (client \<times> string) list \<Rightarrow> 'd sim_service \<Rightarrow> 'd sim_service result" where
  "sim_run x [] s = Inr s"
| "sim_run x ((client, cmd) # cmds) s =
     rbind (HandleModemCommand (sim_handlers x) client cmd s) (\<lambda>r.
       sim_run x cmds (case r of None \<Rightarrow> s | Some (s', _) \<Rightarrow> s'))"

lemma sim_run_induct:
  assumes "sim_run x cmds s = Inr s'" and "P s" and "\<forall>(client, cmd) \<in> set cmds. Q cmd"
    and step: "\<And>h client cmd s s' evs. h \<in> set (sim_handlers x) \<Longrightarrow> Q cmd \<Longrightarrow>
      command_handler h client cmd s = Inr (s', evs) \<Longrightarrow> P s \<Longrightarrow> P s'"
  shows "P s'"
  using assms(1-3)
proof (induction cmds arbitrary: s)
  case (Cons c cmds)
  obtain client cmd where c: "c = (client, cmd)" by (cases c)
  from Cons.prems(1) obtain r where r: "HandleModemCommand (sim_handlers x) client cmd s = Inr r"
    and rest: "sim_run x cmds (case r of None \<Rightarrow> s | Some (s', _) \<Rightarrow> s') = Inr s'"
    by (auto simp: c rbind_eq_Inr)
  have "P (case r of None \<Rightarrow> s | Some (s', _) \<Rightarrow> s')"
    using handler_outcome [of "sim_handlers x" client cmd s] r Cons.prems(2,3) step
    by (auto simp: c split: option.splits)
  from Cons.IH [OF rest this] Cons.prems(3) show ?case by auto
qed simp

text \<open>Only three handlers can change the status or the first PIN.\<close>

lemma sim_handler_cases:
  assumes "h \<in> set (sim_handlers x)" and "command_handler h client cmd s = Inr (s', evs)"
  shows "same_lock s s' \<or> HandleChangeOrEnterPIN client cmd s = Inr (s', evs) \<or>
    HandleFacilityLock client cmd s = Inr (s', evs) \<or> HandleChangePassword client cmd s = Inr (s', evs)"
  using assms unfolding sim_handlers_def set_simps insert_iff empty_iff
  by (elim disjE) (simp_all only: handler_sel same_lock_handlers simp_thms)

lemma sim_handler_locked:
  assumes "h \<in> set (sim_handlers x)" and "\<not> sublist p cmd \<and> \<not> sublist k cmd"
    and "command_handler h client cmd s = Inr (s', evs)" and "sim_locked p k n m s"
  shows "sim_locked p k n m s'"
  using sim_handler_cases [OF assms(1,3)] assms(2,4)
  by (elim disjE conjE) (rule sim_locked_same HandleChangeOrEnterPIN_locked HandleFacilityLock_locked
      HandleChangePassword_locked, assumption+)+

lemma sim_locked_start:
  assumes "sim_status s \<noteq> SIM_STATUS_READY" and "pin_remaining_times (pin1_status s) = Some n"
    and "puk_remaining_times (pin1_status s) = Some m"
  shows "sim_locked (pin (pin1_status s)) (puk (pin1_status s)) n m s"
  using assms by (simp add: sim_locked_def)

text \<open>
  C2. A SIM that is not ready stays so, with the same PIN and PUK and with no more retries than before, under every
  sequence of commands of which none contains its PIN or its PUK.
\<close>
theorem sim_stays_locked:
  assumes "sim_run x cmds s = Inr s'" and "sim_status s \<noteq> SIM_STATUS_READY"
    and "pin_remaining_times (pin1_status s) = Some n" and "puk_remaining_times (pin1_status s) = Some m"
    and "\<forall>(client, cmd) \<in> set cmds. \<not> sublist (pin (pin1_status s)) cmd \<and> \<not> sublist (puk (pin1_status s)) cmd"
  shows "sim_status s' \<noteq> SIM_STATUS_READY \<and> pin (pin1_status s') = pin (pin1_status s) \<and>
    puk (pin1_status s') = puk (pin1_status s) \<and>
    (\<forall>i. pin_remaining_times (pin1_status s') = Some i \<longrightarrow> i \<le> n) \<and>
    (\<forall>i. puk_remaining_times (pin1_status s') = Some i \<longrightarrow> i \<le> m)"
proof -
  have "sim_locked (pin (pin1_status s)) (puk (pin1_status s)) n m s'"
    using assms(1) sim_locked_start [OF assms(2-4)] assms(5)
    by (rule sim_run_induct) (rule sim_handler_locked)
  then show ?thesis by (simp add: sim_locked_def)
qed

text \<open>All retries of the PIN and of the PUK are used up.\<close>

definition sim_exhausted :: "pin_status \<Rightarrow> 'd sim_service \<Rightarrow> bool" where
  "sim_exhausted p1 s \<longleftrightarrow>
     sim_status s = SIM_STATUS_PUK \<and> pin1_status s = p1 \<and>
     (\<exists>n \<le> 0. pin_remaining_times p1 = Some n) \<and> (\<exists>m \<le> 0. puk_remaining_times p1 = Some m)"

lemma exhausted_verify:
  "\<exists>n \<le> 0. pin_remaining_times st = Some n \<Longrightarrow> VerifyPIN q st = Inr (False, st)"
  "\<exists>n \<le> 0. puk_remaining_times st = Some n \<Longrightarrow> VerifyPUK q st = Inr (False, st)"
  by (auto simp: VerifyPIN_def VerifyPUK_def initialised_def)

lemma exhausted_change:
  assumes "sim_exhausted p1 s"
  shows "ChangePin1AndAdjustSimStatus mode q new_pin s = Inr (False, s, [])"
proof -
  have "ChangePIN mode q new_pin p1 = Inr (False, p1)"
    using assms exhausted_verify [of p1 q] by (cases mode) (auto simp: ChangePIN_def sim_exhausted_def)
  with assms show ?thesis by (simp add: ChangePin1AndAdjustSimStatus_def sim_exhausted_def)
qed

lemma exhausted_check:
  assumes "sim_exhausted p1 s"
  shows "checkPin1AndAdjustSimStatus q s = Inr (False, s, [SimStatusChanged])"
  using assms exhausted_verify(1) [of p1 q]
  by (auto simp: checkPin1AndAdjustSimStatus_def sim_exhausted_def initialised_def set_sim_status_def)

lemma exhausted_same: "same_lock s s' \<Longrightarrow> sim_exhausted p1 s \<Longrightarrow> sim_exhausted p1 s'"
  by (simp add: same_lock_def sim_exhausted_def)

lemma sim_handler_exhausted:
  assumes "h \<in> set (sim_handlers x)" and "command_handler h client cmd s = Inr (s', evs)" and "sim_exhausted p1 s"
  shows "sim_exhausted p1 s'"
proof -
  from assms(3) have puk: "sim_status s = SIM_STATUS_PUK" by (simp add: sim_exhausted_def)
  have "sim_exhausted p1 s'" if "HandleChangeOrEnterPIN client cmd s = Inr (s', evs)"
    using that assms(3) puk
    by (auto simp: HandleChangeOrEnterPIN_def change_with_comma_def exhausted_change Let_def case_prod_unfold split: if_splits)
  moreover have "sim_exhausted p1 s'" if "HandleFacilityLock client cmd s = Inr (s', evs)"
    using HandleFacilityLock_outcome [OF that] exhausted_check [OF assms(3)] assms(3) exhausted_same by auto
  moreover have "same_lock s s'" if "HandleChangePassword client cmd s = Inr (s', evs)"
    using that
    by (auto simp: HandleChangePassword_def exhausted_change [OF assms(3)] rbind_eq_Inr Let_def case_prod_unfold
        split: if_splits)
  ultimately show ?thesis using sim_handler_cases [OF assms(1,2)] exhausted_same assms(3) by blast
qed

text \<open>
  C20. A SIM that waits for its PUK with no retries left keeps waiting for it: no sequence of commands, whatever codes
  it contains, makes it ready or absent, or changes its codes and retries.
\<close>
theorem sim_blocked_forever:
  assumes "sim_run x cmds s = Inr s'" and "sim_status s = SIM_STATUS_PUK"
    and "pin_remaining_times (pin1_status s) = Some 0" and "puk_remaining_times (pin1_status s) = Some 0"
  shows "sim_status s' = SIM_STATUS_PUK \<and> pin1_status s' = pin1_status s"
proof -
  have "sim_exhausted (pin1_status s) s" using assms(2-4) by (auto simp: sim_exhausted_def)
  with assms(1) have "sim_exhausted (pin1_status s) s'"
    by (rule sim_run_induct [where Q = "\<lambda>_. True"]) (auto intro: sim_handler_exhausted)
  then show ?thesis by (simp add: sim_exhausted_def)
qed

lemma sample_wrong_pin:
  assumes "0 < n"
  shows "\<exists>evs. HandleModemCommand (sim_handlers sample_xml) ril ''AT+CPIN=9999'' (sample_sim SIM_STATUS_PIN n m) =
    Inr (Some (sample_sim (if n = 1 then SIM_STATUS_PUK else SIM_STATUS_PIN) (n - 1) m, evs))"
proof -
  have "VerifyPIN ''9999'' (pin1_status (sample_sim SIM_STATUS_PIN n m)) =
      Inr (False, pin1_status (sample_sim SIM_STATUS_PIN (n - 1) m))"
    using assms by (simp add: VerifyPIN_def pin_size_ok_def CheckPasswordValid_def initialised_def sample_sim_def)
  then have "\<exists>evs. checkPin1AndAdjustSimStatus ''9999'' (sample_sim SIM_STATUS_PIN n m) =
      Inr (False, sample_sim (if n = 1 then SIM_STATUS_PUK else SIM_STATUS_PIN) (n - 1) m, evs)"
    using assms
    by (auto simp: checkPin1AndAdjustSimStatus_def initialised_def set_sim_status_def sample_sim_def)
  moreover have "SkipPrefix ''AT+CPIN=9999'' = ''9999''" by code_simp
  ultimately have "\<exists>evs. HandleChangeOrEnterPIN ril ''AT+CPIN=9999'' (sample_sim SIM_STATUS_PIN n m) =
      Inr (sample_sim (if n = 1 then SIM_STATUS_PUK else SIM_STATUS_PIN) (n - 1) m, evs)"
    by (auto simp: HandleChangeOrEnterPIN_def sample_sim_def)
  then show ?thesis
    unfolding sim_handlers_def HandleModemCommand.simps Compare_partial Compare_full handler_sel
    by (auto simp: starts_with_def)
qed

theorem sim_stays_locked_witness:
  "\<exists>s'. sim_run sample_xml [(ril, ''AT+CPIN=9999''), (ril, ''AT+CPIN=9999'')] (sample_sim SIM_STATUS_PIN 3 10) = Inr s' \<and>
     sim_status s' \<noteq> SIM_STATUS_READY \<and> pin (pin1_status s') = ''4711''"
proof -
  let ?cmds = "[(ril, ''AT+CPIN=9999''), (ril, ''AT+CPIN=9999'')]" and ?s = "sample_sim SIM_STATUS_PIN 3 10"
  obtain s' where run: "sim_run sample_xml ?cmds ?s = Inr s'"
    using sample_wrong_pin [of 3 10] sample_wrong_pin [of 2 10] by auto
  have "\<not> sublist ''4711'' ''AT+CPIN=9999'' \<and> \<not> sublist ''12345678'' ''AT+CPIN=9999''"
    by (simp add: sublist_Cons_right)
  with run sim_stays_locked [OF run, of 3 10] show ?thesis by (auto simp: sample_sim_def)
qed

theorem sim_blocked_forever_witness:
  "\<exists>s'. sim_run sample_xml [(ril, ''AT+CPIN=12345678,4711'')] (sample_sim SIM_STATUS_PUK 0 0) = Inr s' \<and>
     sim_status s' = SIM_STATUS_PUK"
proof -
  let ?s = "sample_sim SIM_STATUS_PUK 0 0"
  have "sim_exhausted (pin1_status ?s) ?s" by (simp add: sim_exhausted_def sample_sim_def)
  from exhausted_change [OF this]
  have "\<exists>r. HandleChangeOrEnterPIN ril ''AT+CPIN=12345678,4711'' ?s = Inr r"
    by (auto simp: HandleChangeOrEnterPIN_def change_with_comma_def Let_def case_prod_unfold split: sim_status.splits)
      (auto simp: sample_sim_def)
  then obtain r where r: "HandleChangeOrEnterPIN ril ''AT+CPIN=12345678,4711'' ?s = Inr r" ..
  have "HandleModemCommand (sim_handlers sample_xml) ril ''AT+CPIN=12345678,4711'' ?s = Inr (Some r)"
    unfolding sim_handlers_def HandleModemCommand.simps Compare_partial Compare_full handler_sel r
    by (simp add: starts_with_def)
  then have run: "sim_run sample_xml [(ril, ''AT+CPIN=12345678,4711'')] ?s = Inr (fst r)"
    by (cases r) simp
  from sim_blocked_forever [OF this] show ?thesis using run by (auto simp: sample_sim_def)
qed

section \<open>What no command changes\<close>

text \<open>The session ids of the logical channels, the names of the locks and the path of the profile are fixed.\<close>

definition same_shape :: "'d sim_service \<Rightarrow> 'd sim_service \<Rightarrow> bool" where
  "same_shape s s' \<longleftrightarrow>
     map session_id (logical_channels s') = map session_id (logical_channels s) \<and>
     map fst (facility_lock s') = map fst (facility_lock s) \<and> file_path s' = file_path s"

lemma same_shape_refl [simp]: "same_shape s s"
  by (simp add: same_shape_def)

lemma same_shape_trans: "same_shape s s' \<Longrightarrow> same_shape s' s'' \<Longrightarrow> same_shape s s''"
  by (simp add: same_shape_def)

lemma map_session_id_update:
  "session_id c = session_id (cs ! n) \<Longrightarrow> map session_id (cs[n := c]) = map session_id cs"
  by (cases "n < length cs") (simp_all add: map_update list_update_same_conv list_update_beyond)

lemma same_shape_updates [simp]:
  "same_shape s (SaveFile x s') \<longleftrightarrow> same_shape s s'"
  "same_shape s (s'\<lparr>doc := d\<rparr>) \<longleftrightarrow> same_shape s s'"
  "same_shape s (s'\<lparr>pin1_status := p1\<rparr>) \<longleftrightarrow> same_shape s s'"
  "same_shape s (s'\<lparr>pin2_status := p2\<rparr>) \<longleftrightarrow> same_shape s s'"
  "same_shape s (s'\<lparr>sim_status := st\<rparr>) \<longleftrightarrow> same_shape s s'"
  "same_shape s (s'\<lparr>last_file_id := i\<rparr>) \<longleftrightarrow> same_shape s s'"
  "same_shape s (s'\<lparr>cdma_subscription_source := j\<rparr>) \<longleftrightarrow> same_shape s s'"
  "same_shape s (s'\<lparr>cdma_roaming_preference := j\<rparr>) \<longleftrightarrow> same_shape s s'"
  "same_shape s (set_lock lock mode s') \<longleftrightarrow> same_shape s s'"
  "same_shape s (open_channel name k s') \<longleftrightarrow> same_shape s s'"
  "same_shape s (s'\<lparr>logical_channels := (logical_channels s')[k := (logical_channels s' ! k)\<lparr>is_open := b, df_name := n\<rparr>]\<rparr>)
     \<longleftrightarrow> same_shape s s'"
  by (simp_all add: same_shape_def SaveFile_def set_lock_def open_channel_def map_session_id_update comp_def case_prod_unfold)

lemma checkPin1_shape: "checkPin1AndAdjustSimStatus q s = Inr (ok, s', evs) \<Longrightarrow> same_shape s s'"
  by (auto simp: checkPin1AndAdjustSimStatus_def rbind_eq_Inr Let_def set_sim_status_def split: if_splits)

lemma ChangePin1_shape: "ChangePin1AndAdjustSimStatus mode q new_pin s = Inr (ok, s', evs) \<Longrightarrow> same_shape s s'"
  by (auto simp: ChangePin1AndAdjustSimStatus_def rbind_eq_Inr Let_def set_sim_status_def split: if_splits)

lemma same_shape_sim_io: "sim_io x client c matches data ef s = Inr (s', evs) \<Longrightarrow> same_shape s s'"
  by (auto simp: sim_io_def rbind_eq_Inr split: if_splits option.splits)

lemma same_shape_SIM_IO: "HandleSIM_IO x client cmd s = Inr (s', evs) \<Longrightarrow> same_shape s s'"
  unfolding HandleSIM_IO_def
  by (auto simp: file_outcome dest: same_shape_sim_io split: if_splits option.splits)

lemma SetPhoneNumber_shape: "SetPhoneNumber x num s = Inr (ok, s') \<Longrightarrow> same_shape s s'"
  unfolding SetPhoneNumber_def by (auto simp: file_outcome split: if_splits option.splits)

lemma same_shape_files:
  "HandleGetIMSI x client s = Inr (s', evs) \<Longrightarrow> same_shape s s'"
  "HandleGetIccId x client s = Inr (s', evs) \<Longrightarrow> same_shape s s'"
  "HandleGetEid x client s = Inr (s', evs) \<Longrightarrow> same_shape s s'"
  "HandleGetAtr x client s = Inr (s', evs) \<Longrightarrow> same_shape s s'"
  "HandlePhoneNumberUpdate x client cmd s = Inr (s', evs) \<Longrightarrow> same_shape s s'"
  unfolding HandleGetIMSI_def HandleGetIccId_def HandleGetEid_def HandleGetAtr_def HandlePhoneNumberUpdate_def
  by (auto simp: file_outcome dest: SetPhoneNumber_shape split: if_splits option.splits)

lemma same_shape_channels:
  "HandleCSIM_IO x client cmd s = Inr (s', evs) \<Longrightarrow> same_shape s s'"
  "HandleOpenLogicalChannel x client cmd s = Inr (s', evs) \<Longrightarrow> same_shape s s'"
  "HandleCloseLogicalChannel client cmd s = Inr (s', evs) \<Longrightarrow> same_shape s s'"
  "HandleTransmitLogicalChannel x client cmd s = Inr (s', evs) \<Longrightarrow> same_shape s s'"
  unfolding HandleCSIM_IO_def csim_channel_def HandleOpenLogicalChannel_def HandleCloseLogicalChannel_def
    HandleTransmitLogicalChannel_def transmit_def selected_file_def
  by (auto simp: file_outcome split: if_splits option.splits)

lemma same_shape_others:
  "HandleSIMStatusReq client s = Inr (s', evs) \<Longrightarrow> same_shape s s'"
  "HandleQueryRemainTimes client cmd s = Inr (s', evs) \<Longrightarrow> same_shape s s'"
  "HandleCdmaSubscriptionSource client cmd s = Inr (s', evs) \<Longrightarrow> same_shape s s'"
  "HandleCdmaRoamingPreference client cmd s = Inr (s', evs) \<Longrightarrow> same_shape s s'"
  "HandleSimAuthentication client cmd s = Inr (s', evs) \<Longrightarrow> same_shape s s'"
  unfolding HandleSIMStatusReq_def HandleQueryRemainTimes_def HandleCdmaSubscriptionSource_def
    HandleCdmaRoamingPreference_def HandleSimAuthentication_def
  by (auto simp: rbind_eq_Inr Let_def split: if_splits)

lemma change_with_comma_shape: "change_with_comma mode client cmd s = Inr (s', evs) \<Longrightarrow> same_shape s s'"
  unfolding change_with_comma_def
  by (auto simp: rbind_eq_Inr Let_def case_prod_unfold dest: ChangePin1_shape split: if_splits)

lemma same_shape_HandleChangeOrEnterPIN: "HandleChangeOrEnterPIN client cmd s = Inr (s', evs) \<Longrightarrow> same_shape s s'"
  unfolding HandleChangeOrEnterPIN_def
  by (auto simp: rbind_eq_Inr Let_def case_prod_unfold dest: checkPin1_shape change_with_comma_shape
      split: sim_status.splits if_splits)

lemma same_shape_HandleChangePassword: "HandleChangePassword client cmd s = Inr (s', evs) \<Longrightarrow> same_shape s s'"
  unfolding HandleChangePassword_def
  by (auto simp: rbind_eq_Inr Let_def case_prod_unfold dest: ChangePin1_shape split: if_splits)

lemma change_lock_shape: "change_lock client lock mode password s = Inr (s', evs) \<Longrightarrow> same_shape s s'"
proof (cases "lock = ''SC''")
  case True
  assume "change_lock client lock mode password s = Inr (s', evs)"
  with True obtain ok s1 e where "checkPin1AndAdjustSimStatus password s = Inr (ok, s1, e)"
    and "s' = (if ok then set_lock lock mode s1 else s1)" by (auto simp: change_lock_def rbind_eq_Inr)
  then show ?thesis using checkPin1_shape [of password s ok s1 e] by simp
next
  case False
  assume "change_lock client lock mode password s = Inr (s', evs)"
  with False have "s' = set_lock lock mode s \<or>
      (\<exists>ok p2. s' = (if ok then set_lock lock mode (s\<lparr>pin2_status := p2\<rparr>) else s\<lparr>pin2_status := p2\<rparr>))"
    by (cases "lock = ''FD''") (auto simp only: change_lock_def rbind_eq_Inr Let_def case_prod_unfold if_True if_False
        sum.inject prod.inject simp_thms)
  then show ?thesis by (elim disjE exE) simp_all
qed

lemma same_shape_HandleFacilityLock: "HandleFacilityLock client cmd s = Inr (s', evs) \<Longrightarrow> same_shape s s'"
  unfolding HandleFacilityLock_def
  by (auto simp: Let_def case_prod_unfold dest: change_lock_shape split: if_splits option.splits)

lemmas same_shape_codes =
  same_shape_HandleChangeOrEnterPIN same_shape_HandleChangePassword same_shape_HandleFacilityLock

lemmas same_shape_handlers =
  same_shape_SIM_IO same_shape_files same_shape_channels same_shape_others same_shape_codes

lemma sim_handlers_shape: "preserves (same_shape s0) (sim_handlers x)"
  unfolding sim_handlers_def preserves_simps
  by (intro conjI allI impI preserves_simps(1))
    (erule same_shape_trans, erule same_shape_handlers)+

end
