(* ===== verification/Modem_Simulator.thy ===== *)
theory Modem_Simulator
  imports Modem_Channel Modem_Call Modem_Sms Modem_Sup Modem_Misc Modem_Stk Modem_Sim_Lock
begin

text \<open>
  The modem (\<open>host/commands/modem_simulator/modem_simulator.{h,cpp}\<close>): the eight services with the looper they share,
  the order in which they are offered a command, and the calls from one service to another.  A service tells in its
  list of events what it asks of the others (see the theory of the services); here each such event is carried out, in
  its place in the list.

  What changes from one command to the next outside the modem is a record \<open>modem_env\<close>: clocks, what is open on the
  network.  \<open>NvramConfig\<close> is a member of the modem, with the values of its instance.
\<close>

section \<open>State\<close>

record 'd modem =
  m_sim :: "'d sim_service"
  m_network :: network_service
  m_data :: data_service
  m_call :: call_service
  m_sms :: sms_service
  m_sup :: sup_service
  m_stk :: stk_service
  m_misc :: misc_service
  m_looper :: "modem_callback looper"
  m_nvram :: nvram

record ('d, 'e) modem_env =
  xml :: "('d, 'e) tinyxml2"
  modem_host_id :: int  \<comment> \<open>\<open>DeviceConfig::host_id()\<close>\<close>
  cvd_open :: "string \<Rightarrow> bool"  \<comment> \<open>whether \<open>ConnectToRemoteCvd\<close> to a port is open\<close>
  modem_ConsumePrefix :: "string \<Rightarrow> string \<Rightarrow> string"  \<comment> \<open>\<open>absl::ConsumePrefix\<close>\<close>
  modem_config :: ril_config
  seconds_now :: int  \<comment> \<open>\<open>time(NULL)\<close>\<close>
  pdu_clock :: clock_time
  report_clock :: clock_time  \<comment> \<open>the second reading of the clock in a status report\<close>
  misc_now :: misc_clock
  steady_now :: int  \<comment> \<open>\<open>std::chrono::steady_clock::now()\<close>, in nanoseconds\<close>

section \<open>Calls between the services\<close>

fun set_nvram :: "nvram_value \<Rightarrow> nvram \<Rightarrow> nvram" where
  "set_nvram (NvNetworkSelectionMode n) nv = nv\<lparr>nv_network_selection_mode := n\<rparr>"
| "set_nvram (NvOperatorNumeric s) nv = nv\<lparr>nv_operator_numeric := s\<rparr>"
| "set_nvram (NvModemTechnology n) nv = nv\<lparr>nv_modem_technoloy := n\<rparr>"
| "set_nvram (NvPreferredNetworkMode n) nv = nv\<lparr>nv_preferred_network_mode := n\<rparr>"
| "set_nvram (NvEmergencyMode b) nv = nv\<lparr>nv_emergency_mode := b\<rparr>"

text \<open>An event that is no call of another service: for the looper, for the NVRAM values, or for the channels\<close>

fun base_event :: "('d, 'e) modem_env \<Rightarrow> event \<Rightarrow> 'd modem \<Rightarrow> 'd modem \<times> event list" where
  "base_event env (PostCallback cb delay) m =
     (m\<lparr>m_looper := snd (PostDelayed (steady_now env) (delay * 1000000) cb (m_looper m))\<rparr>, [])"
| "base_event env (CancelCallback n) m = (m\<lparr>m_looper := snd (CancelSerial n (m_looper m))\<rparr>, [])"
| "base_event env (SetNvram v) m = (m\<lparr>m_nvram := set_nvram v (m_nvram m)\<rparr>, [])"
| "base_event env ev m = (m, [ev])"

fun base_events :: "('d, 'e) modem_env \<Rightarrow> event list \<Rightarrow> 'd modem \<Rightarrow> 'd modem \<times> event list" where
  "base_events env [] m = (m, [])"
| "base_events env (ev # evs) m =
     (let (m, out) = base_event env ev m; (m, out') = base_events env evs m in (m, out @ out'))"

text \<open>
  The calls between services: \<open>SimService::OnSimStatusChanged\<close> calls the network service, and that service the
  miscellaneous and the data service; what these do is for the looper and the channels.
\<close>

fun modem_event :: "('d, 'e) modem_env \<Rightarrow> event \<Rightarrow> 'd modem \<Rightarrow> 'd modem \<times> event list" where
  "modem_event env SimStatusChanged m =
     (let (network, evs) = OnSimStatusChanged (sim_status (m_sim m)) (m_network m)
      in base_events env evs (m\<lparr>m_network := network\<rparr>))"
| "modem_event env TimeUpdateEvent m = base_events env (TimeUpdate (misc_now env) (m_misc m)) m"
| "modem_event env (PhysicalChannelConfigs tech freq bandwidth) m =
     base_events env (onUpdatePhysicalChannelconfigs tech freq bandwidth (m_data m)) m"
| "modem_event env ev m = base_event env ev m"

fun modem_events :: "('d, 'e) modem_env \<Rightarrow> event list \<Rightarrow> 'd modem \<Rightarrow> 'd modem \<times> event list" where
  "modem_events env [] m = (m, [])"
| "modem_events env (ev # evs) m =
     (let (m, out) = modem_event env ev m; (m, out') = modem_events env evs m in (m, out @ out'))"

section \<open>Commands\<close>

text \<open>What the services ask of one another when they handle a command\<close>

definition call_env_of :: "('d, 'e) modem_env \<Rightarrow> nat \<Rightarrow> 'd modem \<Rightarrow> call_env" where
  "call_env_of env next_id m =
     \<lparr>registration_state = reg_state (voice_registration_status (m_network m)),
      radio_off = (radio_state (m_network m) = RADIO_STATE_OFF),
      fdn_enabled = IsFDNEnabled (m_sim m), fixed_dial_number = IsFixedDialNumber (xml env) (m_sim m),
      remote_open = cvd_open env, host_id = modem_host_id env, remote_id = next_id,
      post_serial = next_serial (m_looper m), ConsumePrefix = modem_ConsumePrefix env\<rparr>"

definition sms_env_of :: "('d, 'e) modem_env \<Rightarrow> 'd modem \<Rightarrow> sms_env" where
  "sms_env_of env m =
     \<lparr>sms_host_id = modem_host_id env, sim_phone_number = GetPhoneNumber (xml env) (m_sim m),
      sms_remote_open = cvd_open env\<rparr>"

text \<open>A service is offered a command: its handlers, its place in the modem.\<close>

definition offer ::
    "'s command_handler list \<Rightarrow> ('d modem \<Rightarrow> 's) \<Rightarrow> ('s \<Rightarrow> 'd modem \<Rightarrow> 'd modem) \<Rightarrow> client \<Rightarrow> string \<Rightarrow> 'd modem \<Rightarrow>
     ('d modem \<times> event list) option result" where
  "offer handlers get put client command m =
     rbind (HandleModemCommand handlers client command (get m)) (\<lambda>r. Inr (map_option (\<lambda>(s, evs). (put s m, evs)) r))"

text \<open>The services in the order of \<open>ModemServiceType\<close>, the keys of the map \<open>modem_services_\<close>\<close>

definition modem_services ::
    "('d, 'e) modem_env \<Rightarrow> nat \<Rightarrow> 'd modem \<Rightarrow> (client \<Rightarrow> string \<Rightarrow> 'd modem \<Rightarrow> ('d modem \<times> event list) option result) list" where
  "modem_services env next_id m =
     [offer (sim_handlers (xml env)) m_sim (\<lambda>s m. m\<lparr>m_sim := s\<rparr>),
      offer (network_handlers (seconds_now env) (sim_status (m_sim m))) m_network (\<lambda>s m. m\<lparr>m_network := s\<rparr>),
      offer (data_handlers (modem_config env)) m_data (\<lambda>s m. m\<lparr>m_data := s\<rparr>),
      offer (call_handlers (call_env_of env next_id m)) m_call (\<lambda>s m. m\<lparr>m_call := s\<rparr>),
      offer (sms_handlers (pdu_clock env)) m_sms (\<lambda>s m. m\<lparr>m_sms := s\<rparr>),
      offer sup_handlers m_sup (\<lambda>s m. m\<lparr>m_sup := s\<rparr>),
      offer (stk_handlers (xml env) (doc (m_sim m))) m_stk (\<lambda>s m. m\<lparr>m_stk := s\<rparr>),
      offer (misc_handlers (misc_now env)) m_misc (\<lambda>s m. m\<lparr>m_misc := s\<rparr>)]"

fun first_service ::
    "(client \<Rightarrow> string \<Rightarrow> 'd modem \<Rightarrow> ('d modem \<times> event list) option result) list \<Rightarrow> client \<Rightarrow> string \<Rightarrow> 'd modem \<Rightarrow>
     ('d modem \<times> event list) option result" where
  "first_service [] client command m = Inr None"
| "first_service (f # fs) client command m =
     rbind (f client command m) (\<lambda>r. case r of None \<Rightarrow> first_service fs client command m | Some r \<Rightarrow> Inr (Some r))"

definition modem_waiting :: "'d modem \<Rightarrow> bool" where
  \<comment> \<open>\<open>ModemSimulator::IsWaitingSmsPdu\<close>\<close>
  "modem_waiting m \<longleftrightarrow> is_waiting_sms_pdu (m_sms m) \<or> is_waiting_sms_to_sim (m_sms m)"

text \<open>The command, before the calls of other services\<close>

definition handle_command :: "('d, 'e) modem_env \<Rightarrow> nat \<Rightarrow> client \<Rightarrow> string \<Rightarrow> 'd modem \<Rightarrow> 'd modem outcome" where
  "handle_command env next_id client command m =
     (if is_waiting_sms_pdu (m_sms m) then
        rbind (HandleSendSMSPDU (sms_env_of env m) client command (m_sms m)) (\<lambda>(s, evs). Inr (m\<lparr>m_sms := s\<rparr>, evs))
      else if is_waiting_sms_to_sim (m_sms m) then
        rbind (HandleWriteSMSPduToSim client command (m_sms m)) (\<lambda>(s, evs). Inr (m\<lparr>m_sms := s\<rparr>, evs))
      else rbind (first_service (modem_services env next_id m) client command m) (\<lambda>r.
             case r of
               Some r \<Rightarrow> Inr r
             | None \<Rightarrow>
                 Inr (m, if client_type client = REMOTE then []
                         else SendCommandResponse client kCmeErrorOperationNotSupported)))"

definition modem_DispatchCommand :: "('d, 'e) modem_env \<Rightarrow> nat \<Rightarrow> client \<Rightarrow> string \<Rightarrow> 'd modem \<Rightarrow> 'd modem outcome" where
  "modem_DispatchCommand env next_id client command m =
     rbind (handle_command env next_id client command m) (\<lambda>(m, evs). Inr (modem_events env evs m))"

definition modem_OnFirstClientConnected :: "'d modem \<Rightarrow> 'd modem outcome" where
  "modem_OnFirstClientConnected m =
     Inr (m, OnVoiceRegisterStateChanged (m_network m) @ OnDataRegisterStateChanged (m_network m))"

section \<open>Callbacks, and what the main program asks\<close>

fun run_callback :: "('d, 'e) modem_env \<Rightarrow> modem_callback \<Rightarrow> 'd modem \<Rightarrow> 'd modem \<times> event list" where
  "run_callback env CbSimulatePendingCallsAnswered m = (m\<lparr>m_call := SimulatePendingCallsAnswered (m_call m)\<rparr>, [])"
| "run_callback env (CbTimerWaitingRemoteCallResponse index num) m =
     (let (s, evs) = TimerWaitingRemoteCallResponse index num (m_call m) in modem_events env evs (m\<lparr>m_call := s\<rparr>))"
| "run_callback env CbCallStateUpdate m = modem_events env CallStateUpdate m"
| "run_callback env (CbHandleReceiveSMS pdu) m = modem_events env (HandleReceiveSMS (pdu_clock env) pdu) m"
| "run_callback env (CbHandleSMSStatuReport pdu ref) m =
     modem_events env (HandleSMSStatuReport (pdu_clock env) (report_clock env) pdu ref) m"
| "run_callback env (CbUpdatePhysicalChannelconfigs tech freq bandwidth count) m =
     modem_events env (updatePhysicalChannelconfigs tech freq bandwidth count (m_data m)) m"
| "run_callback env (CbUpdateRegisterState st) m =
     (let (s, evs) = UpdateRegisterState st (m_network m) in modem_events env evs (m\<lparr>m_network := s\<rparr>))"
| "run_callback env CbUpdateSignalStrength m =
     (let (s, evs) = UpdateSignalStrengthCallback (m_network m) in modem_events env evs (m\<lparr>m_network := s\<rparr>))"

text \<open>One round of the looper's thread\<close>

definition modem_round :: "('d, 'e) modem_env \<Rightarrow> 'd modem \<Rightarrow> 'd modem \<times> event list" where
  "modem_round env m =
     (case ThreadLoop_round (steady_now env) (m_looper m) of
        (LoopRuns e, l) \<Rightarrow> run_callback env (callback e) (m\<lparr>m_looper := l\<rparr>)
      | (_, l) \<Rightarrow> (m\<lparr>m_looper := l\<rparr>, []))"

definition modem_SaveModemState :: "('d, 'e) modem_env \<Rightarrow> sim_env \<Rightarrow> 'd modem \<Rightarrow> 'd modem result" where
  "modem_SaveModemState env senv m = rbind (SaveModemState (xml env) senv (m_sim m)) (\<lambda>s. Inr (m\<lparr>m_sim := s\<rparr>))"

definition modem_SetTimeZone :: "string \<Rightarrow> 'd modem \<Rightarrow> 'd modem" where
  "modem_SetTimeZone tz m = m\<lparr>m_misc := SetTimeZone tz (m_misc m)\<rparr>"

definition modem_SetPhoneNumber :: "('d, 'e) modem_env \<Rightarrow> string \<Rightarrow> 'd modem \<Rightarrow> (bool \<times> 'd modem) result" where
  "modem_SetPhoneNumber env num m =
     rbind (SetPhoneNumber (xml env) num (m_sim m)) (\<lambda>(ok, s). Inr (ok, m\<lparr>m_sim := s\<rparr>))"

definition IsRadioOn :: "'d modem \<Rightarrow> bool" where
  "IsRadioOn m \<longleftrightarrow> radio_state (m_network m) \<noteq> RADIO_STATE_OFF"

text \<open>
  \<open>ModemSimulator::Initialize\<close>: the services are made, the network service first, and then it is told of the others,
  when it reads the operator of the SIM.  \<open>items\<close> are the operators of the profile of known networks.
\<close>

definition RegisterModemService ::
    "('d, 'e) modem_env \<Rightarrow> sim_env \<Rightarrow> 'd \<Rightarrow> (string \<Rightarrow> string option) \<Rightarrow> string option \<Rightarrow>
     (string option \<times> string option) list option \<Rightarrow> nvram \<Rightarrow> 'd modem outcome" where
  "RegisterModemService env senv empty_doc fs timezone_line items nv =
     rbind (NetworkService nv) (\<lambda>(network, evs).
     rbind (SimService (xml env) senv empty_doc fs) (\<lambda>sim.
     rbind (GetSimOperator (xml env) sim) (\<lambda>operator.
     rbind (InitializeSimOperator items operator network) (\<lambda>network.
       Inr (modem_events env evs
              \<lparr>m_sim = sim, m_network = network, m_data = DataService, m_call = CallService (nv_emergency_mode nv),
               m_sms = SmsService, m_sup = SupService, m_stk = StkService, m_misc = ParseTimeZone timezone_line,
               m_looper = ThreadLooper, m_nvram = nv\<rparr>)))))"

section \<open>The modem as a transition system\<close>

text \<open>All steps use the same XML library \<open>x\<close>; clocks and the network may differ from step to step.\<close>

inductive modem_step :: "('d, 'e) tinyxml2 \<Rightarrow> 'd modem \<Rightarrow> event list \<Rightarrow> 'd modem \<Rightarrow> bool" for x where
  command: "xml env = x \<Longrightarrow> modem_DispatchCommand env next_id client cmd m = Inr (m', evs) \<Longrightarrow> modem_step x m evs m'"
| round: "xml env = x \<Longrightarrow> modem_round env m = (m', evs) \<Longrightarrow> modem_step x m evs m'"
| connected: "modem_OnFirstClientConnected m = Inr (m', evs) \<Longrightarrow> modem_step x m evs m'"
| timezone: "modem_step x m [] (modem_SetTimeZone tz m)"
| phone_number: "xml env = x \<Longrightarrow> modem_SetPhoneNumber env num m = Inr (ok, m') \<Longrightarrow> modem_step x m [] m'"
| save: "xml env = x \<Longrightarrow> modem_SaveModemState env senv m = Inr m' \<Longrightarrow> modem_step x m [] m'"

inductive modem_reachable :: "('d, 'e) tinyxml2 \<Rightarrow> 'd modem \<Rightarrow> bool" for x where
  start: "xml env = x \<Longrightarrow> RegisterModemService env senv empty_doc fs timezone_line items nv = Inr (m, evs) \<Longrightarrow>
    modem_reachable x m"
| step: "modem_reachable x m \<Longrightarrow> modem_step x m evs m' \<Longrightarrow> modem_reachable x m'"

text \<open>The calls between services change the network service, the looper and the NVRAM values only.\<close>

definition other_services ::
    "'d modem \<Rightarrow> 'd sim_service \<times> data_service \<times> call_service \<times> sms_service \<times> sup_service \<times> stk_service \<times> misc_service" where
  "other_services m = (m_sim m, m_data m, m_call m, m_sms m, m_sup m, m_stk m, m_misc m)"

lemma base_event_services:
  "other_services (fst (base_event env ev m)) = other_services m \<and> m_network (fst (base_event env ev m)) = m_network m"
  by (cases ev) (simp_all add: other_services_def)

lemma base_events_services:
  "other_services (fst (base_events env evs m)) = other_services m \<and> m_network (fst (base_events env evs m)) = m_network m"
  by (induction evs arbitrary: m) (simp_all add: case_prod_unfold Let_def base_event_services)

lemma modem_event_services:
  "other_services (fst (modem_event env ev m)) = other_services m \<and>
   network_inv (m_network (fst (modem_event env ev m))) = network_inv (m_network m)"
proof (cases ev)
  case SimStatusChanged
  obtain n evs where "OnSimStatusChanged (sim_status (m_sim m)) (m_network m) = (n, evs)" by fastforce
  then show ?thesis
    using OnSimStatusChanged_inv [of _ "m_network m" n evs]
    by (simp add: SimStatusChanged base_events_services) (simp add: other_services_def)
qed (simp_all add: base_event_services base_events_services del: base_event.simps)

lemma modem_events_services:
  "other_services (fst (modem_events env evs m)) = other_services m \<and>
   network_inv (m_network (fst (modem_events env evs m))) = network_inv (m_network m)"
  by (induction evs arbitrary: m) (simp_all add: case_prod_unfold Let_def modem_event_services)

section \<open>The invariant\<close>

text \<open>
  The invariants of the services, that the modem never waits for a message to send and for one to store at once, and
  what no command changes in the SIM.
\<close>

definition modem_inv :: "'d modem \<Rightarrow> bool" where
  "modem_inv m \<longleftrightarrow>
     network_inv (m_network m) \<and> data_inv (m_data m) \<and> calls_inv (active_calls (m_call m)) \<and>
     sms_inv (m_sms m) \<and> \<not> (is_waiting_sms_pdu (m_sms m) \<and> is_waiting_sms_to_sim (m_sms m)) \<and> sup_inv (m_sup m) \<and>
     map session_id (logical_channels (m_sim m)) = [1, 2, 3] \<and> map fst (facility_lock (m_sim m)) = map fst default_locks"

lemma modem_inv_events: "modem_inv (fst (modem_events env evs m)) = modem_inv m"
  using modem_events_services [of env evs m] by (simp add: modem_inv_def other_services_def)

lemma offer_Some:
  "offer hs get put client cmd m = Inr (Some (m', evs)) \<longleftrightarrow>
     (\<exists>s. HandleModemCommand hs client cmd (get m) = Inr (Some (s, evs)) \<and> m' = put s m)"
  by (auto simp: offer_def rbind_eq_Inr)

lemma first_service_Some:
  "first_service fs client cmd m = Inr (Some r) \<Longrightarrow> \<exists>f \<in> set fs. f client cmd m = Inr (Some r)"
  by (induction fs) (auto simp: rbind_eq_Inr split: option.splits)

lemma sms_handlers_waiting:
  assumes "h \<in> set (sms_handlers t)" and "command_handler h client cmd s = Inr (s', evs)"
    and "\<not> is_waiting_sms_pdu s" and "\<not> is_waiting_sms_to_sim s"
  shows "\<not> (is_waiting_sms_pdu s' \<and> is_waiting_sms_to_sim s')"
  using assms
  by (auto simp: sms_handlers_def HandleSendSMS_def HandleSMSAcknowledge_def HandleWriteSMSToSim_def HandleBroadcastConfig_def
      HandleGetSmscAddress_def HandleSetSmscAddress_def HandleReceiveRemoteSMS_def HandleDeleteSmsOnSim_def rbind_eq_Inr Let_def
      split: prod.splits option.splits if_splits)

lemma message_handlers_waiting:
  "HandleSendSMSPDU env client text s = Inr (s', evs) \<Longrightarrow>
     \<not> is_waiting_sms_pdu s' \<and> is_waiting_sms_to_sim s' = is_waiting_sms_to_sim s"
  "HandleWriteSMSPduToSim client text s = Inr (s', evs) \<Longrightarrow>
     is_waiting_sms_pdu s' = is_waiting_sms_pdu s \<and> \<not> is_waiting_sms_to_sim s'"
  by (auto simp: HandleSendSMSPDU_def HandleWriteSMSPduToSim_def rbind_eq_Inr Let_def split: if_splits option.splits)

lemma first_service_inv:
  assumes "first_service (modem_services env next_id m) client cmd m = Inr (Some (m', evs))" and inv: "modem_inv m"
    and "\<not> modem_waiting m"
  shows "modem_inv m'"
proof -
  have sim: "same_shape (m_sim m) s"
    if "HandleModemCommand (sim_handlers (xml env)) client cmd (m_sim m) = Inr (Some (s, evs))" for s
    using preserves_command [OF sim_handlers_shape that] by simp
  have net: "network_inv s" if "HandleModemCommand (network_handlers t st) client cmd (m_network m) = Inr (Some (s, evs))" for s t st
    using preserves_command [OF network_handlers_inv that] inv by (simp add: modem_inv_def)
  have call: "calls_inv (active_calls s)" if "HandleModemCommand (call_handlers e) client cmd (m_call m) = Inr (Some (s, evs))" for s e
    using call_step_inv [OF call_step.command [OF that]] inv by (simp add: modem_inv_def)
  have sms: "sms_inv s \<and> \<not> (is_waiting_sms_pdu s \<and> is_waiting_sms_to_sim s)"
    if "HandleModemCommand (sms_handlers t) client cmd (m_sms m) = Inr (Some (s, evs))" for s t
    using handler_outcome [OF that] sms_handlers_inv sms_handlers_waiting assms(2,3)
    by (fastforce simp: modem_inv_def modem_waiting_def)
  from first_service_Some [OF assms(1)] show ?thesis
    unfolding modem_services_def set_simps
    using inv
    by (elim bexE insertE emptyE) (auto simp only: offer_Some modem_inv_def modem.simps simp_thms
        dest!: sim net call sms data_handlers_inv sup_handlers_inv, auto simp: same_shape_def)
qed

lemma handle_command_inv:
  assumes "handle_command env next_id client cmd m = Inr (m', evs)" and "modem_inv m"
  shows "modem_inv m' \<and> (modem_waiting m \<longrightarrow> \<not> modem_waiting m')"
proof (cases "modem_waiting m")
  case False
  then have "\<not> is_waiting_sms_pdu (m_sms m)" "\<not> is_waiting_sms_to_sim (m_sms m)" by (auto simp: modem_waiting_def)
  with assms(1) have "first_service (modem_services env next_id m) client cmd m = Inr (Some (m', evs)) \<or> m' = m"
    by (auto simp: handle_command_def rbind_eq_Inr split: option.splits)
  with first_service_inv [OF _ assms(2) False] assms(2) False show ?thesis by auto
next
  case True
  show ?thesis
  proof (cases "is_waiting_sms_pdu (m_sms m)")
    case pdu: True
    with assms(1) obtain s e where "HandleSendSMSPDU e client cmd (m_sms m) = Inr (s, evs)" and m': "m' = m\<lparr>m_sms := s\<rparr>"
      by (auto simp: handle_command_def rbind_eq_Inr)
    with message_handlers_waiting(1) [OF this(1)] HandleSendSMSPDU_keep [OF this(1)] assms(2) pdu show ?thesis
      by (auto simp: modem_inv_def modem_waiting_def intro: keeps_messages_inv)
  next
    case pdu: False
    with True assms(1) obtain s where "HandleWriteSMSPduToSim client cmd (m_sms m) = Inr (s, evs)" and m': "m' = m\<lparr>m_sms := s\<rparr>"
      by (auto simp: handle_command_def modem_waiting_def rbind_eq_Inr)
    with message_handlers_waiting(2) [OF this(1)] HandleWriteSMSPduToSim_inv [OF this(1)] assms(2) pdu show ?thesis
      by (auto simp: modem_inv_def modem_waiting_def)
  qed
qed

lemma modem_DispatchCommand_inv:
  assumes "modem_DispatchCommand env next_id client cmd m = Inr (m', evs)" and "modem_inv m"
  shows "modem_inv m' \<and> (modem_waiting m \<longrightarrow> \<not> modem_waiting m')"
proof -
  from assms(1) obtain m1 evs1 where cmd: "handle_command env next_id client cmd m = Inr (m1, evs1)"
    and m': "m' = fst (modem_events env evs1 m1)"
    by (auto simp: modem_DispatchCommand_def rbind_eq_Inr)
  have "modem_waiting m' = modem_waiting m1"
    using modem_events_services [of env evs1 m1] by (simp add: m' modem_waiting_def other_services_def)
  with handle_command_inv [OF cmd assms(2)] show ?thesis by (simp add: m' modem_inv_events)
qed

lemma modem_inv_looper: "modem_inv (m\<lparr>m_looper := l\<rparr>) = modem_inv m"
  by (simp add: modem_inv_def)

lemma run_callback_inv:
  assumes "modem_inv m"
  shows "modem_inv (fst (run_callback env cb m))"
proof (cases cb)
  case CbSimulatePendingCallsAnswered
  then show ?thesis
    using assms call_step_inv [OF call_step.answered, of "m_call m"] by (simp add: modem_inv_def)
next
  case (CbTimerWaitingRemoteCallResponse i num)
  obtain s evs where t: "TimerWaitingRemoteCallResponse i num (m_call m) = (s, evs)" by fastforce
  from call_step_inv [OF call_step.timeout [OF t]] assms
  show ?thesis by (simp add: CbTimerWaitingRemoteCallResponse t modem_inv_events) (simp add: modem_inv_def)
next
  case (CbUpdateRegisterState st)
  obtain s evs where t: "UpdateRegisterState st (m_network m) = (s, evs)" by fastforce
  from UpdateRegisterState_inv [OF t] assms
  show ?thesis by (simp add: CbUpdateRegisterState t modem_inv_events) (simp add: modem_inv_def)
next
  case CbUpdateSignalStrength
  obtain s evs where t: "UpdateSignalStrengthCallback (m_network m) = (s, evs)" by fastforce
  from UpdateSignalStrengthCallback_inv [OF t] assms
  show ?thesis by (simp add: CbUpdateSignalStrength t modem_inv_events) (simp add: modem_inv_def)
qed (simp_all add: modem_inv_events assms)

lemma modem_round_inv:
  assumes "modem_round env m = (m', evs)" and "modem_inv m"
  shows "modem_inv m'"
proof -
  obtain act l where l: "ThreadLoop_round (steady_now env) (m_looper m) = (act, l)" by fastforce
  show ?thesis
  proof (cases act)
    case (LoopRuns e)
    then show ?thesis
      using assms run_callback_inv [of "m\<lparr>m_looper := l\<rparr>" env "callback e"] by (simp add: modem_round_def l modem_inv_looper)
  qed (use assms in \<open>auto simp: modem_round_def l modem_inv_looper\<close>)
qed

section \<open>Saving and starting\<close>

lemma read_locks_keys: "read_locks x d e locks = Inr locks' \<Longrightarrow> map fst locks' = map fst locks"
  by (induction x d e locks arbitrary: locks' rule: read_locks.induct) (auto simp: rbind_eq_Inr)

lemma InitializeFacilityLock_shape:
  assumes "InitializeFacilityLock x s = Inr s'"
  shows "map fst (facility_lock s') = map fst default_locks \<and> logical_channels s' = logical_channels s"
  using assms by (auto simp: InitializeFacilityLock_def Let_def rbind_eq_Inr split: option.splits dest: read_locks_keys)

lemma InitializeSim_channels:
  "InitializeSimFileSystemAndSimState x env s = Inr s' \<Longrightarrow> logical_channels s' = logical_channels s"
  by (auto simp: InitializeSimFileSystemAndSimState_def load_profile_def read_pin_profile_def Let_def rbind_eq_Inr
      split: if_splits option.splits prod.splits)

lemma SaveModemState_shape:
  assumes "SaveModemState x env s = Inr s'"
  shows "logical_channels s' = logical_channels s \<and>
    (map fst (facility_lock s) = map fst default_locks \<longrightarrow> map fst (facility_lock s') = map fst default_locks)"
proof -
  from assms obtain s1 where s1: "SavePinStateToIccProfile x s = Inr s1" and s': "SaveFacilityLockToIccProfile x env s1 = Inr s'"
    by (auto simp: SaveModemState_def rbind_eq_Inr)
  have "logical_channels s1 = logical_channels s" "facility_lock s1 = facility_lock s"
    using s1 by (auto simp: SavePinStateToIccProfile_def rbind_eq_Inr Let_def SaveFile_def case_prod_unfold split: option.splits)
  with s' show ?thesis
    by (auto simp: SaveFacilityLockToIccProfile_def rbind_eq_Inr Let_def SaveFile_def case_prod_unfold split: option.splits
        dest!: InitializeSim_channels InitializeFacilityLock_shape)
qed

lemma SimService_shape:
  assumes "SimService x env d fs = Inr s"
  shows "map session_id (logical_channels s) = [1, 2, 3] \<and> map fst (facility_lock s) = map fst default_locks"
  using assms by (auto simp: SimService_def Let_def rbind_eq_Inr LogicalChannel_def dest!: InitializeFacilityLock_shape)

lemma RegisterModemService_inv:
  assumes "RegisterModemService env senv d fs tz items nv = Inr (m, evs)"
  shows "modem_inv m"
proof -
  from assms obtain n0 e sim operator n where net: "NetworkService nv = Inr (n0, e)"
    and sim: "SimService (xml env) senv d fs = Inr sim" and n: "InitializeSimOperator items operator n0 = Inr n"
    and m: "m = fst (modem_events env e
              \<lparr>m_sim = sim, m_network = n, m_data = DataService, m_call = CallService (nv_emergency_mode nv),
               m_sms = SmsService, m_sup = SupService, m_stk = StkService, m_misc = ParseTimeZone tz,
               m_looper = ThreadLooper, m_nvram = nv\<rparr>)"
    by (auto simp: RegisterModemService_def rbind_eq_Inr)
  have "network_inv n" using network_reachable_inv [OF network_reachable.step [OF network_reachable.start [OF net] sim_operator [OF n]]] .
  moreover have "sms_inv SmsService" using sms_reachable_inv [OF sms_reachable.start] .
  ultimately show ?thesis
    using SimService_shape [OF sim] unfolding m modem_inv_events
    by (simp add: modem_inv_def sup_inv_start data_inv_def DataService_def CallService_def SmsService_def)
qed

lemma modem_step_inv: "modem_step x m evs m' \<Longrightarrow> modem_inv m \<Longrightarrow> modem_inv m'"
proof (induction rule: modem_step.induct)
  case (command env next_id client cmd m m' evs)
  then show ?case using modem_DispatchCommand_inv by blast
next
  case (round env m m' evs)
  then show ?case using modem_round_inv by blast
next
  case (connected m m' evs)
  then show ?case by (simp add: modem_OnFirstClientConnected_def)
next
  case (timezone m tz)
  then show ?case by (simp add: modem_SetTimeZone_def modem_inv_def)
next
  case (phone_number env num m ok m')
  then obtain s where "SetPhoneNumber (xml env) num (m_sim m) = Inr (ok, s)" and "m' = m\<lparr>m_sim := s\<rparr>"
    by (auto simp: modem_SetPhoneNumber_def rbind_eq_Inr)
  with SetPhoneNumber_shape [OF this(1)] phone_number.prems show ?case by (simp add: modem_inv_def same_shape_def)
next
  case (save env senv m m')
  then obtain s where "SaveModemState (xml env) senv (m_sim m) = Inr s" and "m' = m\<lparr>m_sim := s\<rparr>"
    by (auto simp: modem_SaveModemState_def rbind_eq_Inr)
  with SaveModemState_shape [OF this(1)] save.prems show ?case by (simp add: modem_inv_def)
qed

lemma modem_reachable_inv: "modem_reachable x m \<Longrightarrow> modem_inv m"
  by (induction rule: modem_reachable.induct) (auto intro: RegisterModemService_inv modem_step_inv)

section \<open>The modem behind the channels\<close>

text \<open>The state that the channels see is the modem and the number of commands it has had; command \<open>k\<close> runs in \<open>envs k\<close>.\<close>

definition ModemSimulator :: "(nat \<Rightarrow> ('d, 'e) modem_env) \<Rightarrow> ('d modem \<times> nat) virtual_modem" where
  "ModemSimulator envs =
     \<lparr>DispatchCommand = (\<lambda>next_id client cmd (m, k).
        rbind (modem_DispatchCommand (envs k) next_id client cmd m) (\<lambda>(m, evs). Inr ((m, Suc k), evs))),
      OnFirstClientConnected = (\<lambda>(m, k). rbind (modem_OnFirstClientConnected m) (\<lambda>(m, evs). Inr ((m, k), evs))),
      IsWaitingSmsPdu = (\<lambda>(m, k). modem_waiting m)\<rparr>"

interpretation ms: modem_contract "ModemSimulator envs" "\<lambda>(m, k). modem_inv m" for envs :: "nat \<Rightarrow> ('d, 'e) modem_env"
proof
  fix m m' :: "'d modem \<times> nat" and n c cmd evs
  assume inv: "case m of (m, k) \<Rightarrow> modem_inv m"
  obtain a k a' k' where m: "m = (a, k)" "m' = (a', k')" by (cases m; cases m')
  show "DispatchCommand (ModemSimulator envs) n c cmd m = Inr (m', evs) \<Longrightarrow> case m' of (m, k) \<Rightarrow> modem_inv m"
    using inv by (auto simp: ModemSimulator_def m rbind_eq_Inr dest: modem_DispatchCommand_inv)
  show "OnFirstClientConnected (ModemSimulator envs) m = Inr (m', evs) \<Longrightarrow> case m' of (m, k) \<Rightarrow> modem_inv m"
    using inv by (auto simp: ModemSimulator_def m rbind_eq_Inr modem_OnFirstClientConnected_def)
  show "IsWaitingSmsPdu (ModemSimulator envs) m \<Longrightarrow> DispatchCommand (ModemSimulator envs) n c cmd m = Inr (m', evs) \<Longrightarrow>
      \<not> IsWaitingSmsPdu (ModemSimulator envs) m'"
    using inv by (auto simp: ModemSimulator_def m rbind_eq_Inr dest: modem_DispatchCommand_inv)
qed

end
