(* ===== verification/Modem_Sim_Profile.thy ===== *)
theory Modem_Sim_Profile
  imports Modem_Sim
begin

text \<open>
  The files of the SIM (\<open>sim_service.cpp\<close>): the phone number that is set is read back, and the profile that is saved when
  the simulator stops gives the same SIM when it starts again, but for one counter.
\<close>

section \<open>The phone number\<close>

lemma StringToBCD_length: "length (StringToBCD s) = (if even (length s) then length s else length s + 1)"
  by (induction s rule: StringToBCD.induct) auto

lemma StringToBCD_set: "set (StringToBCD s) \<subseteq> insert (CHR ''F'') (set s)"
  by (induction s rule: StringToBCD.induct) auto

lemma schar_digit: "n < 16 \<Longrightarrow> schar (char_of (48 + n :: nat)) = 48 + int n"
proof -
  have "\<forall>n \<in> set [0..<16]. schar (char_of (48 + n :: nat)) = 48 + int n" by code_simp
  then show "n < 16 \<Longrightarrow> ?thesis" by simp
qed

text \<open>A record in which a number was put gives that number.\<close>

lemma number_record_read:
  assumes "number_record num rec = Inr r" and "length num \<le> 11"
    and "\<not> (num \<noteq> [] \<and> even (length num) \<and> last num = CHR ''F'')"
  shows "record_number r = Inr (Some num)" and "set r \<subseteq> set rec \<union> insert (CHR ''F'') (set num) \<union> char_of ` {48..<64::nat}"
proof -
  define bcd where "bcd = StringToBCD num"
  define f where "f = length rec - 28"
  define n where "n = (length bcd + 2) div 2"
  have len: "length bcd \<le> 12" "even (length bcd)" using assms(2) by (auto simp: bcd_def StringToBCD_length)
  then have n: "n \<le> 7" "1 \<le> n" "2 * n = length bcd + 2" unfolding n_def by auto
  have not68: "\<not> (length num = 12 \<and> num = ''68'')" by auto
  have long: "28 \<le> length rec"
    using assms(1) by (auto simp: number_record_def Let_def kFooterSizeBytes_def rbind_eq_Inr split: if_splits)
  then have rl: "length rec = f + 28" by (simp add: f_def)
  then have fo: "int (length rec) - kFooterSizeBytes * 2 = int f" by (simp add: kFooterSizeBytes_def)
  have pos: "nat (int f + 4) = f + 4" by simp
  define r0 where "r0 = take (f + 4) rec @ bcd @ drop (f + 4 + length bcd) rec"
  have "replace_at rec (int f + 4) (length bcd) bcd = Inr r0"
    by (simp add: replace_at_def rl pos r0_def)
  then have r: "r = r0[f := char_of (48 :: nat), Suc f := char_of (48 + n)]"
    using assms(1) not68 n(1) unfolding number_record_def Let_def fo bcd_def [symmetric] n_def [symmetric]
    by simp
  have len0: "length r0 = f + 28" using rl len by (auto simp: r0_def)
  have at: "r ! f = char_of (48 :: nat)" "r ! Suc f = char_of (48 + n)" "length r = f + 28"
    using len0 by (auto simp: r)
  have "take (length bcd) (drop (f + 4) r) = take (length bcd) (drop (f + 4) r0)"
    by (simp add: r)
  also have "\<dots> = bcd" using rl by (simp add: r0_def)
  finally have part: "take (length bcd) (drop (f + 4) r) = bcd" .
  have num: "(schar (r ! f) - 48) * 16 + schar (r ! Suc f) - 48 = int n"
    using n(1) schar_digit [of 0] by (simp add: at schar_digit)
  have "BCDToString bcd = num" using assms(3) by (auto simp: bcd_def BCDToString_StringToBCD)
  moreover have "n * 2 - 2 = length bcd" using n(3) by simp
  then have "substr_int r (int f + 4) (int n * 2 - 2) = Inr bcd"
    using n at(3) part by (auto simp: substr_int_def substr_def nat_add_distrib nat_diff_distrib nat_mult_distrib)
  ultimately show "record_number r = Inr (Some num)"
    using n num by (simp add: record_number_def Let_def at(3) kFooterSizeBytes_def kMaxNumberSizeBytes_def nat_add_distrib)
  have "set r \<subseteq> insert (char_of (48 + n)) (insert (char_of (48 :: nat)) (set r0))"
    unfolding r by (meson set_update_subset_insert subset_trans insert_mono)
  moreover have "set r0 \<subseteq> set rec \<union> insert (CHR ''F'') (set num)"
    using StringToBCD_set [of num] by (auto simp: r0_def bcd_def dest: in_set_takeD in_set_dropD)
  moreover have "char_of (48 + n) \<in> char_of ` {48..<64::nat}" "char_of (48 :: nat) \<in> char_of ` {48..<64::nat}"
    using n(1) by (auto intro!: imageI)
  ultimately show "set r \<subseteq> set rec \<union> insert (CHR ''F'') (set num) \<union> char_of ` {48..<64::nat}" by auto
qed

text \<open>
  What the service relies on of \<open>tinyxml2\<close> when it sets the text of an element: the text is then the one that was set, and
  the elements and their attributes stay as they are.  Texts are C strings.
\<close>

definition set_text_laws :: "('d, 'e) tinyxml2 \<Rightarrow> bool" where
  "set_text_laws x \<longleftrightarrow>
     (\<forall>d e t. CHR 0x00 \<notin> set t \<longrightarrow> GetText x (SetText x d e t) e = Some t) \<and>
     (\<forall>d e t. RootElement x (SetText x d e t) = RootElement x d \<and>
              ChildElements x (SetText x d e t) = ChildElements x d \<and>
              Attribute x (SetText x d e t) = Attribute x d) \<and>
     (\<forall>d e t. GetText x d e = Some t \<longrightarrow> CHR 0x00 \<notin> set t)"

lemma follow_path_cong:
  assumes "ChildElements x d' = ChildElements x d" and "Attribute x d' = Attribute x d"
  shows "follow_path x d' c path = follow_path x d c path"
proof (induction path arbitrary: c rule: length_induct)
  case (1 path)
  have "FindAttribute x d' = FindAttribute x d"
    by (simp add: FindAttribute_def fun_eq_iff assms)
  then show ?case
    using 1 by (subst (1 2) follow_path.simps) (auto split: option.splits)
qed

lemma GetPhoneNumberElement_SetText:
  assumes "set_text_laws x"
  shows "GetPhoneNumberElement x (s\<lparr>doc := SetText x (doc s) e t\<rparr>) = GetPhoneNumberElement x s"
proof -
  have same: "RootElement x (SetText x (doc s) e t) = RootElement x (doc s)"
    "ChildElements x (SetText x (doc s) e t) = ChildElements x (doc s)"
    "Attribute x (SetText x (doc s) e t) = Attribute x (doc s)"
    using assms by (simp_all add: set_text_laws_def)
  moreover from same have "FindAttribute x (SetText x (doc s) e t) = FindAttribute x (doc s)"
    by (simp add: FindAttribute_def fun_eq_iff)
  ultimately show ?thesis
    using follow_path_cong [OF same(2,3)] by (simp add: GetPhoneNumberElement_def cong: option.case_cong)
qed

lemma doc_SaveFile [simp]: "doc (SaveFile x s) = doc s"
  by (simp add: SaveFile_def)

lemma GetPhoneNumberElement_SaveFile [simp]: "GetPhoneNumberElement x (SaveFile x s) = GetPhoneNumberElement x s"
  by (simp add: GetPhoneNumberElement_def cong: option.case_cong)

text \<open>
  C37. A phone number that is set is the one that is read afterwards: for a number of at most eleven characters, which is
  what \<open>SetPhoneNumber\<close> accepts, that does not have an even length with an \<open>F\<close> at its end.
\<close>
theorem phone_number_roundtrip:
  assumes "SetPhoneNumber x num s = Inr (True, s')" and "set_text_laws x" and "CHR 0x00 \<notin> set num"
    and "\<not> (num \<noteq> [] \<and> even (length num) \<and> last num = CHR ''F'')"
  shows "GetPhoneNumber x s' = Inr num"
proof -
  from assms(1) obtain e rec r where elem: "GetPhoneNumberElement x s = Some e"
    and rec: "GetText x (doc s) e = Some rec" and r: "number_record num rec = Inr r" and len: "length num \<le> 11"
    and s': "s' = SaveFile x (s\<lparr>doc := SetText x (doc s) e (c_str r)\<rparr>)"
    by (auto simp: SetPhoneNumber_def text_of_def rbind_eq_Inr kMaxNumberSizeBytes_def split: if_splits option.splits)
  note read = number_record_read [OF r len assms(4)]
  have "CHR 0x00 \<notin> set rec" using assms(2) rec by (auto simp: set_text_laws_def)
  moreover have "\<forall>i \<in> set [48..<64]. char_of (i :: nat) \<noteq> CHR 0x00" by code_simp
  then have "CHR 0x00 \<notin> char_of ` {48..<64::nat}" unfolding set_upt by (metis imageE)
  ultimately have no_nul: "CHR 0x00 \<notin> set r" using read(2) assms(3) by auto
  have "GetText x (SetText x (doc s) e r) e = Some r" using assms(2) no_nul by (simp add: set_text_laws_def)
  moreover have "GetPhoneNumberElement x s' = Some e"
    using GetPhoneNumberElement_SetText [OF assms(2), of s e] elem by (simp add: s')
  ultimately show ?thesis
    using read(1) by (simp add: GetPhoneNumber_def text_of_def s' c_str_no_nul [OF no_nul])
qed

lemma sample_xml_laws: "set_text_laws sample_xml"
proof -
  have "CHR 0x00 \<notin> set (c_str t)" for t by (auto simp: c_str_def dest: set_takeWhileD)
  then show ?thesis by (auto simp: set_text_laws_def sample_xml_def c_str_no_nul)
qed

lemma sample_phone_element: "GetPhoneNumberElement sample_xml (sample_sim st n m) = Some 4"
proof -
  have "GetUsimEFPath EF_MSISDN = ''3F007FFF''" by code_simp
  then show ?thesis
    by (simp add: GetPhoneNumberElement_def follow_path.simps FindAttribute_def sample_xml_def sample_sim_def)
qed

theorem phone_number_roundtrip_witness:
  "\<exists>s'. SetPhoneNumber sample_xml ''5551234'' (sample_sim SIM_STATUS_READY 3 10) = Inr (True, s') \<and>
     GetPhoneNumber sample_xml s' = Inr ''5551234''"
proof -
  let ?s = "sample_sim SIM_STATUS_READY 3 10"
  have rec: "text_of sample_xml (doc ?s) 4 = Inr (''144,0,FFFF'' @ replicate 28 CHR ''F'')"
    by (simp add: text_of_def sample_xml_def sample_sim_def) code_simp
  have "\<exists>r. number_record ''5551234'' (''144,0,FFFF'' @ replicate 28 CHR ''F'') = Inr r"
    by (simp add: number_record_def replace_at_def kFooterSizeBytes_def)
  then obtain s' where set: "SetPhoneNumber sample_xml ''5551234'' ?s = Inr (True, s')"
    by (auto simp: SetPhoneNumber_def sample_phone_element rec kMaxNumberSizeBytes_def)
  from phone_number_roundtrip [OF set sample_xml_laws] set show ?thesis by simp
qed

section \<open>The saved profile\<close>

text \<open>
  What the service relies on of \<open>tinyxml2\<close> when it changes a document: the elements of a document form a tree (\<open>valid\<close>
  tells which they are), setting a text and appending an element change that text and add that element and nothing else.
\<close>

definition no_nul :: "string \<Rightarrow> bool" where
  "no_nul t \<longleftrightarrow> CHR 0x00 \<notin> set t"

definition tree_laws :: "('d, 'e) tinyxml2 \<Rightarrow> ('d \<Rightarrow> 'e \<Rightarrow> bool) \<Rightarrow> bool" where
  "tree_laws x valid \<longleftrightarrow>
     (\<forall>d r. RootElement x d = Some r \<longrightarrow>
        valid d r \<and> (\<forall>p n. valid d p \<longrightarrow> r \<notin> set (NamedChildren x d p n))) \<and>
     (\<forall>d p n c. valid d p \<longrightarrow> c \<in> set (NamedChildren x d p n) \<longrightarrow> valid d c) \<and>
     (\<forall>d p n q k c. valid d p \<longrightarrow> valid d q \<longrightarrow> c \<in> set (NamedChildren x d p n) \<longrightarrow>
        c \<in> set (NamedChildren x d q k) \<longrightarrow> p = q \<and> n = k) \<and>
     (\<forall>d e t. valid d e \<longrightarrow> no_nul t \<longrightarrow>
        valid (SetText x d e t) = valid d \<and> RootElement x (SetText x d e t) = RootElement x d \<and>
        NamedChildren x (SetText x d e t) = NamedChildren x d \<and>
        GetText x (SetText x d e t) = (GetText x d)(e := Some t)) \<and>
     (\<forall>d p n t d' c. valid d p \<longrightarrow> pred_option no_nul t \<longrightarrow> NewElement x d p n t = (d', c) \<longrightarrow>
        \<not> valid d c \<and> valid d' = (valid d)(c := True) \<and> RootElement x d' = RootElement x d \<and>
        (\<forall>q k. valid d q \<longrightarrow> NamedChildren x d' q k = NamedChildren x d q k @ (if q = p \<and> k = n then [c] else [])) \<and>
        (\<forall>k. NamedChildren x d' c k = []) \<and>
        (\<forall>b. valid d b \<longrightarrow> GetText x d' b = GetText x d b) \<and> GetText x d' c = t)"

text \<open>The text of the first child with a name, if there is such a child\<close>

definition child_text :: "('d, 'e) tinyxml2 \<Rightarrow> 'd \<Rightarrow> 'e \<Rightarrow> string \<Rightarrow> string option option" where
  "child_text x d p n = map_option (GetText x d) (FirstChildElement x d p n)"

lemma read_text_child:
  "read_text x d e n def =
     (case child_text x d e n of None \<Rightarrow> Inr def | Some None \<Rightarrow> Inl (UndefinedBehaviour ''string from a null pointer'')
      | Some (Some t) \<Rightarrow> Inr t)"
  by (auto simp: read_text_def child_text_def text_of_def split: option.splits)

lemma read_times_child:
  "read_times x d e n def =
     (case child_text x d e n of None \<Rightarrow> Inr def | Some None \<Rightarrow> Inl (UndefinedBehaviour ''string from a null pointer'')
      | Some (Some t) \<Rightarrow> rbind (stoi 10 t) (\<lambda>v. Inr (Some v)))"
  by (auto simp: read_times_def child_text_def text_of_def split: option.splits)

lemma FirstChildElement_valid:
  "tree_laws x valid \<Longrightarrow> valid d p \<Longrightarrow> FirstChildElement x d p n = Some c \<Longrightarrow> valid d c"
proof -
  assume laws: "tree_laws x valid" "valid d p" and "FirstChildElement x d p n = Some c"
  then have "c \<in> set (NamedChildren x d p n)" by (auto simp: FirstChildElement_def split: list.splits)
  with laws show "valid d c" unfolding tree_laws_def by blast
qed

lemma FirstChildElement_unique:
  assumes "tree_laws x valid" and "valid d p" and "valid d q"
    and "FirstChildElement x d p n = Some c" and "FirstChildElement x d q k = Some c"
  shows "p = q \<and> n = k"
proof -
  have "c \<in> set (NamedChildren x d p n)" "c \<in> set (NamedChildren x d q k)"
    using assms(4,5) by (auto simp: FirstChildElement_def split: list.splits)
  with assms(1-3) show ?thesis unfolding tree_laws_def by blast
qed

lemma SetText_tree:
  assumes "tree_laws x valid" and "valid d e" and "no_nul t"
  shows "valid (SetText x d e t) = valid d" "RootElement x (SetText x d e t) = RootElement x d"
    "FirstChildElement x (SetText x d e t) = FirstChildElement x d"
    "GetText x (SetText x d e t) = (GetText x d)(e := Some t)"
proof -
  have "valid (SetText x d e t) = valid d \<and> RootElement x (SetText x d e t) = RootElement x d \<and>
      NamedChildren x (SetText x d e t) = NamedChildren x d \<and> GetText x (SetText x d e t) = (GetText x d)(e := Some t)"
    using assms unfolding tree_laws_def by blast
  then show "valid (SetText x d e t) = valid d" "RootElement x (SetText x d e t) = RootElement x d"
    "FirstChildElement x (SetText x d e t) = FirstChildElement x d"
    "GetText x (SetText x d e t) = (GetText x d)(e := Some t)"
    by (simp_all add: FirstChildElement_def fun_eq_iff)
qed

lemma NewElement_tree:
  assumes "tree_laws x valid" and "valid d p" and "pred_option no_nul t" and "NewElement x d p n t = (d', c)"
  shows "\<not> valid d c" "valid d' = (valid d)(c := True)" "RootElement x d' = RootElement x d" "GetText x d' c = t"
    "FirstChildElement x d' c k = None"
    "valid d q \<Longrightarrow> FirstChildElement x d' q k =
       (if q = p \<and> k = n \<and> FirstChildElement x d p n = None then Some c else FirstChildElement x d q k)"
    "valid d b \<Longrightarrow> GetText x d' b = GetText x d b"
proof -
  have new: "\<not> valid d c \<and> valid d' = (valid d)(c := True) \<and> RootElement x d' = RootElement x d \<and>
      (\<forall>q k. valid d q \<longrightarrow> NamedChildren x d' q k = NamedChildren x d q k @ (if q = p \<and> k = n then [c] else [])) \<and>
      (\<forall>k. NamedChildren x d' c k = []) \<and>
      (\<forall>b. valid d b \<longrightarrow> GetText x d' b = GetText x d b) \<and> GetText x d' c = t"
    using assms unfolding tree_laws_def by blast
  then show "\<not> valid d c" "valid d' = (valid d)(c := True)" "RootElement x d' = RootElement x d" "GetText x d' c = t"
    "FirstChildElement x d' c k = None" "valid d b \<Longrightarrow> GetText x d' b = GetText x d b"
    by (auto simp: FirstChildElement_def)
  show "valid d q \<Longrightarrow> FirstChildElement x d' q k =
      (if q = p \<and> k = n \<and> FirstChildElement x d p n = None then Some c else FirstChildElement x d q k)"
    using new by (auto simp: FirstChildElement_def split: list.splits)
qed

text \<open>What \<open>put_text\<close> does to the texts of the children of any element\<close>

lemma put_text_tree:
  assumes "tree_laws x valid" and "valid d p" and "no_nul t" and "d' = put_text x p looked_up appended t d"
  shows "RootElement x d' = RootElement x d" "valid d q \<Longrightarrow> valid d' q"
    "valid d q \<Longrightarrow> FirstChildElement x d q k = Some c \<Longrightarrow> FirstChildElement x d' q k = Some c"
    "valid d q \<Longrightarrow> child_text x d' q k =
       (if child_text x d p looked_up \<noteq> None then if q = p \<and> k = looked_up then Some (Some t) else child_text x d q k
        else if q = p \<and> k = appended \<and> child_text x d p appended = None then Some (Some t) else child_text x d q k)"
proof -
  have *: "RootElement x d' = RootElement x d \<and> (\<forall>q. valid d q \<longrightarrow> valid d' q) \<and>
      (\<forall>q k c. valid d q \<longrightarrow> FirstChildElement x d q k = Some c \<longrightarrow> FirstChildElement x d' q k = Some c) \<and>
      (\<forall>q k. valid d q \<longrightarrow> child_text x d' q k =
       (if child_text x d p looked_up \<noteq> None then if q = p \<and> k = looked_up then Some (Some t) else child_text x d q k
        else if q = p \<and> k = appended \<and> child_text x d p appended = None then Some (Some t) else child_text x d q k))"
  proof (cases "FirstChildElement x d p looked_up")
    case None
    obtain c where new: "NewElement x d p appended (Some t) = (d', c)"
      using assms(4) None by (auto simp: put_text_def AppendNewElementWithText_def prod_eq_iff)
    have "pred_option no_nul (Some t)" using assms(3) by simp
    note tree = NewElement_tree [OF assms(1,2) this new]
    have "child_text x d' q k =
        (if q = p \<and> k = appended \<and> child_text x d p appended = None then Some (Some t) else child_text x d q k)"
      if "valid d q" for q k
      using that tree FirstChildElement_valid [OF assms(1) that, of k]
      by (cases "FirstChildElement x d q k") (auto simp: child_text_def)
    then show ?thesis using tree None by (auto simp: child_text_def)
  next
    case (Some c)
    then have d': "d' = SetText x d c t" by (simp add: assms(4) put_text_def)
    have "valid d c" using FirstChildElement_valid [OF assms(1,2) Some] .
    note tree = SetText_tree [OF assms(1) this assms(3), folded d']
    have "child_text x d' q k = (if q = p \<and> k = looked_up then Some (Some t) else child_text x d q k)"
      if "valid d q" for q k
      using tree Some FirstChildElement_unique [OF assms(1) that assms(2), of k _ looked_up]
      by (cases "FirstChildElement x d q k") (auto simp: child_text_def)
    then show ?thesis using tree Some by (auto simp: child_text_def)
  qed
  then show "RootElement x d' = RootElement x d" "valid d q \<Longrightarrow> valid d' q"
    "valid d q \<Longrightarrow> FirstChildElement x d q k = Some c \<Longrightarrow> FirstChildElement x d' q k = Some c"
    "valid d q \<Longrightarrow> child_text x d' q k =
       (if child_text x d p looked_up \<noteq> None then if q = p \<and> k = looked_up then Some (Some t) else child_text x d q k
        else if q = p \<and> k = appended \<and> child_text x d p appended = None then Some (Some t) else child_text x d q k)"
    by blast+
qed
text \<open>The texts of the children of one element, and what a change below that element leaves\<close>

definition child_view :: "('d, 'e) tinyxml2 \<Rightarrow> ('d \<Rightarrow> 'e \<Rightarrow> bool) \<Rightarrow> 'e \<Rightarrow> 'd \<Rightarrow> (string \<Rightarrow> string option option) \<Rightarrow> bool" where
  "child_view x valid e d f \<longleftrightarrow> valid d e \<and> (\<forall>k. child_text x d e k = f k)"

definition keeps :: "('d, 'e) tinyxml2 \<Rightarrow> ('d \<Rightarrow> 'e \<Rightarrow> bool) \<Rightarrow> 'e \<Rightarrow> 'd \<Rightarrow> 'd \<Rightarrow> bool" where
  "keeps x valid e d d' \<longleftrightarrow>
     RootElement x d' = RootElement x d \<and> (\<forall>q. valid d q \<longrightarrow> valid d' q) \<and>
     (\<forall>q k c. valid d q \<longrightarrow> FirstChildElement x d q k = Some c \<longrightarrow> FirstChildElement x d' q k = Some c) \<and>
     (\<forall>q k. valid d q \<longrightarrow> q \<noteq> e \<longrightarrow> child_text x d' q k = child_text x d q k)"

lemma keeps_refl: "keeps x valid e d d"
  by (simp add: keeps_def)

lemma keeps_trans: "keeps x valid e d d' \<Longrightarrow> keeps x valid e d' d'' \<Longrightarrow> keeps x valid e d d''"
  by (simp add: keeps_def)

definition view_put :: "string \<times> string \<times> string \<Rightarrow> (string \<Rightarrow> string option option) \<Rightarrow> string \<Rightarrow> string option option" where
  "view_put entry f =
     (case entry of (looked_up, appended, t) \<Rightarrow>
        if f looked_up \<noteq> None then f(looked_up := Some (Some t))
        else if f appended = None then f(appended := Some (Some t)) else f)"

definition put_all :: "('d, 'e) tinyxml2 \<Rightarrow> 'e \<Rightarrow> (string \<times> string \<times> string) list \<Rightarrow> 'd \<Rightarrow> 'd" where
  "put_all x e entries d = fold (\<lambda>(looked_up, appended, t). put_text x e looked_up appended t) entries d"

lemma put_all_view:
  assumes "tree_laws x valid" and "child_view x valid e d f" and "\<forall>(l, a, t) \<in> set entries. no_nul t"
  shows "child_view x valid e (put_all x e entries d) (fold view_put entries f) \<and>
    keeps x valid e d (put_all x e entries d)"
  using assms(2,3)
proof (induction entries arbitrary: d f)
  case Nil
  then show ?case by (simp add: put_all_def keeps_refl)
next
  case (Cons entry entries)
  obtain l a t where entry: "entry = (l, a, t)" by (cases entry)
  let ?d = "put_text x e l a t d"
  have ok: "valid d e" "no_nul t" using Cons.prems by (auto simp: child_view_def entry)
  note tree = put_text_tree [OF assms(1) ok refl, where looked_up = l and appended = a]
  have "child_view x valid e ?d (view_put entry f)"
    using Cons.prems(1) tree(2,4) ok by (auto simp: child_view_def view_put_def entry)
  with Cons have "child_view x valid e (put_all x e entries ?d) (fold view_put entries (view_put entry f)) \<and>
      keeps x valid e ?d (put_all x e entries ?d)" by simp
  moreover have "keeps x valid e d ?d" using tree by (auto simp: keeps_def)
  ultimately show ?case by (auto simp: put_all_def entry intro: keeps_trans)
qed

lemma RootElement_valid:
  assumes "tree_laws x valid" and "RootElement x d = Some root"
  shows "valid d root" "FirstChildElement x d root n \<noteq> Some root"
proof -
  have "\<forall>d r. RootElement x d = Some r \<longrightarrow> valid d r \<and> (\<forall>p n. valid d p \<longrightarrow> r \<notin> set (NamedChildren x d p n))"
    using assms(1) unfolding tree_laws_def by (rule conjunct1)
  with assms(2) show "valid d root" "FirstChildElement x d root n \<noteq> Some root"
    by (auto simp: FirstChildElement_def split: list.splits) (metis list.set_intros(1))
qed

lemma child_or_new_tree:
  assumes "tree_laws x valid" and "RootElement x d = Some root" and "child_or_new x d root name = (d', e)"
  shows "FirstChildElement x d' root name = Some e" "valid d' e" "RootElement x d' = Some root"
    "valid d q \<Longrightarrow> valid d' q"
    "valid d q \<Longrightarrow> FirstChildElement x d q k = Some c \<Longrightarrow> FirstChildElement x d' q k = Some c"
    "valid d q \<Longrightarrow> q \<noteq> root \<Longrightarrow> q \<noteq> e \<Longrightarrow> child_text x d' q k = child_text x d q k"
    "child_text x d' e k = (case FirstChildElement x d root name of None \<Rightarrow> None | Some e \<Rightarrow> child_text x d e k)"
proof -
  have root: "valid d root" using RootElement_valid(1) assms(1,2) .
  have *: "FirstChildElement x d' root name = Some e \<and> valid d' e \<and> RootElement x d' = Some root \<and>
      (\<forall>q. valid d q \<longrightarrow> valid d' q) \<and>
      (\<forall>q k c. valid d q \<longrightarrow> FirstChildElement x d q k = Some c \<longrightarrow> FirstChildElement x d' q k = Some c) \<and>
      (\<forall>q k. valid d q \<longrightarrow> q \<noteq> root \<longrightarrow> q \<noteq> e \<longrightarrow> child_text x d' q k = child_text x d q k) \<and>
      (\<forall>k. child_text x d' e k = (case FirstChildElement x d root name of None \<Rightarrow> None | Some e \<Rightarrow> child_text x d e k))"
  proof (cases "FirstChildElement x d root name")
    case (Some c)
    with assms(3) have "d' = d" "e = c" by (auto simp: child_or_new_def)
    with Some assms(2) FirstChildElement_valid [OF assms(1) root Some] show ?thesis by simp
  next
    case None
    with assms(3) have new: "NewElement x d root name None = (d', e)" by (simp add: child_or_new_def AppendNewElement_def)
    have "pred_option no_nul (None :: string option)" by simp
    note tree = NewElement_tree [OF assms(1) root this new]
    have "child_text x d' q k = child_text x d q k" if "valid d q" "q \<noteq> root" for q k
      using that tree FirstChildElement_valid [OF assms(1) that(1), of k]
      by (cases "FirstChildElement x d q k") (auto simp: child_text_def)
    then show ?thesis using tree None root assms(2) by (auto simp: child_text_def)
  qed
  then show "FirstChildElement x d' root name = Some e" "valid d' e" "RootElement x d' = Some root"
    "valid d q \<Longrightarrow> valid d' q"
    "valid d q \<Longrightarrow> FirstChildElement x d q k = Some c \<Longrightarrow> FirstChildElement x d' q k = Some c"
    "valid d q \<Longrightarrow> q \<noteq> root \<Longrightarrow> q \<noteq> e \<Longrightarrow> child_text x d' q k = child_text x d q k"
    "child_text x d' e k = (case FirstChildElement x d root name of None \<Rightarrow> None | Some e \<Rightarrow> child_text x d e k)"
    by blast+
qed

definition pin_entries :: "string \<Rightarrow> pin_status \<Rightarrow> pin_status \<Rightarrow> int \<Rightarrow> int \<Rightarrow> int \<Rightarrow> int \<Rightarrow> (string \<times> string \<times> string) list" where
  "pin_entries state p1 p2 n1 m1 n2 m2 =
     [(''PINSTATE'', ''PINSTATE'', state), (''PINCODE'', ''PINCODE'', c_str (pin p1)), (''PUKCODE'', ''PUKCODE'', c_str (puk p1)),
      (''PINREMAINTIMES'', ''PINREMAINTIMES'', to_string n1), (''PUKREMAINTIMES'', ''PUKREMAINTIMES'', to_string m1),
      (''PIN2CODE'', ''PIN2CODE'', c_str (pin p2)), (''PUK2CODE'', ''PUK2CODE'', c_str (puk p2)),
      (''PIN2REMAINTIMES'', ''PINREMAINTIMES'', to_string n2), (''PUK2REMAINTIMES'', ''PUK2REMAINTIMES'', to_string m2)]"

lemma SavePinState_entries:
  assumes "RootElement x (doc s) = Some root" and "child_or_new x (doc s) root ''PinProfile'' = (d, e)"
    and "pin_remaining_times (pin1_status s) = Some n1" and "puk_remaining_times (pin1_status s) = Some m1"
    and "pin_remaining_times (pin2_status s) = Some n2" and "puk_remaining_times (pin2_status s) = Some m2"
  shows "SavePinStateToIccProfile x s =
    Inr (SaveFile x (s\<lparr>doc := put_all x e (pin_entries (pin_state_text s) (pin1_status s) (pin2_status s) n1 m1 n2 m2) d\<rparr>))"
  using assms by (simp add: SavePinStateToIccProfile_def initialised_def put_all_def pin_entries_def)

lemma view_put_same [simp]: "view_put (n, n, t) f = f(n := Some (Some t))"
  by (auto simp: view_put_def)

lemma view_put_other: "f a \<noteq> None \<Longrightarrow> view_put (l, a, t) f = (if f l = None then f else f(l := Some (Some t)))"
  by (auto simp: view_put_def)

text \<open>What the entries of the profile give when they are read: all but the retries of the second PIN are as they were.\<close>

lemma pin_entries_view:
  assumes "g = fold view_put (pin_entries st p1 p2 n1 m1 n2 m2) f"
  shows "g ''PINSTATE'' = Some (Some st)" "g ''PINCODE'' = Some (Some (c_str (pin p1)))"
    "g ''PUKCODE'' = Some (Some (c_str (puk p1)))" "g ''PINREMAINTIMES'' = Some (Some (to_string n1))"
    "g ''PUKREMAINTIMES'' = Some (Some (to_string m1))" "g ''PIN2CODE'' = Some (Some (c_str (pin p2)))"
    "g ''PUK2CODE'' = Some (Some (c_str (puk p2)))" "g ''PUK2REMAINTIMES'' = Some (Some (to_string m2))"
    "g ''PIN2REMAINTIMES'' = (if f ''PIN2REMAINTIMES'' = None then None else Some (Some (to_string n2)))"
  using assms by (simp_all add: pin_entries_def view_put_other)

lemma SaveFacilityLock_entries:
  "put_locks x e locks d = put_all x e (map (\<lambda>(k, st). (k, k, if st = ENABLE then ''ENABLE'' else ''DISABLE'')) locks) d"
  by (induction x e locks d rule: put_locks.induct) (auto simp: put_all_def)

lemma lock_entries_view:
  assumes "distinct (map fst locks)" and "(k, st) \<in> set locks"
  shows "fold view_put (map (\<lambda>(k, st). (k, k, if st = ENABLE then ''ENABLE'' else ''DISABLE'')) locks) f k =
    Some (Some (if st = ENABLE then ''ENABLE'' else ''DISABLE''))"
proof -
  have other: "fold view_put (map (\<lambda>(k, st). (k, k, if st = ENABLE then ''ENABLE'' else ''DISABLE'')) locks) f k = f k"
    if "k \<notin> fst ` set locks" for locks f and k :: string
    using that by (induction locks arbitrary: f) auto
  show ?thesis
    using assms by (induction locks arbitrary: f) (auto simp: other)
qed

lemma read_locks_view:
  assumes "\<forall>(k, st) \<in> set locks. child_text x d e k = Some (Some (if st = ENABLE then ''ENABLE'' else ''DISABLE''))"
  shows "read_locks x d e (map (\<lambda>(k, _). (k, DISABLE)) locks) = Inr locks"
  using assms
proof (induction locks)
  case (Cons a locks)
  then show ?case by (cases a; cases "snd a") (auto simp: read_text_child)
qed simp

lemma no_nul_to_string: "no_nul (to_string v)"
  by (simp add: no_nul_def to_string_not_in)

lemma read_times_to_string:
  "child_text x d e n = Some (Some (to_string v)) \<Longrightarrow> in_int32 v \<Longrightarrow> read_times x d e n def = Inr (Some v)"
  by (simp add: read_times_child stoi_to_string)

text \<open>Reading a profile that was written\<close>

lemma read_pin_profile_saved:
  assumes "\<forall>k. child_text x (doc s) e k = fold view_put (pin_entries st p1 p2 n1 m1 n2 m2) f k"
    and "p1 = \<lparr>pin = a1, puk = b1, pin_remaining_times = Some n1, puk_remaining_times = Some m1\<rparr>"
    and "p2 = \<lparr>pin = a2, puk = b2, pin_remaining_times = Some n2, puk_remaining_times = Some m2\<rparr>"
    and "\<forall>c \<in> {a1, b1, a2, b2}. no_nul c" and "\<forall>v \<in> {n1, m1, n2, m2}. in_int32 v"
  shows "read_pin_profile x e s =
    Inr (s\<lparr>sim_status := (if st = ''PINSTATE_ENABLED_NOT_VERIFIED'' then SIM_STATUS_PIN
                           else if st = ''PINSTATE_ENABLED_BLOCKED'' then SIM_STATUS_PUK else sim_status s),
           pin1_status := p1,
           pin2_status := p2\<lparr>pin_remaining_times :=
             if f ''PIN2REMAINTIMES'' = None then pin_remaining_times (pin2_status s) else Some n2\<rparr>\<rparr>)"
proof -
  note view = pin_entries_view [OF refl, of st p1 p2 n1 m1 n2 m2 f]
  have c_str: "c_str a1 = a1" "c_str b1 = b1" "c_str a2 = a2" "c_str b2 = b2"
    using assms(4) by (auto simp: no_nul_def c_str_no_nul)
  have "read_pin_status x (doc s) e ''PINCODE'' ''PUKCODE'' ''PINREMAINTIMES'' ''PUKREMAINTIMES'' q = Inr p1" for q
    using assms(1,5) view by (simp add: read_pin_status_def read_text_child read_times_to_string assms(2) c_str)
  moreover have "read_pin_status x (doc s) e ''PIN2CODE'' ''PUK2CODE'' ''PIN2REMAINTIMES'' ''PUK2REMAINTIMES'' q =
      Inr (p2\<lparr>pin_remaining_times := if f ''PIN2REMAINTIMES'' = None then pin_remaining_times q else Some n2\<rparr>)" for q
    using assms(1,5) view
    by (cases "f ''PIN2REMAINTIMES''")
      (simp_all add: read_pin_status_def read_text_child read_times_to_string read_times_child assms(3) c_str stoi_to_string)
  moreover have "read_text x (doc s) e ''PINSTATE'' [] = Inr st"
    using assms(1) view by (simp add: read_text_child)
  ultimately show ?thesis by (simp add: read_pin_profile_def)
qed

text \<open>
  A text that is printed and parsed again is the same text if it is not blank and has no NUL and no carriage return (which
  the parser normalises); a document all of whose texts are such is loaded as it was saved.
\<close>

definition plain_text :: "string \<Rightarrow> bool" where
  "plain_text t \<longleftrightarrow> no_nul t \<and> CHR 0x0D \<notin> set t \<and> (\<exists>c \<in> set t. \<not> isspace c)"

definition plain_doc :: "('d, 'e) tinyxml2 \<Rightarrow> ('d \<Rightarrow> 'e \<Rightarrow> bool) \<Rightarrow> 'd \<Rightarrow> bool" where
  "plain_doc x valid d \<longleftrightarrow> (\<forall>e t. valid d e \<longrightarrow> GetText x d e = Some t \<longrightarrow> plain_text t)"

definition file_laws :: "('d, 'e) tinyxml2 \<Rightarrow> ('d \<Rightarrow> 'e \<Rightarrow> bool) \<Rightarrow> bool" where
  "file_laws x valid \<longleftrightarrow>
     (\<forall>d0 d. plain_doc x valid d \<longrightarrow> Parse x d0 (Print x d) = (d, True) \<and> Print x d \<noteq> [])"

lemma plain_NewElement:
  assumes "tree_laws x valid" and "valid d p" and "pred_option plain_text t" and "NewElement x d p n t = (d', c)"
    and "plain_doc x valid d"
  shows "plain_doc x valid d'"
proof -
  have "pred_option no_nul t" using assms(3) by (cases t) (auto simp: plain_text_def)
  note tree = NewElement_tree [OF assms(1,2) this assms(4)]
  show ?thesis using tree(2,4,7) assms(3,5) by (auto simp: plain_doc_def)
qed

lemma plain_put_text:
  assumes "tree_laws x valid" and "valid d p" and "plain_text t" and "plain_doc x valid d"
  shows "plain_doc x valid (put_text x p looked_up appended t d)"
proof (cases "FirstChildElement x d p looked_up")
  case None
  obtain d' c where new: "NewElement x d p appended (Some t) = (d', c)" by fastforce
  from plain_NewElement [OF assms(1,2) _ new assms(4)] assms(3) None new show ?thesis
    by (simp add: put_text_def AppendNewElementWithText_def)
next
  case (Some c)
  have "no_nul t" using assms(3) by (simp add: plain_text_def)
  from SetText_tree [OF assms(1) FirstChildElement_valid [OF assms(1,2) Some] this] Some assms(3,4)
  show ?thesis by (auto simp: put_text_def plain_doc_def)
qed

lemma plain_put_all:
  assumes "tree_laws x valid" and "valid d p" and "\<forall>(l, a, t) \<in> set entries. plain_text t" and "plain_doc x valid d"
  shows "plain_doc x valid (put_all x p entries d)"
  using assms(2-4)
proof (induction entries arbitrary: d)
  case (Cons entry entries)
  obtain l a t where entry: "entry = (l, a, t)" by (cases entry)
  have ok: "plain_text t" "no_nul t" using Cons.prems by (auto simp: entry plain_text_def)
  have "valid (put_text x p l a t d) p" using put_text_tree(2) [OF assms(1) Cons.prems(1) ok(2) refl] Cons.prems(1) .
  from Cons.IH [OF this] plain_put_text [OF assms(1) Cons.prems(1) ok(1) Cons.prems(3)] Cons.prems(2)
  show ?case by (simp add: put_all_def entry)
qed (simp add: put_all_def)

lemma plain_child_or_new:
  assumes "tree_laws x valid" and "RootElement x d = Some root" and "child_or_new x d root n = (d', e)"
    and "plain_doc x valid d"
  shows "plain_doc x valid d'"
  using assms(3) plain_NewElement [OF assms(1) RootElement_valid(1) [OF assms(1,2)] _ _ assms(4), of None n] assms(4)
  by (auto simp: child_or_new_def AppendNewElement_def split: option.splits)

lemma plain_to_string: "plain_text (to_string v)"
proof -
  obtain c cs where c: "to_string v = c # cs" using to_string_nonempty by (cases "to_string v") auto
  then have c: "c \<in> set (to_string v)" by simp
  then have "\<not> isspace c" using to_string_not_in by (auto simp: isspace_def)
  with c show ?thesis by (auto simp: plain_text_def no_nul_to_string to_string_not_in)
qed

lemma Initialize_saved:
  assumes "file_laws x valid" and "plain_doc x valid (doc s)" and "file_path s = PerInstancePath env (icc_profile_name env)"
    and "RootElement x (doc s) = Some root" and "FirstChildElement x (doc s) root ''PinProfile'' = Some e"
  shows "InitializeSimFileSystemAndSimState x env (SaveFile x s) =
    read_pin_profile x e ((SaveFile x s)\<lparr>sim_status := SIM_STATUS_READY, pin1_status := default_pin_status,
      pin2_status := default_pin_status\<rparr>)"
proof -
  have parse: "Parse x d0 (Print x (doc s)) = (doc s, True)" "Print x (doc s) \<noteq> []" for d0
    using assms(1,2) by (auto simp: file_laws_def)
  then show ?thesis
    using assms(3-5)
    by (cases s) (simp add: Let_def InitializeSimFileSystemAndSimState_def SaveFile_def file_usable_def load_profile_def)
qed

definition lock_entries :: "(string \<times> lock_status) list \<Rightarrow> (string \<times> string \<times> string) list" where
  "lock_entries locks = map (\<lambda>(k, st). (k, k, if st = ENABLE then ''ENABLE'' else ''DISABLE'')) locks"

lemma InitializeFacilityLock_saved:
  assumes "RootElement x (doc s) = Some root" and "FirstChildElement x (doc s) root ''FacilityLock'' = Some e"
    and "\<forall>k. child_text x (doc s) e k = fold view_put (lock_entries locks) f k"
    and "map fst locks = map fst default_locks"
  shows "InitializeFacilityLock x s = Inr (s\<lparr>facility_lock := locks\<rparr>)"
proof -
  have "distinct (map fst locks)" unfolding assms(4) by (simp add: default_locks_def)
  from lock_entries_view [OF this, of _ _ f]
  have "read_locks x (doc s) e (map (\<lambda>(k, _). (k, DISABLE)) locks) = Inr locks"
    by (intro read_locks_view) (auto simp: assms(3) lock_entries_def)
  moreover have "map (\<lambda>(k, _). (k, DISABLE)) locks = map (\<lambda>k. (k, DISABLE)) (map fst locks)"
    by (simp add: case_prod_unfold)
  then have "map (\<lambda>(k, _). (k, DISABLE)) locks = default_locks"
    unfolding assms(4) by (simp add: default_locks_def)
  ultimately show ?thesis using assms(1,2) by (simp add: InitializeFacilityLock_def Let_def)
qed

text \<open>The document that the two save operations leave\<close>

lemma saved_document:
  assumes laws: "tree_laws x valid" and "RootElement x d0 = Some root"
    and e: "child_or_new x d0 root ''PinProfile'' = (d1, e)" and d2: "d2 = put_all x e entries d1"
    and e': "child_or_new x d2 root ''FacilityLock'' = (d3, e')" and d4: "d4 = put_all x e' locks d3"
    and "\<forall>(l, a, t) \<in> set entries. no_nul t" and "\<forall>(l, a, t) \<in> set locks. no_nul t"
  defines "f \<equiv> \<lambda>k. case FirstChildElement x d0 root ''PinProfile'' of None \<Rightarrow> None | Some c \<Rightarrow> child_text x d0 c k"
  shows "RootElement x d2 = Some root" "RootElement x d4 = Some root"
    "FirstChildElement x d4 root ''PinProfile'' = Some e" "FirstChildElement x d4 root ''FacilityLock'' = Some e'"
    "child_text x d4 e k = fold view_put entries f k" "\<exists>g. \<forall>k. child_text x d4 e' k = fold view_put locks g k"
proof -
  note first = child_or_new_tree [OF laws assms(2) e]
  have "child_view x valid e d1 f" using first(2,7) by (simp add: child_view_def f_def)
  from put_all_view [OF laws this assms(7), folded d2]
  have view: "child_view x valid e d2 (fold view_put entries f)" and keep: "keeps x valid e d1 d2" by auto
  show root2: "RootElement x d2 = Some root" using keep first(3) by (simp add: keeps_def)
  have valid1: "valid d1 root" using RootElement_valid(1) [OF laws first(3)] .
  have pin2: "FirstChildElement x d2 root ''PinProfile'' = Some e"
    using keep first(1) valid1 unfolding keeps_def by blast
  note second = child_or_new_tree [OF laws root2 e']
  have valid2: "valid d2 root" using RootElement_valid(1) [OF laws root2] .
  have valid3: "valid d3 root" using RootElement_valid(1) [OF laws second(3)] .
  have pin3: "FirstChildElement x d3 root ''PinProfile'' = Some e" using second(5) [OF valid2 pin2] .
  have e_e': "e \<noteq> e'" using FirstChildElement_unique [OF laws valid3 valid3 pin3] second(1) by auto
  have e_root: "e \<noteq> root" using RootElement_valid(2) [OF laws root2] pin2 by auto
  define g where "g = child_text x d3 e'"
  have "child_view x valid e' d3 g" using second(2) by (simp add: child_view_def g_def)
  from put_all_view [OF laws this assms(8), folded d4]
  have view': "child_view x valid e' d4 (fold view_put locks g)" and keep': "keeps x valid e' d3 d4" by auto
  show "RootElement x d4 = Some root" using keep' second(3) by (simp add: keeps_def)
  show "FirstChildElement x d4 root ''PinProfile'' = Some e" "FirstChildElement x d4 root ''FacilityLock'' = Some e'"
    using keep' pin3 second(1) valid3 unfolding keeps_def by blast+
  show "\<exists>g. \<forall>k. child_text x d4 e' k = fold view_put locks g k" using view' by (auto simp: child_view_def)
  have valid_e: "valid d2 e" "valid d3 e" using view second(4) by (auto simp: child_view_def)
  have "child_text x d4 e k = child_text x d3 e k" using keep' valid_e(2) e_e' unfolding keeps_def by blast
  also have "\<dots> = child_text x d2 e k" using second(6) [OF valid_e(1) e_root e_e'] .
  finally show "child_text x d4 e k = fold view_put entries f k" using view by (simp add: child_view_def)
qed

lemma pin_entries_plain:
  assumes "\<forall>c \<in> {pin p1, puk p1, pin p2, puk p2}. plain_text c"
  shows "\<forall>(l, a, t) \<in> set (pin_entries (pin_state_text s) p1 p2 n1 m1 n2 m2). plain_text t"
proof -
  have "plain_text (pin_state_text s)" by (simp add: pin_state_text_def plain_text_def no_nul_def isspace_def)
  moreover have "plain_text (c_str c)" if "plain_text c" for c
    using that by (simp add: plain_text_def no_nul_def c_str_no_nul)
  ultimately show ?thesis using assms by (simp add: pin_entries_def plain_to_string)
qed

lemma lock_entries_plain: "\<forall>(l, a, t) \<in> set (lock_entries locks). plain_text t"
proof -
  have "plain_text ''ENABLE''" "plain_text ''DISABLE''" by (simp_all add: plain_text_def no_nul_def isspace_def)
  then show ?thesis by (auto simp: lock_entries_def)
qed

lemma SaveModemState_document:
  assumes "tree_laws x valid" and "RootElement x (doc s) = Some root"
    and "pin1_status s = \<lparr>pin = a1, puk = b1, pin_remaining_times = Some n1, puk_remaining_times = Some m1\<rparr>"
    and "pin2_status s = \<lparr>pin = a2, puk = b2, pin_remaining_times = Some n2, puk_remaining_times = Some m2\<rparr>"
    and "\<forall>c \<in> {a1, b1, a2, b2}. plain_text c" and "plain_doc x valid (doc s)"
  defines "f \<equiv> \<lambda>k. case FirstChildElement x (doc s) root ''PinProfile'' of None \<Rightarrow> None | Some c \<Rightarrow> child_text x (doc s) c k"
  shows "\<exists>s2 e e' g. SaveModemState x env s =
      rbind (InitializeSimFileSystemAndSimState x env (SaveFile x s2)) (InitializeFacilityLock x) \<and>
    file_path s2 = file_path s \<and> plain_doc x valid (doc s2) \<and> RootElement x (doc s2) = Some root \<and>
    FirstChildElement x (doc s2) root ''PinProfile'' = Some e \<and>
    FirstChildElement x (doc s2) root ''FacilityLock'' = Some e' \<and>
    (\<forall>k. child_text x (doc s2) e k =
       fold view_put (pin_entries (pin_state_text s) (pin1_status s) (pin2_status s) n1 m1 n2 m2) f k) \<and>
    (\<forall>k. child_text x (doc s2) e' k = fold view_put (lock_entries (facility_lock s)) g k)"
proof -
  let ?entries = "pin_entries (pin_state_text s) (pin1_status s) (pin2_status s) n1 m1 n2 m2"
  obtain d1 e where e: "child_or_new x (doc s) root ''PinProfile'' = (d1, e)" by fastforce
  define d2 where "d2 = put_all x e ?entries d1"
  obtain d3 e' where e': "child_or_new x d2 root ''FacilityLock'' = (d3, e')" by fastforce
  define d4 where "d4 = put_all x e' (lock_entries (facility_lock s)) d3"
  have plain: "\<forall>(l, a, t) \<in> set ?entries. plain_text t" "\<forall>(l, a, t) \<in> set (lock_entries (facility_lock s)). plain_text t"
    using assms(5) by (intro pin_entries_plain lock_entries_plain; simp add: assms(3,4))+
  then have no_nul: "\<forall>(l, a, t) \<in> set ?entries. no_nul t" "\<forall>(l, a, t) \<in> set (lock_entries (facility_lock s)). no_nul t"
    by (auto simp: plain_text_def)
  note saved = saved_document [OF assms(1,2) e d2_def e' d4_def no_nul, folded f_def]
  define s1 where "s1 = SaveFile x (s\<lparr>doc := d2\<rparr>)"
  define s2 where "s2 = s1\<lparr>doc := d4\<rparr>"
  have "SavePinStateToIccProfile x s = Inr s1"
    unfolding s1_def d2_def by (rule SavePinState_entries [OF assms(2) e]) (simp_all add: assms(3,4))
  moreover have "SaveFacilityLockToIccProfile x env s1 =
      rbind (InitializeSimFileSystemAndSimState x env (SaveFile x s2)) (InitializeFacilityLock x)"
    using saved(1) e' by (simp add: SaveFacilityLockToIccProfile_def s1_def s2_def d4_def SaveFacilityLock_entries
        lock_entries_def SaveFile_def)
  ultimately have save: "SaveModemState x env s =
      rbind (InitializeSimFileSystemAndSimState x env (SaveFile x s2)) (InitializeFacilityLock x)"
    by (simp add: SaveModemState_def)
  moreover have "plain_doc x valid d2" unfolding d2_def
    using plain_put_all [OF assms(1) child_or_new_tree(2) [OF assms(1,2) e] plain(1)] plain_child_or_new [OF assms(1,2) e assms(6)] .
  from plain_child_or_new [OF assms(1) saved(1) e' this] have "plain_doc x valid d4" unfolding d4_def
    using plain_put_all [OF assms(1) child_or_new_tree(2) [OF assms(1) saved(1) e'] plain(2)] by simp
  moreover have "doc s2 = d4" "file_path s2 = file_path s" by (simp_all add: s2_def s1_def SaveFile_def)
  ultimately show ?thesis using saved(2-6) by metis
qed


text \<open>
  A document as the list of its elements with their parents, names and texts, in the order in which they were made; a file
  holds the number of elements and the elements, each number in unary and each text behind its length.
\<close>

type_synonym node_list = "(nat \<times> string \<times> string option) list"

definition print_nat :: "nat \<Rightarrow> string" where
  "print_nat n = replicate n CHR ''1'' @ ''0''"

fun parse_nat :: "string \<Rightarrow> nat \<times> string" where
  "parse_nat [] = (0, [])"
| "parse_nat (c # cs) = (if c = CHR ''1'' then let (n, rest) = parse_nat cs in (Suc n, rest) else (0, cs))"

definition print_text :: "string \<Rightarrow> string" where
  "print_text t = print_nat (length t) @ t"

definition parse_text :: "string \<Rightarrow> string \<times> string" where
  "parse_text t = (let (n, rest) = parse_nat t in (take n rest, drop n rest))"

fun print_node :: "nat \<times> string \<times> string option \<Rightarrow> string" where
  "print_node (p, n, None) = print_nat p @ print_text n @ print_nat 0"
| "print_node (p, n, Some t) = print_nat p @ print_text n @ print_nat 1 @ print_text t"

primrec parse_nodes :: "nat \<Rightarrow> string \<Rightarrow> node_list" where
  "parse_nodes 0 t = []"
| "parse_nodes (Suc k) t =
     (let (p, t) = parse_nat t; (n, t) = parse_text t; (b, t) = parse_nat t
      in if b = 0 then (p, n, None) # parse_nodes k t
         else let (v, t) = parse_text t in (p, n, Some v) # parse_nodes k t)"

definition node_xml :: "(node_list, nat) tinyxml2" where
  "node_xml =
     \<lparr>RootElement = (\<lambda>d. if d = [] then None else Some 0),
      ChildElements = (\<lambda>d p. filter (\<lambda>i. p < i \<and> fst (d ! i) = p) [1..<length d]),
      NamedChildren = (\<lambda>d p n. filter (\<lambda>i. p < i \<and> fst (d ! i) = p \<and> fst (snd (d ! i)) = n) [1..<length d]),
      Attribute = (\<lambda>d e n. None),
      GetText = (\<lambda>d e. if e < length d then snd (snd (d ! e)) else None),
      SetText = (\<lambda>d e t. d[e := (fst (d ! e), fst (snd (d ! e)), Some t)]),
      NewElement = (\<lambda>d p n t. (d @ [(p, n, t)], length d)),
      Parse = (\<lambda>d t. let (k, t) = parse_nat t in (parse_nodes k t, True)),
      Print = (\<lambda>d. print_nat (length d) @ concat (map print_node d))\<rparr>"

lemma parse_nat_print [simp]: "parse_nat (print_nat n @ t) = (n, t)"
  by (induction n) (simp_all add: print_nat_def)

lemma parse_text_print [simp]: "parse_text (print_text s @ t) = (s, t)"
  by (simp add: parse_text_def print_text_def)

lemma parse_nodes_print [simp]: "parse_nodes (length d) (concat (map print_node d)) = d"
proof (induction d)
  case (Cons a d)
  obtain p n t where a: "a = (p, n, t)" by (cases a)
  show ?case using Cons by (cases t) (simp_all add: a)
qed simp

lemma node_xml_file: "file_laws node_xml (\<lambda>d e. e < length d)"
proof -
  have "print_nat n \<noteq> []" for n by (simp add: print_nat_def)
  then show ?thesis by (simp add: file_laws_def node_xml_def)
qed

lemma node_xml_tree: "tree_laws node_xml (\<lambda>d e. e < length d)"
proof -
  have old: "filter (\<lambda>i. P i (xs @ [a])) [1..<length xs] = filter (\<lambda>i. P i xs) [1..<length xs]"
    if "\<And>i. i < length xs \<Longrightarrow> P i (xs @ [a]) = P i xs" for P and xs :: node_list and a
    using that by (intro filter_cong) auto
  have "filter (\<lambda>i. q < i \<and> fst ((d @ [(p, n, t)]) ! i) = q \<and> fst (snd ((d @ [(p, n, t)]) ! i)) = k) [1..<Suc (length d)] =
      filter (\<lambda>i. q < i \<and> fst (d ! i) = q \<and> fst (snd (d ! i)) = k) [1..<length d] @ (if q = p \<and> k = n then [length d] else [])"
    if "p < length d" "q < length d" for p q n k t and d :: node_list
  proof -
    have "1 \<le> length d" using that by simp
    then show ?thesis
      using that by (auto simp: nth_append intro!: filter_cong)
  qed
  moreover have "fst (d[e := (fst (d ! e), fst (snd (d ! e)), Some t)] ! i) = fst (d ! i)"
    "fst (snd (d[e := (fst (d ! e), fst (snd (d ! e)), Some t)] ! i)) = fst (snd (d ! i))"
    if "e < length d" for e i t and d :: node_list
    using that by (cases "i = e"; simp)+
  ultimately show ?thesis
    by (auto simp: tree_laws_def node_xml_def fun_eq_iff nth_append)
qed

definition sample_sim_env :: sim_env where
  "sample_sim_env = \<lparr>sim_type = 1, sim_service_id = 0, PerInstancePath = (\<lambda>n. ''/run/'' @ n),
     DefaultHostArtifactsPath = (\<lambda>n. ''/host/'' @ n)\<rparr>"

definition blocked_sim :: "node_list sim_service" where
  "blocked_sim =
     \<lparr>sim_status = SIM_STATUS_PUK, doc = [(0, ''MF'', None), (0, ''FacilityLock'', None), (1, ''SC'', Some ''ENABLE'')],
      file_path = PerInstancePath sample_sim_env (icc_profile_name sample_sim_env), files = (\<lambda>_. None),
      pin1_status = \<lparr>pin = ''4711'', puk = ''12345678'', pin_remaining_times = Some 0, puk_remaining_times = Some 7\<rparr>,
      pin2_status = \<lparr>pin = ''0815'', puk = ''87654321'', pin_remaining_times = Some 1, puk_remaining_times = Some 10\<rparr>,
      facility_lock = default_locks, logical_channels = [], last_file_id = [],
      cdma_subscription_source = None, cdma_roaming_preference = None\<rparr>"


end
