(* ===== verification/Modem_System.thy ===== *)
theory Modem_System
  imports Modem_Simulator Modem_Sim_Profile
begin

text \<open>
  The modem simulator as a whole (\<open>host/commands/modem_simulator\<close>): properties of the services, the looper and the
  channels together.
\<close>

section \<open>The order of the services\<close>

text \<open>How the handlers of a service match: full or by prefix, and the text\<close>

definition keys :: "'s command_handler list \<Rightarrow> (match_mode \<times> string) list" where
  "keys hs = map (\<lambda>h. (match_mode h, command_prefix h)) hs"

fun key_matches :: "match_mode \<times> string \<Rightarrow> string \<Rightarrow> bool" where
  "key_matches (FULL_MATCH, p) s \<longleftrightarrow> s = p"
| "key_matches (PARTIAL_MATCH, p) s \<longleftrightarrow> starts_with p s"

text \<open>Whether one of two texts is a prefix of the other\<close>

fun comparable :: "string \<Rightarrow> string \<Rightarrow> bool" where
  "comparable (a # p) (b # q) \<longleftrightarrow> a = b \<and> comparable p q"
| "comparable p q \<longleftrightarrow> True"

text \<open>The handlers of the eight services\<close>

definition service_keys :: "(match_mode \<times> string) list list" where
  "service_keys =
    [[(FULL_MATCH, ''+CPIN?''), (PARTIAL_MATCH, ''+CPIN=''), (PARTIAL_MATCH, ''+CRSM=''),
      (PARTIAL_MATCH, ''+CSIM=''), (FULL_MATCH, ''+CIMI''), (FULL_MATCH, ''+CICCID''), (FULL_MATCH, ''+CEID''),
      (FULL_MATCH, ''+CATR''), (PARTIAL_MATCH, ''+CLCK=''), (PARTIAL_MATCH, ''+CCHO=''),
      (PARTIAL_MATCH, ''+CCHC=''), (PARTIAL_MATCH, ''+CGLA=''), (PARTIAL_MATCH, ''+CPWD=''),
      (PARTIAL_MATCH, ''+CPINR=''), (PARTIAL_MATCH, ''+CCSS''), (PARTIAL_MATCH, ''+WRMP''),
      (PARTIAL_MATCH, ''^MBAU=''), (PARTIAL_MATCH, ''+REMOTEUPADATEPHONENUMBER'')],
     [(FULL_MATCH, ''+CFUN?''), (PARTIAL_MATCH, ''+CFUN=''), (PARTIAL_MATCH, ''+REMOTECFUN=''),
      (FULL_MATCH, ''+CSQ''), (FULL_MATCH, ''+COPS?''),
      (FULL_MATCH, ''+COPS=3,0;+COPS?;+COPS=3,1;+COPS?;+COPS=3,2;+COPS?''), (FULL_MATCH, ''+COPS=?''),
      (PARTIAL_MATCH, ''+COPS=''), (PARTIAL_MATCH, ''+CREG''), (PARTIAL_MATCH, ''+CGREG''),
      (PARTIAL_MATCH, ''+CEREG''), (FULL_MATCH, ''+CTEC?''), (FULL_MATCH, ''+CTEC=?''),
      (PARTIAL_MATCH, ''+CTEC=''), (PARTIAL_MATCH, ''+REMOTECTEC''), (PARTIAL_MATCH, ''+REMOTESIGNAL''),
      (PARTIAL_MATCH, ''+REMOTEREG''), (PARTIAL_MATCH, ''+REMOTEIDDISCLOSURE''),
      (PARTIAL_MATCH, ''+UPDATESECURITYALGORITHM'')],
     [(PARTIAL_MATCH, ''+CGACT=''), (FULL_MATCH, ''+CGACT?''), (PARTIAL_MATCH, ''+CGDCONT=''),
      (FULL_MATCH, ''+CGDCONT?''), (FULL_MATCH, ''+CGQREQ=1''), (FULL_MATCH, ''+CGQMIN=1''),
      (FULL_MATCH, ''+CGEREP=1,0''), (PARTIAL_MATCH, ''+CGDATA''), (FULL_MATCH, ''D*99***1#''),
      (PARTIAL_MATCH, ''+CGCONTRDP'')],
     [(PARTIAL_MATCH, ''D''), (FULL_MATCH, ''A''), (FULL_MATCH, ''H''), (FULL_MATCH, ''+CLCC''),
      (PARTIAL_MATCH, ''+CHLD=''), (PARTIAL_MATCH, ''+CMUT''), (PARTIAL_MATCH, ''+VTS=''),
      (PARTIAL_MATCH, ''+CUSD=''), (PARTIAL_MATCH, ''+WSOS=0''), (PARTIAL_MATCH, ''+REMOTECALL'')],
     [(PARTIAL_MATCH, ''+CMGS''), (PARTIAL_MATCH, ''+CNMA''), (PARTIAL_MATCH, ''+CMGW''),
      (PARTIAL_MATCH, ''+CMGD''), (PARTIAL_MATCH, ''+CSCB''), (FULL_MATCH, ''+CSCA?''),
      (PARTIAL_MATCH, ''+CSCA=''), (PARTIAL_MATCH, ''+REMOTESMS'')],
     [(PARTIAL_MATCH, ''+CUSD''), (PARTIAL_MATCH, ''+CLIR''), (PARTIAL_MATCH, ''+CCWA''),
      (FULL_MATCH, ''+CLIP?''), (PARTIAL_MATCH, ''+CCFCU''), (PARTIAL_MATCH, ''+CSSN'')],
     [(FULL_MATCH, ''+CUSATD?''), (PARTIAL_MATCH, ''+CUSATE=''), (PARTIAL_MATCH, ''+CUSATT='')],
     [(FULL_MATCH, ''E0Q0V1''), (FULL_MATCH, ''S0=0''), (FULL_MATCH, ''+CMEE=1''), (FULL_MATCH, ''+CMOD=0''),
      (FULL_MATCH, ''+CSSN=0,1''), (FULL_MATCH, ''+COLP=0''),
      (FULL_MATCH, ''+CSCS='' @ [CHR 0x22] @ ''HEX'' @ [CHR 0x22]), (FULL_MATCH, ''+CMGF=0''),
      (PARTIAL_MATCH, ''+CGSN''), (PARTIAL_MATCH, ''+REMOTETIMEUPDATE'')]]"

lemma keys_simps [simp]:
  "keys [] = []"
  "keys (partial_handler p f # hs) = (PARTIAL_MATCH, p) # keys hs"
  "keys (full_handler p g # hs) = (FULL_MATCH, p) # keys hs"
  by (simp_all add: keys_def partial_handler_def full_handler_def)

lemma sim_handlers_keys: "keys (sim_handlers x) = service_keys ! 0"
  by (simp add: sim_handlers_def service_keys_def)

lemma network_handlers_keys: "keys (network_handlers now st) = service_keys ! 1"
  by (simp add: network_handlers_def service_keys_def)

lemma data_handlers_keys: "keys (data_handlers config) = service_keys ! 2"
  by (simp add: data_handlers_def service_keys_def)

lemma call_handlers_keys: "keys (call_handlers cenv) = service_keys ! 3"
  by (simp add: call_handlers_def service_keys_def)

lemma sms_handlers_keys: "keys (sms_handlers t) = service_keys ! 4"
  by (simp add: sms_handlers_def service_keys_def)

lemma sup_handlers_keys: "keys (sup_handlers) = service_keys ! 5"
  by (simp add: sup_handlers_def service_keys_def)

lemma stk_handlers_keys: "keys (stk_handlers x d) = service_keys ! 6"
  by (simp add: stk_handlers_def service_keys_def)

lemma misc_handlers_keys: "keys (misc_handlers clock) = service_keys ! 7"
  by (simp add: misc_handlers_def service_keys_def)

lemma Compare_key: "Compare h cmd \<longleftrightarrow> 2 \<le> length cmd \<and> key_matches (match_mode h, command_prefix h) (drop 2 cmd)"
  by (cases "match_mode h") (auto simp: Compare_def starts_with_def)

lemma starts_with_comparable: "starts_with p s \<Longrightarrow> starts_with q s \<Longrightarrow> comparable p q"
proof (induction p q arbitrary: s rule: comparable.induct)
  case (1 a p b q)
  then show ?case by (cases s) (auto simp: starts_with_def)
qed simp_all

lemma key_matches_starts_with: "key_matches k s \<Longrightarrow> starts_with (snd k) s"
  by (cases "(k, s)" rule: key_matches.cases) (auto simp: starts_with_def)

lemma key_matches_comparable: "key_matches k s \<Longrightarrow> key_matches k' s \<Longrightarrow> comparable (snd k) (snd k')"
  by (intro starts_with_comparable [of _ s] key_matches_starts_with)

lemma offer_None:
  "offer hs get put client cmd m = Inr None \<longleftrightarrow>
     length cmd < 2 \<or> (\<forall>k \<in> set (keys hs). \<not> key_matches k (drop 2 cmd))"
  by (auto simp: offer_def rbind_eq_Inr HandleModemCommand_None Compare_key keys_def)


text \<open>The handlers of different services that can match the same command\<close>

definition overlaps :: "((match_mode \<times> string) \<times> (match_mode \<times> string)) list" where
  "overlaps =
     concat (map (\<lambda>i. concat (map (\<lambda>j.
       filter (\<lambda>(k, k'). comparable (snd k) (snd k')) (List.product (service_keys ! i) (service_keys ! j))) [i + 1..<8])) [0..<8])"

lemma overlaps_eq:
  "overlaps = [((FULL_MATCH, ''D*99***1#''), (PARTIAL_MATCH, ''D'')),
     ((PARTIAL_MATCH, ''+CUSD=''), (PARTIAL_MATCH, ''+CUSD'')), ((PARTIAL_MATCH, ''+CSSN''), (FULL_MATCH, ''+CSSN=0,1''))]"
  by code_simp

definition ambiguous :: "string \<Rightarrow> bool" where
  "ambiguous cmd \<longleftrightarrow> drop 2 cmd = ''D*99***1#'' \<or> starts_with ''+CUSD='' (drop 2 cmd) \<or> drop 2 cmd = ''+CSSN=0,1''"

lemma service_unique:
  assumes "i < j" and "j < 8" and "k \<in> set (service_keys ! i)" and "k' \<in> set (service_keys ! j)"
    and "key_matches k (drop 2 cmd)" and "key_matches k' (drop 2 cmd)"
  shows "ambiguous cmd"
proof -
  have "comparable (snd k) (snd k')" using key_matches_comparable assms(5,6) by blast
  with assms(1-4) have "(k, k') \<in> set overlaps" by (force simp: overlaps_def)
  then show ?thesis using assms(5,6) by (auto simp: overlaps_eq ambiguous_def)
qed

lemma modem_services_None:
  assumes "i < 8"
  shows "(modem_services env n m ! i) client cmd m = Inr None \<longleftrightarrow>
    length cmd < 2 \<or> (\<forall>k \<in> set (service_keys ! i). \<not> key_matches k (drop 2 cmd))"
proof -
  have "i \<in> set [0..<8]" using assms by simp
  then consider "i = 0" | "i = 1" | "i = 2" | "i = 3" | "i = 4" | "i = 5" | "i = 6" | "i = 7" by (auto simp: upt_rec)
  then show ?thesis
    by cases (simp_all only: modem_services_def nth_Cons_0 nth_Cons_numeral One_nat_def nth_Cons_Suc offer_None,
        simp_all add: numeral_nat offer_None sim_handlers_keys network_handlers_keys data_handlers_keys call_handlers_keys
          sms_handlers_keys sup_handlers_keys stk_handlers_keys misc_handlers_keys)
qed

lemma first_service_only:
  assumes "f \<in> set fs" and "f client cmd m \<noteq> Inr None" and "\<forall>g \<in> set fs. g client cmd m = Inr None \<or> g = f"
  shows "first_service fs client cmd m = f client cmd m"
  using assms
proof (induction fs)
  case (Cons g fs)
  have "rbind (f client cmd m) (\<lambda>r. case r of None \<Rightarrow> h | Some r \<Rightarrow> Inr (Some r)) = f client cmd m" for h
    using assms(2) by (cases "f client cmd m") (auto split: option.splits)
  then show ?case using Cons by (cases "g = f") auto
qed simp

lemma first_service_none: "\<forall>g \<in> set fs. g client cmd m = Inr None \<Longrightarrow> first_service fs client cmd m = Inr None"
  by (induction fs) auto

lemma service_order_irrelevant:
  assumes "set fs = set (modem_services env next_id m)" and "\<not> ambiguous cmd"
  shows "first_service fs client cmd m = first_service (modem_services env next_id m) client cmd m"
proof (cases "\<exists>f \<in> set (modem_services env next_id m). f client cmd m \<noteq> Inr None")
  case True
  let ?S = "modem_services env next_id m"
  have len: "length ?S = 8" by (simp add: modem_services_def)
  from True obtain i where i: "i < 8" "(?S ! i) client cmd m \<noteq> Inr None" by (auto simp: in_set_conv_nth len)
  have "(?S ! j) client cmd m = Inr None" if "j < 8" "j \<noteq> i" for j
    using that i service_unique [of i j _ _ cmd] service_unique [of j i _ _ cmd] assms(2)
    by (cases "i < j") (auto simp: modem_services_None)
  then have only: "\<forall>g \<in> set ?S. g client cmd m = Inr None \<or> g = ?S ! i" by (metis in_set_conv_nth len)
  then show ?thesis
    using first_service_only [of "?S ! i" fs] first_service_only [of "?S ! i" ?S] i assms(1) len by simp
qed (use first_service_none assms(1) in \<open>metis\<close>)

text \<open>A command that is not ambiguous goes to the service that has a handler for it.\<close>

lemma first_service_at:
  assumes "i < 8" and "k \<in> set (service_keys ! i)" and "key_matches k (drop 2 cmd)" and "2 \<le> length cmd" and "\<not> ambiguous cmd"
  shows "first_service (modem_services env next_id m) client cmd m = (modem_services env next_id m ! i) client cmd m"
proof -
  let ?S = "modem_services env next_id m"
  have len: "length ?S = 8" by (simp add: modem_services_def)
  have some: "(?S ! i) client cmd m \<noteq> Inr None" using assms(1-4) by (auto simp: modem_services_None)
  have "(?S ! j) client cmd m = Inr None" if "j < 8" "j \<noteq> i" for j
    using that assms service_unique [of i j _ _ cmd] service_unique [of j i _ _ cmd]
    by (cases k; cases "i < j") (auto simp: modem_services_None)
  then have "\<forall>g \<in> set ?S. g client cmd m = Inr None \<or> g = ?S ! i" by (metis in_set_conv_nth len)
  then show ?thesis using first_service_only [of "?S ! i" ?S] some assms(1) len by simp
qed

lemma CUSD_cancels:
  assumes "2 \<le> length cmd" and "starts_with ''+CUSD='' (drop 2 cmd)"
  shows "first_service (modem_services env next_id m) client cmd m =
    offer (call_handlers (call_env_of env next_id m)) m_call (\<lambda>s m. m\<lparr>m_call := s\<rparr>) client cmd m"
proof -
  let ?S = "modem_services env next_id m" and ?k = "(PARTIAL_MATCH, ''+CUSD='')"
  have len: "length ?S = 8" by (simp add: modem_services_def)
  have key: "?k \<in> set (service_keys ! 3)" "key_matches ?k (drop 2 cmd)" using assms(2) by (simp_all add: service_keys_def)
  have none: "(?S ! i) client cmd m = Inr None" if "i < 3" for i
  proof -
    have "\<not> key_matches k (drop 2 cmd)" if k: "k \<in> set (service_keys ! i)" for k
    proof
      assume "key_matches k (drop 2 cmd)"
      then have "comparable (snd k) (snd ?k)" using key_matches_comparable key(2) by blast
      with k key(1) \<open>i < 3\<close> have "(k, ?k) \<in> set overlaps" by (force simp: overlaps_def)
      then show False by (simp add: overlaps_eq)
    qed
    with that show ?thesis by (simp add: modem_services_None)
  qed
  have some: "(?S ! 3) client cmd m \<noteq> Inr None" using key assms(1) modem_services_None [of 3 env next_id m client cmd] by (auto simp del: key_matches.simps)
  have "?S = [?S ! 0, ?S ! 1, ?S ! 2, ?S ! 3] @ drop 4 ?S" by (simp add: modem_services_def)
  then have "first_service ?S client cmd m = first_service ([?S ! 0, ?S ! 1, ?S ! 2, ?S ! 3] @ drop 4 ?S) client cmd m"
    by simp
  also have "\<dots> = (?S ! 3) client cmd m"
    using none [of 0] none [of 1] none [of 2] some by (cases "(?S ! 3) client cmd m") (auto split: option.splits)
  also have "?S ! 3 = offer (call_handlers (call_env_of env next_id m)) m_call (\<lambda>s m. m\<lparr>m_call := s\<rparr>)"
    by (simp add: modem_services_def)
  finally show ?thesis .
qed

text \<open>
  C17. The order in which the services are offered a command makes no difference, except for \<open>ATD*99***1#\<close>, \<open>AT+CUSD=\<close> and
  \<open>AT+CSSN=0,1\<close>: any other command has handlers in at most one service.  A command \<open>AT+CUSD=\<close> always goes to the call
  service, which has it as the request to cancel a session, and never to the supplementary service that handles the
  sessions.
\<close>
theorem service_order:
  assumes "set fs = set (modem_services env next_id m)" and "\<not> ambiguous cmd"
  shows "first_service fs client cmd m = first_service (modem_services env next_id m) client cmd m \<and>
    (2 \<le> length cmd' \<longrightarrow> starts_with ''+CUSD='' (drop 2 cmd') \<longrightarrow>
     first_service (modem_services env next_id m) client cmd' m =
       offer (call_handlers (call_env_of env next_id m)) m_call (\<lambda>s m. m\<lparr>m_call := s\<rparr>) client cmd' m)"
  using service_order_irrelevant [OF assms] CUSD_cancels by blast

section \<open>The looper with the callbacks of the modem\<close>

text \<open>The events that are due at a time\<close>

definition due :: "int \<Rightarrow> modem_callback looper \<Rightarrow> modem_callback looper_event list" where
  "due t l = filter (\<lambda>e. at_time e \<le> t) (queue l)"

definition looper_sorted :: "modem_callback looper \<Rightarrow> bool" where
  "looper_sorted l \<longleftrightarrow> sorted (map at_time (queue l)) \<and> \<not> stopped l"

lemma sorted_Insert: "sorted (map at_time q) \<Longrightarrow> sorted (map at_time (Insert e q))"
  by (induction e q rule: Insert.induct) (auto simp: event_le_def)

lemma filter_Insert_later: "t < at_time e \<Longrightarrow> filter (\<lambda>e. at_time e \<le> t) (Insert e q) = filter (\<lambda>e. at_time e \<le> t) q"
  by (induction e q rule: Insert.induct) (auto simp: event_le_def)

text \<open>What a callback asks is never due at once, and a callback cancels nothing.\<close>

fun later_event :: "event \<Rightarrow> bool" where
  "later_event (PostCallback cb delay) \<longleftrightarrow> 0 < delay"
| "later_event (CancelCallback n) \<longleftrightarrow> False"
| "later_event SimStatusChanged \<longleftrightarrow> False"
| "later_event _ \<longleftrightarrow> True"

text \<open>The looper keeps what is due, and the network service stays as it is.\<close>

definition same_due :: "int \<Rightarrow> 'd modem \<Rightarrow> 'd modem \<Rightarrow> bool" where
  "same_due t m m' \<longleftrightarrow>
     m_network m' = m_network m \<and> due t (m_looper m') = due t (m_looper m) \<and>
     (looper_sorted (m_looper m) \<longrightarrow> looper_sorted (m_looper m'))"

lemma same_due_refl: "same_due t m m"
  by (simp add: same_due_def)

lemma same_due_trans: "same_due t m m' \<Longrightarrow> same_due t m' m'' \<Longrightarrow> same_due t m m''"
  by (simp add: same_due_def)

lemma base_event_due: "later_event ev \<Longrightarrow> same_due (steady_now env) m (fst (base_event env ev m))"
  by (cases ev) (auto simp: same_due_def due_def looper_sorted_def PostDelayed_def Let_def filter_Insert_later sorted_Insert)

lemma base_events_due: "\<forall>ev \<in> set evs. later_event ev \<Longrightarrow> same_due (steady_now env) m (fst (base_events env evs m))"
proof (induction evs arbitrary: m)
  case (Cons ev evs)
  then show ?case
    using same_due_trans [OF base_event_due [of ev env m] Cons.IH] by (simp add: case_prod_unfold Let_def)
qed (simp add: same_due_refl)

lemma later_onUpdatePhysicalChannelconfigs:
  "\<forall>ev \<in> set (updatePhysicalChannelconfigs tech freq bw n s). later_event ev"
  by (auto simp: updatePhysicalChannelconfigs_def sendOnePhysChanCfgUpdate_def SendUnsolicitedCommand_def)

lemma modem_event_due: "later_event ev \<Longrightarrow> same_due (steady_now env) m (fst (modem_event env ev m))"
proof (cases ev)
  case TimeUpdateEvent
  then show ?thesis by (simp add: same_due_refl TimeUpdate_def SendUnsolicitedCommand_def Let_def)
next
  case (PhysicalChannelConfigs a b c)
  then show ?thesis
    using base_events_due [OF later_onUpdatePhysicalChannelconfigs] by (simp add: onUpdatePhysicalChannelconfigs_def)
qed (auto simp: base_event_due simp del: base_event.simps)

lemma modem_events_due: "\<forall>ev \<in> set evs. later_event ev \<Longrightarrow> same_due (steady_now env) m (fst (modem_events env evs m))"
proof (induction evs arbitrary: m)
  case (Cons ev evs)
  then show ?case
    using same_due_trans [OF modem_event_due [of ev env m] Cons.IH] by (simp add: case_prod_unfold Let_def)
qed (simp add: same_due_refl)

lemma later_events:
  "\<forall>ev \<in> set (OnVoiceRegisterStateChanged s). later_event ev" "\<forall>ev \<in> set (OnDataRegisterStateChanged s). later_event ev"
  "\<forall>ev \<in> set (OnSignalStrengthChanged s). later_event ev" "\<forall>ev \<in> set CallStateUpdate. later_event ev"
  "\<forall>ev \<in> set (HandleReceiveSMS t pdu). later_event ev" "\<forall>ev \<in> set (HandleSMSStatuReport t t' pdu ref). later_event ev"
  "\<forall>ev \<in> set (CloseRemoteConnection r). later_event ev"
  by (auto simp: OnVoiceRegisterStateChanged_def OnDataRegisterStateChanged_def OnSignalStrengthChanged_def CallStateUpdate_def
      HandleReceiveSMS_def HandleSMSStatuReport_def CloseRemoteConnection_def SendUnsolicitedCommand_def Let_def
      split: unsol_mode.splits if_splits)

text \<open>A callback leaves what is due; only one kind of callback changes the registration.\<close>

definition registration :: "'d modem \<Rightarrow> int \<times> int" where
  "registration m =
     (reg_state (voice_registration_status (m_network m)), reg_state (data_registration_status (m_network m)))"

lemma same_due_network:
  "same_due t (m\<lparr>m_network := n\<rparr>) m' \<Longrightarrow> m_network m' = n \<and> due t (m_looper m') = due t (m_looper m) \<and>
     (looper_sorted (m_looper m) \<longrightarrow> looper_sorted (m_looper m'))"
  by (simp add: same_due_def)

lemma run_callback_due:
  "due (steady_now env) (m_looper (fst (run_callback env cb m))) = due (steady_now env) (m_looper m) \<and>
   (looper_sorted (m_looper m) \<longrightarrow> looper_sorted (m_looper (fst (run_callback env cb m)))) \<and>
   registration (fst (run_callback env cb m)) = (case cb of CbUpdateRegisterState st \<Rightarrow> (st, st) | _ \<Rightarrow> registration m)"
proof (cases cb)
  case (CbTimerWaitingRemoteCallResponse i num)
  obtain s evs where t: "TimerWaitingRemoteCallResponse i num (m_call m) = (s, evs)" by fastforce
  then have "\<forall>ev \<in> set evs. later_event ev"
    using later_events by (auto simp: TimerWaitingRemoteCallResponse_def split: option.splits if_splits)
  from modem_events_due [OF this, of env "m\<lparr>m_call := s\<rparr>"] show ?thesis
    by (simp add: CbTimerWaitingRemoteCallResponse t same_due_def registration_def)
next
  case (CbUpdateRegisterState st)
  obtain s evs where t: "UpdateRegisterState st (m_network m) = (s, evs)" by fastforce
  then have "\<forall>ev \<in> set evs. later_event ev"
    and reg: "reg_state (voice_registration_status s) = st" "reg_state (data_registration_status s) = st"
    using later_events(1-3) by (auto simp: UpdateRegisterState_def Let_def)
  from same_due_network [OF modem_events_due [OF this(1), of env "m\<lparr>m_network := s\<rparr>"]] reg show ?thesis
    by (simp add: CbUpdateRegisterState t registration_def)
next
  case CbUpdateSignalStrength
  obtain s evs where t: "UpdateSignalStrengthCallback (m_network m) = (s, evs)" by fastforce
  then have "\<forall>ev \<in> set evs. later_event ev"
    and "voice_registration_status s = voice_registration_status (m_network m)"
      "data_registration_status s = data_registration_status (m_network m)"
    using later_events(3) by (auto simp: UpdateSignalStrengthCallback_def Let_def split: if_splits)
  from same_due_network [OF modem_events_due [OF this(1), of env "m\<lparr>m_network := s\<rparr>"]] this(2,3) show ?thesis
    by (simp add: CbUpdateSignalStrength t registration_def)
qed (use modem_events_due [of "HandleReceiveSMS (pdu_clock env) _" env m] modem_events_due [of CallStateUpdate env m]
    modem_events_due [OF later_onUpdatePhysicalChannelconfigs, of env m] later_events
    modem_events_due [of "HandleSMSStatuReport (pdu_clock env) (report_clock env) _ _" env m]
  in \<open>auto simp: same_due_def registration_def\<close>)

text \<open>A round that runs a callback\<close>

lemma modem_round_runs:
  assumes "ThreadLoop_round (steady_now env) (m_looper m) = (LoopRuns e, l)" and "modem_round env m = (m', evs)"
  shows "due (steady_now env) (m_looper m) = e # due (steady_now env) (m_looper m')"
    "looper_sorted (m_looper m) \<Longrightarrow> looper_sorted (m_looper m')"
    "registration m' = (case callback e of CbUpdateRegisterState st \<Rightarrow> (st, st) | _ \<Rightarrow> registration m)"
proof -
  from assms(1) obtain q where q: "queue (m_looper m) = e # q" "at_time e \<le> steady_now env" "l = (m_looper m)\<lparr>queue := q\<rparr>"
    by (auto simp: ThreadLoop_round_def Let_def split: if_splits list.splits)
  have m': "m' = fst (run_callback env (callback e) (m\<lparr>m_looper := l\<rparr>))" using assms by (simp add: modem_round_def)
  note run = run_callback_due [of env "callback e" "m\<lparr>m_looper := l\<rparr>", folded m']
  show "due (steady_now env) (m_looper m) = e # due (steady_now env) (m_looper m')" using run q by (simp add: due_def)
  show "looper_sorted (m_looper m) \<Longrightarrow> looper_sorted (m_looper m')" using run q by (simp add: looper_sorted_def)
  show "registration m' = (case callback e of CbUpdateRegisterState st \<Rightarrow> (st, st) | _ \<Rightarrow> registration m)"
    using run by (simp add: registration_def split: modem_callback.splits)
qed

text \<open>The rounds of the looper at one time, until no event is due\<close>

function modem_run_due :: "('d, 'e) modem_env \<Rightarrow> 'd modem \<Rightarrow> 'd modem \<times> event list" where
  "modem_run_due env m =
     (case ThreadLoop_round (steady_now env) (m_looper m) of
        (LoopRuns e, l) \<Rightarrow>
          let (m, evs) = modem_round env m; (m, evs') = modem_run_due env m in (m, evs @ evs')
      | _ \<Rightarrow> (m, []))"
  by pat_completeness auto
termination
  by (relation "measure (\<lambda>(env, m). length (due (steady_now env) (m_looper m)))") 
    (simp, fastforce dest: modem_round_runs(1) [OF sym sym])

declare modem_run_due.simps [simp del]

section \<open>Unlocking the SIM registers the device\<close>

text \<open>The registration states that the due callbacks set, in order\<close>

definition due_registrations :: "int \<Rightarrow> modem_callback looper \<Rightarrow> int list" where
  "due_registrations t l =
     concat (map (\<lambda>e. case callback e of CbUpdateRegisterState st \<Rightarrow> [st] | _ \<Rightarrow> []) (due t l))"

lemma modem_run_due_registration:
  assumes "looper_sorted (m_looper m)"
    and "due_registrations (steady_now env) (m_looper m) = [] \<Longrightarrow> registration m = (st, st)"
    and "due_registrations (steady_now env) (m_looper m) \<noteq> [] \<Longrightarrow> last (due_registrations (steady_now env) (m_looper m)) = st"
  shows "registration (fst (modem_run_due env m)) = (st, st)"
  using assms
proof (induction env m rule: modem_run_due.induct)
  case (1 env m)
  obtain act l where round: "ThreadLoop_round (steady_now env) (m_looper m) = (act, l)" by fastforce
  show ?case
  proof (cases "\<exists>e. act = LoopRuns e")
    case True
    then obtain e where e: "act = LoopRuns e" ..
    obtain m' evs where m': "modem_round env m = (m', evs)" by fastforce
    note runs = modem_round_runs [OF round [unfolded e] m']
    have "registration (fst (modem_run_due env m')) = (st, st)"
    proof (rule "1.IH" [OF round [symmetric] e m' [symmetric] refl])
      show "looper_sorted (m_looper m')" using runs(2) "1.prems"(1) .
      show "registration m' = (st, st)" if "due_registrations (steady_now env) (m_looper m') = []"
        using that runs(1,3) "1.prems"(2,3) by (auto simp: due_registrations_def split: modem_callback.splits)
      show "last (due_registrations (steady_now env) (m_looper m')) = st"
        if "due_registrations (steady_now env) (m_looper m') \<noteq> []"
        using that runs(1) "1.prems"(3) by (auto simp: due_registrations_def split: modem_callback.splits)
    qed
    then show ?thesis by (simp add: modem_run_due.simps [of env m] round e m' case_prod_unfold Let_def)
  next
    case False
    then have "due (steady_now env) (m_looper m) = []"
      using round "1.prems"(1)
      by (cases "queue (m_looper m)") (auto simp: ThreadLoop_round_def looper_sorted_def due_def Let_def filter_empty_conv
          split: if_splits)
    then have "registration m = (st, st)" using "1.prems"(2) by (simp add: due_registrations_def)
    moreover have "modem_run_due env m = (m, [])"
      using False by (cases act) (auto simp: modem_run_due.simps [of env m] round)
    ultimately show ?thesis by simp
  qed
qed

lemma unlock_command:
  assumes "\<not> modem_waiting m" and "sim_status (m_sim m) = SIM_STATUS_PIN"
    and "VerifyPIN p (pin1_status (m_sim m)) = Inr (True, st)"
  shows "handle_command env next_id client (''AT+CPIN='' @ p) m =
    Inr (m\<lparr>m_sim := (m_sim m)\<lparr>pin1_status := st, sim_status := SIM_STATUS_READY\<rparr>\<rparr>,
         [SimStatusChanged] @ SendCommandResponse client ''OK'')"
proof -
  let ?cmd = "''AT+CPIN='' @ p" and ?s = "(m_sim m)\<lparr>pin1_status := st, sim_status := SIM_STATUS_READY\<rparr>"
  have "SkipPrefix ?cmd = p" by (simp add: SkipPrefix_def skip_past_def find_char_def)
  then have "HandleChangeOrEnterPIN client ?cmd (m_sim m) = Inr (?s, [SimStatusChanged] @ SendCommandResponse client ''OK'')"
    using assms(2,3)
    by (simp add: HandleChangeOrEnterPIN_def checkPin1AndAdjustSimStatus_def set_sim_status_def password_response_def)
  then have "HandleModemCommand (sim_handlers (xml env)) client ?cmd (m_sim m) =
      Inr (Some (?s, [SimStatusChanged] @ SendCommandResponse client ''OK''))"
    unfolding sim_handlers_def HandleModemCommand.simps Compare_partial Compare_full handler_sel
    by (simp add: starts_with_def)
  then have "first_service (modem_services env next_id m) client ?cmd m =
      Inr (Some (m\<lparr>m_sim := ?s\<rparr>, [SimStatusChanged] @ SendCommandResponse client ''OK''))"
    by (simp add: modem_services_def offer_def)
  then show ?thesis using assms(1) by (simp add: handle_command_def modem_waiting_def)
qed

lemma filter_Insert_last:
  "sorted (map at_time q) \<Longrightarrow> filter (\<lambda>e. at_time e \<le> at_time x) (Insert x q) = filter (\<lambda>e. at_time e \<le> at_time x) q @ [x]"
proof (induction x q rule: Insert.induct)
  case (2 x e q)
  have "filter (\<lambda>e. at_time e \<le> at_time x) q = []" if "at_time x < at_time e"
    using that "2.prems" by (auto simp: filter_empty_conv)
  with 2 show ?case by (auto simp: event_le_def)
qed simp

text \<open>
  C5. Entering the right PIN with the radio on answers \<open>OK\<close> and makes the SIM ready, and one second later, when the
  looper has run what is due, the device is registered at home for calls and for data.  This holds whatever other
  callbacks were waiting: a registration that was posted before is overtaken.
\<close>
theorem unlock_registers:
  assumes "\<not> modem_waiting m" and "sim_status (m_sim m) = SIM_STATUS_PIN"
    and "VerifyPIN p (pin1_status (m_sim m)) = Inr (True, st)" and "radio_state (m_network m) \<noteq> RADIO_STATE_OFF"
    and "looper_sorted (m_looper m)" and "steady_now env' = steady_now env + 1000000000"
  shows "\<exists>m'. modem_DispatchCommand env next_id client (''AT+CPIN='' @ p) m = Inr (m', SendCommandResponse client ''OK'') \<and>
    sim_status (m_sim m') = SIM_STATUS_READY \<and>
    registration (fst (modem_run_due env' m')) = (NET_REGISTRATION_HOME, NET_REGISTRATION_HOME)"
proof -
  let ?s = "(m_sim m)\<lparr>pin1_status := st, sim_status := SIM_STATUS_READY\<rparr>"
  define n where "n = (m_network m)\<lparr>voice_registration_status :=
      (voice_registration_status (m_network m))\<lparr>reg_state := NET_REGISTRATION_HOME\<rparr>\<rparr>"
  define e where "e = \<lparr>at_time = steady_now env + 1000000000, callback = CbUpdateRegisterState NET_REGISTRATION_HOME,
      serial = next_serial (m_looper m)\<rparr>"
  define l where "l = (m_looper m)\<lparr>next_serial := wrap_int32 (next_serial (m_looper m) + 1), queue := Insert e (queue (m_looper m))\<rparr>"
  define m' where "m' = m\<lparr>m_sim := ?s, m_network := n, m_looper := l\<rparr>"
  have "OnSimStatusChanged SIM_STATUS_READY (m_network m) = (n, [PostCallback (CbUpdateRegisterState NET_REGISTRATION_HOME) 1000])"
    using assms(4) by (simp add: OnSimStatusChanged_def n_def)
  then have "modem_event env SimStatusChanged (m\<lparr>m_sim := ?s\<rparr>) = (m', [])"
    by (simp add: m'_def l_def e_def PostDelayed_def Let_def)
  moreover have "modem_events env (SendCommandResponse client ''OK'') m' = (m', SendCommandResponse client ''OK'')"
    by (simp add: SendCommandResponse_def)
  ultimately have cmd: "modem_DispatchCommand env next_id client (''AT+CPIN='' @ p) m = Inr (m', SendCommandResponse client ''OK'')"
    unfolding modem_DispatchCommand_def unlock_command [OF assms(1-3)] by simp
  have "due (steady_now env') l = due (steady_now env') (m_looper m) @ [e]"
    using filter_Insert_last [of "queue (m_looper m)" e] assms(5,6) by (simp add: due_def l_def e_def looper_sorted_def)
  then have "last (due_registrations (steady_now env') l) = NET_REGISTRATION_HOME" "due_registrations (steady_now env') l \<noteq> []"
    by (simp_all add: due_registrations_def e_def)
  moreover have "looper_sorted l" using assms(5) sorted_Insert by (auto simp: looper_sorted_def l_def)
  ultimately have "registration (fst (modem_run_due env' m')) = (NET_REGISTRATION_HOME, NET_REGISTRATION_HOME)"
    by (intro modem_run_due_registration) (simp_all add: m'_def)
  with cmd show ?thesis by (intro exI [of _ m']) (simp add: m'_def)
qed

section \<open>Every reachable modem\<close>

lemma sorted_erase_serial: "sorted (map at_time q) \<Longrightarrow> sorted (map at_time (snd (erase_serial n q)))"
proof (induction n q rule: erase_serial.induct)
  case (2 n e q)
  moreover have "set (snd (erase_serial n q)) \<subseteq> set q"
    by (induction n q rule: erase_serial.induct) (auto simp: case_prod_unfold Let_def)
  ultimately show ?case by (auto simp: case_prod_unfold Let_def)
qed simp

lemma base_event_sorted: "looper_sorted (m_looper m) \<Longrightarrow> looper_sorted (m_looper (fst (base_event env ev m)))"
  by (cases ev)
    (auto simp: looper_sorted_def PostDelayed_def CancelSerial_def Let_def case_prod_unfold sorted_Insert sorted_erase_serial)

lemma base_events_sorted: "looper_sorted (m_looper m) \<Longrightarrow> looper_sorted (m_looper (fst (base_events env evs m)))"
  by (induction evs arbitrary: m) (simp_all add: case_prod_unfold Let_def base_event_sorted)

lemma modem_event_sorted: "looper_sorted (m_looper m) \<Longrightarrow> looper_sorted (m_looper (fst (modem_event env ev m)))"
  by (cases ev) (simp_all add: case_prod_unfold Let_def base_events_sorted base_event_sorted del: base_event.simps)

lemma modem_events_sorted: "looper_sorted (m_looper m) \<Longrightarrow> looper_sorted (m_looper (fst (modem_events env evs m)))"
  by (induction evs arbitrary: m) (simp_all add: case_prod_unfold Let_def modem_event_sorted)

lemma handle_command_looper:
  assumes "handle_command env next_id client cmd m = Inr (m', evs)"
  shows "m_looper m' = m_looper m"
proof -
  have "m_looper m1 = m_looper m"
    if "first_service (modem_services env next_id m) client cmd m = Inr (Some (m1, evs1))" for m1 evs1
    using first_service_Some [OF that] unfolding modem_services_def set_simps
    by (elim bexE insertE emptyE) (auto simp: offer_Some)
  with assms show ?thesis
    by (auto simp: handle_command_def rbind_eq_Inr split: if_splits option.splits)
qed

lemma modem_round_sorted:
  assumes "modem_round env m = (m', evs)" and "looper_sorted (m_looper m)"
  shows "looper_sorted (m_looper m')"
proof -
  obtain act l where l: "ThreadLoop_round (steady_now env) (m_looper m) = (act, l)" by fastforce
  show ?thesis
  proof (cases act)
    case (LoopRuns e)
    with modem_round_runs(2) l assms show ?thesis by blast
  qed (use l assms in \<open>auto simp: modem_round_def ThreadLoop_round_def Let_def split: if_splits list.splits\<close>)
qed

lemma modem_step_sorted: "modem_step x m evs m' \<Longrightarrow> looper_sorted (m_looper m) \<Longrightarrow> looper_sorted (m_looper m')"
proof (induction rule: modem_step.induct)
  case (command env next_id client cmd m m' evs)
  then obtain m1 evs1 where cmd: "handle_command env next_id client cmd m = Inr (m1, evs1)"
    and m': "m' = fst (modem_events env evs1 m1)"
    by (auto simp: modem_DispatchCommand_def rbind_eq_Inr)
  with handle_command_looper [OF cmd] command.prems show ?case by (simp add: modem_events_sorted)
next
  case (round env m m' evs)
  then show ?case using modem_round_sorted by blast
qed (auto simp: modem_OnFirstClientConnected_def modem_SetTimeZone_def modem_SetPhoneNumber_def modem_SaveModemState_def
    rbind_eq_Inr)

lemma modem_reachable_sorted: "modem_reachable x m \<Longrightarrow> looper_sorted (m_looper m)"
proof (induction rule: modem_reachable.induct)
  case (start env senv d fs tz items nv m evs)
  then obtain n sim e where m: "modem_events env e
      \<lparr>m_sim = sim, m_network = n, m_data = DataService, m_call = CallService (nv_emergency_mode nv),
       m_sms = SmsService, m_sup = SupService, m_stk = StkService, m_misc = ParseTimeZone tz,
       m_looper = ThreadLooper, m_nvram = nv\<rparr> = (m, evs)" (is "modem_events env e ?m = _")
    by (auto simp: RegisterModemService_def rbind_eq_Inr)
  with modem_events_sorted [of ?m env e] show ?case by (simp add: looper_sorted_def ThreadLooper_def)
qed (simp add: modem_step_sorted)

text \<open>
  C3. In every modem that can be reached, whatever commands, callbacks and requests of the main program came in whatever
  order, the invariants of all services hold together: the list of operators and the registration of the network
  service, the data contexts, the calls, the stored messages, the supplementary settings, the channels and locks of the
  SIM.  The modem never waits for a message to send and for one to store at once, and the events of its looper are in the
  order of their times.
\<close>
theorem modem_invariant:
  assumes "modem_reachable x m"
  shows "modem_inv m \<and> looper_sorted (m_looper m)"
  using modem_reachable_inv [OF assms] modem_reachable_sorted [OF assms] by blast

text \<open>
  C18. Behind the channel of any client, a modem that waits for the text of a message takes all bytes up to the first
  control-Z as that text, line ends included, and then waits no longer: what follows the control-Z is cut at line ends
  again, so that the next command reaches the handlers as it was sent.
\<close>
theorem message_framed:
  assumes "modem mon = (m, k)" and "modem_reachable x m" and "modem_waiting m" and "pdu \<noteq> []" and "CHR 0x1A \<notin> set pdu"
    and "cmd \<noteq> []" and "CHR 0x0D \<notin> set cmd" and "dispatch (ModemSimulator envs) c pdu mon = Inr mon'"
  shows "split_commands (ModemSimulator envs) c (pdu @ [CHR 0x1A] @ cmd @ [CHR 0x0D] @ rest) mon =
    rbind (dispatch (ModemSimulator envs) c cmd mon') (split_commands (ModemSimulator envs) c rest)"
  by (rule ms.message_framing) (use assms modem_reachable_inv in \<open>auto simp: ModemSimulator_def\<close>)

section \<open>A modem at work\<close>

definition sample_env :: "int \<Rightarrow> (nat \<Rightarrow> string option, nat) modem_env" where
  "sample_env now =
     \<lparr>xml = sample_xml, modem_host_id = 0, cvd_open = (\<lambda>_. False), modem_ConsumePrefix = (\<lambda>s _. s),
      modem_config = \<lparr>ril_address_and_prefix = ''10.0.2.15/24'', ril_dns = ''8.8.8.8'', ril_gateway = ''10.0.2.2''\<rparr>,
      seconds_now = 0, pdu_clock = sample_clock, report_clock = sample_clock,
      misc_now = \<lparr>gm_time = sample_clock, tm_isdst = 0\<rparr>, steady_now = now\<rparr>"

lemma sample_start:
  "\<exists>m evs. RegisterModemService (sample_env 0) sample_sim_env (\<lambda>_. None) (\<lambda>_. None) None None InitDefaultNvramConfig = Inr (m, evs) \<and>
     m_sms m = SmsService"
proof -
  obtain n e where n: "NetworkService InitDefaultNvramConfig = Inr (n, e)" using default_service by blast
  obtain sim where sim: "SimService sample_xml sample_sim_env (\<lambda>_. None) (\<lambda>_. None) = Inr sim" and doc: "doc sim = (\<lambda>_. None)"
    by (simp add: SimService_def InitializeSimFileSystemAndSimState_def InitializeFacilityLock_def file_usable_def
        sample_xml_def FirstChildElement_def Let_def)
  from doc have "GetSimOperator sample_xml sim = Inr []"
    by (simp add: GetSimOperator_def Let_def bind_element_def sample_xml_def FindAttribute_def MF_SIM_def DF_ADF_def)
  with n sim have "RegisterModemService (sample_env 0) sample_sim_env (\<lambda>_. None) (\<lambda>_. None) None None InitDefaultNvramConfig =
      Inr (modem_events (sample_env 0) e
        \<lparr>m_sim = sim, m_network = n, m_data = DataService, m_call = CallService (nv_emergency_mode InitDefaultNvramConfig),
         m_sms = SmsService, m_sup = SupService, m_stk = StkService, m_misc = ParseTimeZone None,
         m_looper = ThreadLooper, m_nvram = InitDefaultNvramConfig\<rparr>)" (is "_ = Inr (modem_events _ e ?m)")
    by (simp add: RegisterModemService_def InitializeSimOperator_def) (simp add: sample_env_def)
  moreover have "m_sms (fst (modem_events (sample_env 0) e ?m)) = SmsService"
    using modem_events_services [of "sample_env 0" e ?m] by (simp add: other_services_def)
  ultimately show ?thesis by (cases "modem_events (sample_env 0) e ?m") simp
qed

lemma sample_message:
  assumes "m_sms m = SmsService"
  shows "modem_DispatchCommand (sample_env 0) 0 ril ''AT+CMGS=5'' m =
    Inr (m\<lparr>m_sms := SmsService\<lparr>is_waiting_sms_pdu := True\<rparr>\<rparr>, SendCommandResponses ril [''> ''])"
proof -
  let ?S = "modem_services (sample_env 0) 0 m" and ?cmd = "''AT+CMGS=5''"
  have key: "(PARTIAL_MATCH, ''+CMGS'') \<in> set (service_keys ! 4)" by (simp add: service_keys_def)
  have "first_service ?S ril ?cmd m = (?S ! 4) ril ?cmd m"
    by (rule first_service_at [OF _ key]) (simp_all add: ambiguous_def starts_with_def)
  also have "\<dots> = Inr (Some (m\<lparr>m_sms := SmsService\<lparr>is_waiting_sms_pdu := True\<rparr>\<rparr>, SendCommandResponses ril [''> '']))"
    by (simp add: modem_services_def offer_def sms_handlers_def Compare_partial starts_with_def HandleSendSMS_def assms)
  finally show ?thesis
    by (simp add: modem_DispatchCommand_def handle_command_def assms SmsService_def SendCommandResponses_def SendCommandResponse_def)
qed

lemma waiting_modem: "\<exists>m. modem_reachable sample_xml m \<and> m_sms m = SmsService\<lparr>is_waiting_sms_pdu := True\<rparr>"
proof -
  obtain m evs where "RegisterModemService (sample_env 0) sample_sim_env (\<lambda>_. None) (\<lambda>_. None) None None InitDefaultNvramConfig = Inr (m, evs)"
    and m: "m_sms m = SmsService" using sample_start by blast
  then have "modem_reachable sample_xml m" using modem_reachable.start [of "sample_env 0"] by (simp add: sample_env_def)
  moreover have "modem_step sample_xml m (SendCommandResponses ril [''> '']) (m\<lparr>m_sms := SmsService\<lparr>is_waiting_sms_pdu := True\<rparr>\<rparr>)"
    by (rule modem_step.command [OF _ sample_message [OF m]]) (simp add: sample_env_def)
  ultimately have "modem_reachable sample_xml (m\<lparr>m_sms := SmsService\<lparr>is_waiting_sms_pdu := True\<rparr>\<rparr>)"
    by (rule modem_reachable.step)
  then show ?thesis by (intro exI [of _ "m\<lparr>m_sms := _\<rparr>"] conjI) simp_all
qed

theorem modem_invariant_witness:
  "\<exists>m. modem_reachable sample_xml m \<and> modem_waiting m \<and> modem_inv m \<and> looper_sorted (m_looper m)"
proof -
  obtain m where m: "modem_reachable sample_xml m" and "m_sms m = SmsService\<lparr>is_waiting_sms_pdu := True\<rparr>"
    using waiting_modem by blast
  then have "modem_waiting m" by (simp add: modem_waiting_def)
  with m modem_invariant [OF m] show ?thesis by blast
qed

theorem message_framed_witness:
  "\<exists>m mon mon'. modem_reachable sample_xml m \<and> modem_waiting m \<and> modem mon = (m, 0) \<and>
     split_commands (ModemSimulator (\<lambda>k. sample_env (int k))) ril
       ((''00'' @ [CHR 0x0D] @ ''11'') @ [CHR 0x1A] @ ''AT+CSQ'' @ [CHR 0x0D] @ ''AT'') mon =
     rbind (dispatch (ModemSimulator (\<lambda>k. sample_env (int k))) ril ''AT+CSQ'' mon')
       (split_commands (ModemSimulator (\<lambda>k. sample_env (int k))) ril ''AT'')"
proof -
  let ?vm = "ModemSimulator (\<lambda>k. sample_env (int k))" and ?pdu = "''00'' @ [CHR 0x0D] @ ''11''"
  obtain m where m: "modem_reachable sample_xml m" and sms: "m_sms m = SmsService\<lparr>is_waiting_sms_pdu := True\<rparr>"
    using waiting_modem by blast
  then have wait: "modem_waiting m" by (simp add: modem_waiting_def)
  define mon where "mon = \<lparr>modem = (m, 0 :: nat), clients = [Client 0 RIL], remote_clients = [], next_client_id = 1, written = []\<rparr>"
  have mon: "modem mon = (m, 0)" by (simp add: mon_def)
  have "\<not> is_valid_pdu (DecodePDU ?pdu)" by code_simp
  then have "\<exists>m' evs. modem_DispatchCommand (sample_env 0) (next_client_id mon) ril ?pdu m = Inr (m', evs)"
    using sms by (simp add: modem_DispatchCommand_def handle_command_def HandleSendSMSPDU_def Let_def)
  then obtain mon' where d: "dispatch ?vm ril ?pdu mon = Inr mon'"
    by (auto simp: dispatch_def ModemSimulator_def mon)
  show ?thesis
    by (rule exI [of _ m], rule exI [of _ mon], rule exI [of _ mon'])
      (use m wait mon message_framed [OF mon m wait _ _ _ _ d, of "''AT+CSQ''" "''AT''"] in \<open>auto\<close>)
qed

theorem service_order_witness:
  "\<exists>m. modem_reachable sample_xml m \<and>
     first_service (rev (modem_services (sample_env 0) 0 m)) ril ''AT+CPIN?'' m =
     first_service (modem_services (sample_env 0) 0 m) ril ''AT+CPIN?'' m"
proof -
  obtain m where m: "modem_reachable sample_xml m" using waiting_modem by blast
  have "\<not> ambiguous ''AT+CPIN?''" by (simp add: ambiguous_def starts_with_def)
  with service_order [of "rev (modem_services (sample_env 0) 0 m)"] m show ?thesis by (metis set_rev)
qed

theorem unlock_registers_witness:
  "\<exists>m m'. sim_status (m_sim m) = SIM_STATUS_PIN \<and>
     modem_DispatchCommand (sample_env 5) 0 ril (''AT+CPIN='' @ ''4711'') m = Inr (m', SendCommandResponse ril ''OK'') \<and>
     sim_status (m_sim m') = SIM_STATUS_READY \<and>
     registration (fst (modem_run_due (sample_env 1000000005) m')) = (NET_REGISTRATION_HOME, NET_REGISTRATION_HOME)"
proof -
  obtain m0 evs where "RegisterModemService (sample_env 0) sample_sim_env (\<lambda>_. None) (\<lambda>_. None) None None InitDefaultNvramConfig = Inr (m0, evs)"
    and sms: "m_sms m0 = SmsService" using sample_start by blast
  then have "modem_reachable sample_xml m0" using modem_reachable.start [of "sample_env 0"] by (simp add: sample_env_def)
  then have sorted: "looper_sorted (m_looper m0)" by (rule modem_reachable_sorted)
  define m where "m = m0\<lparr>m_sim := sample_sim SIM_STATUS_PIN 3 10, m_network := (m_network m0)\<lparr>radio_state := RADIO_STATE_ON\<rparr>\<rparr>"
  have "VerifyPIN ''4711'' (pin1_status (m_sim m)) = Inr (True, pin1_status (sample_sim SIM_STATUS_PIN 3 10))"
    by (simp add: m_def sample_sim_def) code_simp
  moreover have "\<not> modem_waiting m" "sim_status (m_sim m) = SIM_STATUS_PIN" "radio_state (m_network m) \<noteq> RADIO_STATE_OFF"
    "looper_sorted (m_looper m)"
    using sms sorted by (simp_all add: m_def modem_waiting_def SmsService_def sample_sim_def)
  moreover have "steady_now (sample_env 1000000005) = steady_now (sample_env 5) + 1000000000" by (simp add: sample_env_def)
  ultimately show ?thesis
    using unlock_registers [of m "''4711''" "pin1_status (sample_sim SIM_STATUS_PIN 3 10)" "sample_env 1000000005" "sample_env 5" 0 ril]
    by blast
qed

end
