(* ===== verification/Send_Sms.thy ===== *)
theory Send_Sms
  imports Modem_System
begin

text \<open>
  Sending a message to a device from the host (\<open>host/commands/cvd_send_sms/pdu_format_builder.{h,cc}\<close>,
  \<open>sms_sender.{h,cc}\<close>), and the server loop of the modem simulator that takes the connection
  (\<open>host/commands/modem_simulator/main.cpp\<close>): from the text on the command line to what the radio interface of the
  device is told.

  The ICU library is a parameter: \<open>UnicodeString\<close> gives the UTF-16 units of a text and \<open>strToUTF8\<close> the UTF-8 text of
  one unit, or a failure.
\<close>

section \<open>The alphabet\<close>

text \<open>Neighbouring entries that are single ASCII characters are written as one text, each character an entry.\<close>

definition entries :: "string \<Rightarrow> string list" where
  "entries s = map (\<lambda>c. [c]) s"

definition kGSM7BitDefaultAlphabet :: "string list" where
  "kGSM7BitDefaultAlphabet =
     [''@'', [CHR 0xC2, CHR 0xA3], ''$'', [CHR 0xC2, CHR 0xA5], [CHR 0xC3, CHR 0xA8], [CHR 0xC3, CHR 0xA9],
      [CHR 0xC3, CHR 0xB9], [CHR 0xC3, CHR 0xAC], [CHR 0xC3, CHR 0xB2], [CHR 0xC3, CHR 0x87], [CHR 0x0A],
      [CHR 0xC3, CHR 0x98], [CHR 0xC3, CHR 0xB8], [CHR 0x0D], [CHR 0xC3, CHR 0x85], [CHR 0xC3, CHR 0xA5],
      [CHR 0xCE, CHR 0x94], ''_'', [CHR 0xCE, CHR 0xA6], [CHR 0xCE, CHR 0x93], [CHR 0xCE, CHR 0x9B],
      [CHR 0xCE, CHR 0xA9], [CHR 0xCE, CHR 0xA0], [CHR 0xCE, CHR 0xA8], [CHR 0xCE, CHR 0xA3],
      [CHR 0xCE, CHR 0x98], [CHR 0xCE, CHR 0x9E], [CHR 0xEF, CHR 0xBF, CHR 0xBF], [CHR 0xC3, CHR 0x86],
      [CHR 0xC3, CHR 0xA6], [CHR 0xC3, CHR 0x9F], [CHR 0xC3, CHR 0x89]] @
     entries '' !'' @ [[CHR 0x22]] @ entries ''#'' @ [[CHR 0xC2, CHR 0xA4]] @ entries ''%&'' @ [[CHR 0x27]] @
     entries ''()*+,-./0123456789:;<=>?'' @ [[CHR 0xC2, CHR 0xA1]] @ entries ''ABCDEFGHIJKLMNOPQRSTUVWXYZ'' @
     [[CHR 0xC3, CHR 0x84], [CHR 0xC3, CHR 0x96], [CHR 0xC3, CHR 0x91], [CHR 0xC3, CHR 0x9C],
      [CHR 0xC2, CHR 0xA7], [CHR 0xC2, CHR 0xBF]] @ entries ''abcdefghijklmnopqrstuvwxyz'' @
     [[CHR 0xC3, CHR 0xA4], [CHR 0xC3, CHR 0xB6], [CHR 0xC3, CHR 0xB1], [CHR 0xC3, CHR 0xBC], [CHR 0xC3, CHR 0xA0]]"

record icu =
  UnicodeString :: "string \<Rightarrow> 16 word list"
  strToUTF8 :: "16 word \<Rightarrow> string option"

text \<open>\<open>std::find\<close> and \<open>std::distance\<close>\<close>

fun find_position :: "'a \<Rightarrow> 'a list \<Rightarrow> nat option" where
  "find_position x [] = None"
| "find_position x (y # ys) = (if y = x then Some 0 else map_option Suc (find_position x ys))"

definition gsm_code :: "icu \<Rightarrow> 16 word \<Rightarrow> 8 word option" where
  "gsm_code lib uchar =
     (case strToUTF8 lib uchar of
        None \<Rightarrow> None
      | Some dest \<Rightarrow> map_option of_nat (find_position (c_str dest) kGSM7BitDefaultAlphabet))"

section \<open>Packing seven bits\<close>

text \<open>An element of the vector is read or written through an iterator; outside the vector that is undefined.\<close>

definition octet_at :: "8 word list \<Rightarrow> int \<Rightarrow> 8 word result" where
  "octet_at octets i =
     (if 0 \<le> i \<and> i < int (length octets) then Inr (octets ! nat i)
      else Inl (UndefinedBehaviour ''read outside a vector''))"

definition set_octet :: "int \<Rightarrow> 8 word \<Rightarrow> 8 word list \<Rightarrow> 8 word list result" where
  "set_octet i v octets =
     (if 0 \<le> i \<and> i < int (length octets) then Inr (octets[nat i := v])
      else Inl (UndefinedBehaviour ''write outside a vector''))"

text \<open>
  The loop over the characters: \<open>first\<close> is \<open>\<not> iter.hasPrevious()\<close>, \<open>i\<close> the position of \<open>octets_index\<close> and \<open>bits\<close> is
  \<open>bits_to_write_in_prev_octet\<close>.  \<open>None\<close> is the return for a character outside the alphabet.
\<close>

fun gsm7_loop ::
    "icu \<Rightarrow> bool \<Rightarrow> int \<Rightarrow> nat \<Rightarrow> 8 word list \<Rightarrow> 16 word list \<Rightarrow> 8 word list option result" where
  "gsm7_loop lib first i bits octets [] = Inr (Some octets)"
| "gsm7_loop lib first i bits octets (uchar # rest) =
     (case gsm_code lib uchar of
        None \<Rightarrow> Inr None
      | Some code \<Rightarrow>
          rbind (if first then Inr octets
                 else rbind (octet_at octets (i - 1)) (\<lambda>prev.
                        set_octet (i - 1) (or (push_bit (8 - bits) code) prev) octets)) (\<lambda>octets.
            if bits < 7 then
              rbind (set_octet i (drop_bit bits code) octets) (\<lambda>octets.
                gsm7_loop lib False (i + 1) (bits + 1) octets rest)
            else gsm7_loop lib False i 0 octets rest))"

definition octet_text :: "8 word \<Rightarrow> string" where
  "octet_text w = setw0 2 (to_hex (uint w))"

definition Gsm7bitEncode :: "icu \<Rightarrow> string \<Rightarrow> string result" where
  "Gsm7bitEncode lib input =
     (let units = UnicodeString lib (c_str input);
          octets_size = length units - length units div 8
      in rbind (gsm7_loop lib True 0 0 (replicate octets_size 0) units) (\<lambda>octets.
           Inr (case octets of None \<Rightarrow> [] | Some octets \<Rightarrow> concat (map octet_text octets))))"

section \<open>Building the message\<close>

text \<open>The regular expression \<open>^\+?[1-9]\d{1,14}$\<close>\<close>

definition IsValidE164PhoneNumber :: "string \<Rightarrow> bool" where
  "IsValidE164PhoneNumber num =
     (let digits = (if num \<noteq> [] \<and> hd num = CHR ''+'' then tl num else num)
      in digits \<noteq> [] \<and> hd digits \<in> set ''123456789'' \<and> list_all (\<lambda>c. c \<in> set ''0123456789'') (tl digits) \<and>
         1 \<le> length (tl digits) \<and> length (tl digits) \<le> 14)"

fun SemiOctetsEncode :: "string \<Rightarrow> string" where
  "SemiOctetsEncode (a # b # s) = b # a # SemiOctetsEncode s"
| "SemiOctetsEncode [a] = [CHR ''f'', a]"
| "SemiOctetsEncode [] = []"

definition DecimalToHexString :: "int \<Rightarrow> string" where
  "DecimalToHexString n = setw0 2 (to_hex n)"

record PDUFormatBuilder =
  builder_user_data :: string
  sender_number :: string

definition Build :: "icu \<Rightarrow> PDUFormatBuilder \<Rightarrow> string result" where
  "Build lib b =
     (if builder_user_data b = [] then Inr []
      else if sender_number b = [] then Inr []
      else if \<not> IsValidE164PhoneNumber (sender_number b) then Inr []
      else let sender_number_without_plus =
                 (if hd (sender_number b) = CHR ''+'' then drop 1 (sender_number b) else sender_number b);
               ulength = length (UnicodeString lib (c_str (builder_user_data b)))
           in if 160 < ulength then Inr []
              else rbind (Gsm7bitEncode lib (builder_user_data b)) (\<lambda>encoded.
                if encoded = [] then Inr []
                else Inr (''000100'' @ DecimalToHexString (int (length sender_number_without_plus)) @ ''91'' @
                          SemiOctetsEncode sender_number_without_plus @ ''00'' @ ''00'' @
                          DecimalToHexString (int ulength) @ encoded)))"

text \<open>\<open>SmsSender::Send\<close>: the result and what is written; \<open>write_all\<close> tells how many bytes \<open>WriteAll\<close> wrote.\<close>

definition Send ::
    "icu \<Rightarrow> bool \<Rightarrow> (string \<Rightarrow> int) \<Rightarrow> string \<Rightarrow> string \<Rightarrow> nat \<Rightarrow> (bool \<times> string option) result" where
  "Send lib fd_ok write_all sms_body num modem_id =
     (if \<not> fd_ok then Inr (False, None)
      else rbind (Build lib \<lparr>builder_user_data = sms_body, sender_number = num\<rparr>) (\<lambda>pdu_format_str.
             if pdu_format_str = [] then Inr (False, None)
             else let at_command = ''REM'' @ to_dec modem_id @ ''AT+REMOTESMS='' @ pdu_format_str @ [CHR 0x0D]
                  in Inr (write_all at_command = int (length at_command), Some at_command)))"

section \<open>The server loop of the modem simulator\<close>

text \<open>
  A connection gives its first bytes, at most four and fewer when it ends, and what is read next.  The buffer for them
  is filled with spaces.  A request to stop saves the state of each modem and ends the program.
\<close>

fun save_modems ::
    "('d, 'e) modem_env \<Rightarrow> (nat \<Rightarrow> sim_env) \<Rightarrow> nat \<Rightarrow> ('d modem \<times> nat) channel_monitor list \<Rightarrow>
     ('d modem \<times> nat) channel_monitor list result" where
  "save_modems env senvs n [] = Inr []"
| "save_modems env senvs n (mon # mons) =
     rbind (modem_SaveModemState env (senvs n) (fst (modem mon))) (\<lambda>m.
     rbind (save_modems env senvs (Suc n) mons) (\<lambda>mons. Inr (mon\<lparr>modem := (m, snd (modem mon))\<rparr> # mons)))"

datatype 'm server_outcome = Continue "'m channel_monitor list" | Exit "'m channel_monitor list"

definition server_request ::
    "(nat \<Rightarrow> ('d, 'e) modem_env) \<Rightarrow> (nat \<Rightarrow> sim_env) \<Rightarrow> (string \<Rightarrow> string) \<Rightarrow> string \<Rightarrow> string \<Rightarrow> bool \<Rightarrow>
     ('d modem \<times> nat) channel_monitor list \<Rightarrow> ('d modem \<times> nat) server_outcome result" where
  "server_request envs senvs StrReplaceAll bytes buffer again mons =
     (let buf = take 4 (bytes @ ''    '')
      in if bytes = [] then Inr (Continue mons)
      else if buf = ''STOP'' then rbind (save_modems (envs 0) senvs 0 mons) (\<lambda>mons. Inr (Exit mons))
      else if take 3 buf = ''REM'' then
        rbind (stoi 10 (take 1 (drop 3 buf))) (\<lambda>n.
          if int (length mons) \<le> n then Inr (Continue mons)
          else rbind (SetRemoteClient (ModemSimulator envs) StrReplaceAll buffer again (mons ! nat n)) (\<lambda>mon.
                 Inr (Continue (mons[nat n := mon]))))
      else Inr (Continue mons))"

text \<open>\<open>ServerFdsFromCmdline\<close>: the descriptors of a list; \<open>None\<close> is the exit for a list with other characters.\<close>

fun each_stoi :: "string list \<Rightarrow> int list result" where
  "each_stoi [] = Inr []"
| "each_stoi (s # ss) = rbind (stoi 10 s) (\<lambda>n. rbind (each_stoi ss) (\<lambda>ns. Inr (n # ns)))"

definition ServerFdsFromCmdline :: "(char \<Rightarrow> string \<Rightarrow> string list) \<Rightarrow> string \<Rightarrow> int list option result" where
  "ServerFdsFromCmdline StrSplit fd_list =
     (if list_ex (\<lambda>c. c \<noteq> CHR '','' \<and> c \<notin> set ''0123456789'') fd_list then Inr None
      else rbind (each_stoi (StrSplit (CHR '','') fd_list)) (\<lambda>ns. Inr (Some ns)))"

section \<open>What is packed\<close>

text \<open>The number that a list of octets, or of septets, stands for, the lowest first\<close>

abbreviation octets_value :: "8 word list \<Rightarrow> nat" where
  "octets_value os \<equiv> horner_sum unat 256 os"

abbreviation septets_value :: "8 word list \<Rightarrow> nat" where
  "septets_value cs \<equiv> horner_sum unat 128 cs"

lemma find_position_Some: "find_position x xs = Some n \<Longrightarrow> n < length xs \<and> xs ! n = x"
  by (induction xs arbitrary: n) (auto split: if_splits)

lemma length_alphabet: "length kGSM7BitDefaultAlphabet = 128"
  by (simp add: kGSM7BitDefaultAlphabet_def entries_def)

lemma gsm_code_less: "gsm_code lib u = Some c \<Longrightarrow> unat c < 128"
  by (auto simp: gsm_code_def unat_of_nat take_bit_eq_mod length_alphabet split: option.splits dest!: find_position_Some)

lemma octets_value_update:
  "i < length os \<Longrightarrow> octets_value (os[i := v]) + unat (os ! i) * 256 ^ i = octets_value os + unat v * 256 ^ i"
proof (induction os arbitrary: i)
  case (Cons w os)
  then show ?case by (cases i) (force simp: algebra_simps)+
qed simp

lemma octets_value_zeros: "octets_value (replicate n 0) = 0"
  by (induction n) simp_all

lemma horner_sum_snoc: "horner_sum f a (xs @ [x]) = horner_sum f a xs + a ^ length xs * (f x :: nat)"
  by (simp add: horner_sum_append)

lemma unat_push_bit_8: "b \<le> 8 \<Longrightarrow> unat (push_bit (8 - b) (c :: 8 word)) = unat c mod 2 ^ b * 2 ^ (8 - b)"
proof -
  assume b: "b \<le> 8"
  have "unat (push_bit (8 - b) c) = take_bit 8 (push_bit (8 - b) (unat c))" by (simp add: unsigned_push_bit_eq)
  also have "\<dots> = unat c * 2 ^ (8 - b) mod 2 ^ (b + (8 - b))" using b by (simp add: push_bit_eq_mult take_bit_eq_mod)
  also have "\<dots> = unat c mod 2 ^ b * 2 ^ (8 - b)" by (simp only: power_add mult_mod_left)
  finally show ?thesis .
qed

lemma unat_drop_bit_8: "unat (drop_bit b (c :: 8 word)) = unat c div 2 ^ b"
  by (simp add: unat_drop_bit_eq flip: drop_bit_eq_div)

lemma pack_octet:
  assumes "b \<le> 8" and "unat (prev :: 8 word) < 2 ^ (8 - b)"
  shows "unat (or (push_bit (8 - b) c) prev) = unat c mod 2 ^ b * 2 ^ (8 - b) + unat prev"
proof -
  have "\<not> bit prev n" if "8 - b \<le> n" for n
  proof -
    have "take_bit (8 - b) (unat prev) = unat prev" using assms(2) by (simp add: take_bit_nat_eq_self)
    then have "\<not> bit (unat prev) n" using that bit_take_bit_iff [of "8 - b" "unat prev" n] by simp
    then show ?thesis by (simp add: bit_unsigned_iff)
  qed
  then have "and (push_bit (8 - b) c) prev = 0"
    by (intro bit_eqI) (simp only: bit_and_iff bit_push_bit_iff bit_0_eq bot_apply bot_bool_def, blast)
  then have "or (push_bit (8 - b) c) prev = push_bit (8 - b) c + prev"
    using word_plus_and_or [of "push_bit (8 - b) c" prev] by simp
  moreover have "unat c mod 2 ^ b * 2 ^ (8 - b) + unat prev < 256"
  proof -
    have "unat c mod 2 ^ b + 1 \<le> 2 ^ b" by (simp add: Suc_le_eq)
    then have "(unat c mod 2 ^ b + 1) * 2 ^ (8 - b) \<le> 2 ^ b * 2 ^ (8 - b)" by (rule mult_le_mono1)
    also have "\<dots> = 256" using assms(1) by (simp flip: power_add)
    finally show ?thesis using assms(2) by (simp add: algebra_simps)
  qed
  ultimately show ?thesis using assms(1) by (simp add: unat_word_ariths unat_push_bit_8)
qed

lemma septet_parts:
  assumes "P * Q = (256 :: nat)"
  shows "x mod P * Q + 256 * (x div P) = x * Q"
proof -
  have "x * Q = (x mod P + P * (x div P)) * Q" by simp
  also have "\<dots> = x mod P * Q + (P * Q) * (x div P)" by (simp only: add_mult_distrib) (simp only: ac_simps)
  finally show ?thesis by (simp add: assms)
qed

text \<open>A septet: its low part in the previous octet, its high part in the next\<close>

lemma pack_septet:
  assumes "b \<le> 8" and "unat (prev :: 8 word) < 2 ^ (8 - b)"
  shows "unat (or (push_bit (8 - b) c) prev) + 256 * unat (drop_bit b c) = unat prev + unat c * 2 ^ (8 - b)"
proof -
  have "(2 :: nat) ^ b * 2 ^ (8 - b) = 256" using assms(1) by (simp flip: power_add)
  from septet_parts [OF this] show ?thesis by (simp only: pack_octet [OF assms] unat_drop_bit_8) simp
qed

text \<open>Seven bits for each of \<open>k\<close> characters: the octets that are begun, and the bits free in the last one\<close>

lemma septet_position:
  assumes "0 < k"
  shows "2 ^ (8 - k mod 8) * 256 ^ (k - k div 8 - 1) = (128 :: nat) ^ k"
proof -
  define q r where "q = k div 8" and "r = k mod 8"
  have "k = 8 * q + r" "r < 8" by (simp_all add: q_def r_def)
  with assms have "8 - r + 8 * (k - q - 1) = 7 * k" by arith
  then have "8 - k mod 8 + 8 * (k - k div 8 - 1) = 7 * k" by (simp add: q_def r_def)
  moreover have "(256 :: nat) = 2 ^ 8" "(128 :: nat) = 2 ^ 7" by simp_all
  ultimately show ?thesis by (simp only: power_mult [symmetric] power_add [symmetric])
qed

text \<open>
  The state of the loop after the characters with the codes \<open>cs\<close>, when there are \<open>n\<close> in all: the octets hold these
  codes, the free bits of the last octet that is begun are zero, and so are all later octets.
\<close>

definition packed :: "nat \<Rightarrow> 8 word list \<Rightarrow> 8 word list \<Rightarrow> bool" where
  "packed n cs os \<longleftrightarrow>
     (let k = length cs; i = k - k div 8
      in length os = n - n div 8 \<and> octets_value os = septets_value cs \<and>
         (0 < k \<longrightarrow> unat (os ! (i - 1)) < 2 ^ (8 - k mod 8)) \<and> (\<forall>j < length os. i \<le> j \<longrightarrow> os ! j = 0))"

lemma octets_Suc: "Suc k - Suc k div 8 = (if k mod 8 = 7 then k - k div 8 else Suc (k - k div 8))"
proof -
  have "k div 8 \<le> k" by simp
  then show ?thesis by (simp add: div_Suc mod_Suc Suc_diff_le)
qed

lemma octets_mono: "k \<le> n \<Longrightarrow> k - k div 8 \<le> n - n div (8 :: nat)"
  by (induction rule: dec_induct) (auto simp: octets_Suc)

lemma position_less: "k < n \<Longrightarrow> k mod 8 \<noteq> 7 \<Longrightarrow> k - k div 8 < n - n div (8 :: nat)"
  using octets_mono [of "Suc k" n] by (simp add: octets_Suc)

lemma position_pos: "0 < k \<Longrightarrow> 0 < k - k div (8 :: nat)"
  by simp

text \<open>The octets after one more character\<close>

definition pack_code :: "nat \<Rightarrow> 8 word \<Rightarrow> 8 word list \<Rightarrow> 8 word list" where
  "pack_code k c os =
     (let i = k - k div 8; b = k mod 8;
          os = (if k = 0 then os else os[i - 1 := or (push_bit (8 - b) c) (os ! (i - 1))])
      in if b < 7 then os[i := drop_bit b c] else os)"

lemma pack_code_step:
  assumes "packed n cs os" and "length cs < n" and "unat c < 128"
  shows "packed n (cs @ [c]) (pack_code (length cs) c os)"
proof -
  define k i b where "k = length cs" and "i = k - k div 8" and "b = k mod 8"
  have len: "length os = n - n div 8" and val: "octets_value os = septets_value cs"
    and free: "0 < k \<Longrightarrow> unat (os ! (i - 1)) < 2 ^ (8 - b)" and zero: "\<And>j. j < length os \<Longrightarrow> i \<le> j \<Longrightarrow> os ! j = 0"
    using assms(1) by (auto simp: packed_def k_def i_def b_def Let_def)
  have k128: "2 ^ (8 - b) * 256 ^ (i - 1) = (128 :: nat) ^ k" if "0 < k"
    using septet_position [OF that] by (simp add: i_def b_def)
  define p where "p = (if k = 0 then os else os[i - 1 := or (push_bit (8 - b) c) (os ! (i - 1))])"
  have b8: "b \<le> 7" by (simp add: b_def)
  have last: "i - 1 < length os" "0 < i" if "0 < k" 
    using octets_mono [of k n] assms(2) position_pos [OF that] that by (auto simp: len i_def k_def)
  have pval: "octets_value p + unat (drop_bit b c) * 256 ^ i = octets_value os + unat c * 128 ^ k"
  proof (cases "k = 0")
    case False
    then have k: "0 < k" by simp
    from octets_value_update [OF last(1) [OF k], of "or (push_bit (8 - b) c) (os ! (i - 1))"]
    have "octets_value p + unat (os ! (i - 1)) * 256 ^ (i - 1) =
        octets_value os + unat (or (push_bit (8 - b) c) (os ! (i - 1))) * 256 ^ (i - 1)" using k by (simp add: p_def)
    moreover have "256 ^ i = 256 * (256 :: nat) ^ (i - 1)" using last(2) [OF k] by (cases i) simp_all
    ultimately show ?thesis
      using arg_cong [OF pack_septet [OF _ free [OF k], of c], of "\<lambda>x. x * 256 ^ (i - 1)"] b8 k128 [OF k]
      by (simp add: algebra_simps)
  qed (simp add: p_def i_def b_def k_def)
  have sep: "septets_value (cs @ [c]) = octets_value os + unat c * 128 ^ k" by (simp add: horner_sum_snoc val k_def)
  show ?thesis
  proof (cases "b = 7")
    case True
    then have "0 < k" by (cases "k = 0") (auto simp: b_def)
    then have "p ! j = 0" if "j < length os" "i \<le> j" for j using zero [OF that] last(2) that by (simp add: p_def)
    moreover have "unat (drop_bit b c) = 0" using assms(3) True by (simp add: unat_drop_bit_8)
    moreover have "unat w < 256" for w :: "8 word" using unsigned_less [of w] by simp
    moreover have "pack_code k c os = p" using True by (simp add: pack_code_def p_def i_def b_def Let_def)
    moreover have "Suc k - Suc k div 8 = i" "Suc k mod 8 = 0" "length (cs @ [c]) = Suc k"
      using True by (simp_all add: octets_Suc i_def b_def mod_Suc k_def)
    moreover have "length p = length os" by (simp add: p_def)
    ultimately show ?thesis using pval sep unfolding packed_def k_def [symmetric] by (simp add: len)
  next
    case False
    with b8 have b7: "b < 7" by simp
    have i: "i < length os" using position_less assms(2) False by (simp add: len i_def b_def k_def)
    have "p ! i = 0" using zero [OF i] last by (cases "k = 0") (simp_all add: p_def)
    with octets_value_update [of i p "drop_bit b c"] i
    have "octets_value (p[i := drop_bit b c]) = octets_value p + unat (drop_bit b c) * 256 ^ i" by (simp add: p_def)
    moreover have "unat (drop_bit b c) < 2 ^ (7 - b)"
      unfolding unat_drop_bit_8 using assms(3) b7 by (intro less_mult_imp_div_less) (simp flip: power_add)
    moreover have "p[i := drop_bit b c] ! j = 0" if "j < length os" "Suc i \<le> j" for j
      using zero [of j] that by (simp add: p_def)
    moreover have "pack_code k c os = p[i := drop_bit b c]" using b7 by (simp add: pack_code_def p_def i_def b_def Let_def)
    moreover have "k - Suc k div 8 = i" using b7 by (simp add: i_def b_def div_Suc mod_Suc)
    moreover have "Suc k - Suc k div 8 = Suc i" "8 - Suc k mod 8 = 7 - b" "length (cs @ [c]) = Suc k"
      using b7 by (simp_all add: octets_Suc i_def b_def mod_Suc k_def)
    moreover have "length p = length os" by (simp add: p_def)
    ultimately show ?thesis using i pval sep unfolding packed_def k_def [symmetric] by (simp add: len)
  qed
qed

lemma gsm7_loop_packed:
  assumes "packed (length cs + length us) cs os"
  shows "\<exists>os'. gsm7_loop lib (cs = []) (int (length cs - length cs div 8)) (length cs mod 8) os us =
      Inr (if \<forall>u \<in> set us. gsm_code lib u \<noteq> None then Some os' else None) \<and>
    ((\<forall>u \<in> set us. gsm_code lib u \<noteq> None) \<longrightarrow>
     packed (length cs + length us) (cs @ map (\<lambda>u. the (gsm_code lib u)) us) os')"
  using assms
proof (induction us arbitrary: cs os)
  case (Cons u us)
  show ?case
  proof (cases "gsm_code lib u")
    case (Some c)
    let ?k = "length cs" and ?n = "length cs + length (u # us)"
    let ?i = "?k - ?k div 8"
    have len: "length os = ?n - ?n div 8" using Cons.prems by (simp add: packed_def Let_def)
    have "packed ?n (cs @ [c]) (pack_code ?k c os)" using pack_code_step [OF Cons.prems] gsm_code_less [OF Some] by simp
    then have pack: "packed (length (cs @ [c]) + length us) (cs @ [c]) (pack_code ?k c os)" by simp
    have last: "0 < ?i \<and> ?i - 1 < length os" if "cs \<noteq> []"
      using octets_mono [of ?k ?n] position_pos [of ?k] that by (auto simp: len)
    have i: "?i < length os" if "?k mod 8 < 7" using position_less [of ?k ?n] that by (simp add: len)
    define i where "i = ?i"
    have pc: "pack_code ?k c os =
        (let os = (if cs = [] then os else os[i - 1 := or (push_bit (8 - ?k mod 8) c) (os ! (i - 1))])
         in if ?k mod 8 < 7 then os[i := drop_bit (?k mod 8) c] else os)" by (simp add: pack_code_def i_def Let_def)
    have "nat (int i - 1) = i - 1" by simp
    then have "gsm7_loop lib (cs = []) (int i) (?k mod 8) os (u # us) =
        gsm7_loop lib False (int (Suc ?k - Suc ?k div 8)) (Suc ?k mod 8) (pack_code ?k c os) us"
      using last i Some unfolding octets_Suc mod_Suc i_def [symmetric] pc
      by (cases "cs = []"; cases "?k mod 8 < 7") (auto simp: octet_at_def set_octet_def Let_def add.commute)
    with Cons.IH [OF pack] Some show ?thesis by (simp add: i_def)
  qed simp
qed simp

lemma Gsm7bitEncode_packed:
  fixes lib body
  defines "units \<equiv> UnicodeString lib (c_str body)"
  assumes "Gsm7bitEncode lib body = Inr encoded" and "encoded \<noteq> []"
  shows "(\<forall>u \<in> set units. gsm_code lib u \<noteq> None) \<and>
    (\<exists>os. encoded = concat (map octet_text os) \<and> length os = length units - length units div 8 \<and>
          octets_value os = septets_value (map (\<lambda>u. the (gsm_code lib u)) units))"
proof -
  have "packed (length ([] :: 8 word list) + length units) [] (replicate (length units - length units div 8) 0)"
    by (simp add: packed_def octets_value_zeros)
  from gsm7_loop_packed [OF this, of lib] assms(2,3) show ?thesis
    by (auto simp: Gsm7bitEncode_def Let_def units_def packed_def split: if_splits)
qed

section \<open>What is sent\<close>

lemma hex_digits_all: "list_all (\<lambda>d. HexCharToInt (''0123456789abcdef'' ! d) = int d) [0..<16]"
  by code_simp

lemma HexCharToInt_digit: "d < 16 \<Longrightarrow> HexCharToInt (''0123456789abcdef'' ! d) = int d"
  using hex_digits_all by (simp only: list_all_iff set_upt atLeastLessThan_iff) simp

lemma setw0_to_hex:
  assumes "n < 256"
  shows "setw0 2 (to_hex (int n)) = [''0123456789abcdef'' ! (n div 16), ''0123456789abcdef'' ! (n mod 16)]"
proof (cases "n < 16")
  case True
  then show ?thesis by (simp add: setw0_def to_hex_def to_base.simps)
next
  case False
  have "n div 16 < 16" using assms by simp
  then show ?thesis
    using assms False by (simp add: setw0_def to_hex_def to_base.simps [of _ _ n] to_base.simps [of _ _ "n div 16"])
qed

lemma hex_octets:
  assumes "n < 256"
  shows "length (setw0 2 (to_hex (int n))) = 2" and "Hex2ToByte (setw0 2 (to_hex (int n))) = int n"
    and "set (setw0 2 (to_hex (int n))) \<subseteq> set ''0123456789abcdef''"
proof -
  have hi: "n div 16 < 16" and lo: "n mod 16 < 16" using assms by simp_all
  have "or (push_bit 4 (int (n div 16))) (int (n mod 16)) = concat_bit 4 (int (n mod 16)) (int (n div 16))"
    by (simp add: concat_bit_def or.commute take_bit_eq_mod)
  also have "\<dots> = int (n mod 16) + 16 * int (n div 16)" by (simp add: concat_bit_eq take_bit_eq_mod push_bit_eq_mult)
  also have "\<dots> = int (n mod 16 + 16 * (n div 16))" by (simp only: of_nat_add of_nat_mult of_nat_numeral)
  also have "\<dots> = int n" by simp
  finally have or: "or (push_bit 4 (int (n div 16))) (int (n mod 16)) = int n" .
  show "length (setw0 2 (to_hex (int n))) = 2" by (simp only: setw0_to_hex [OF assms]) simp
  show "Hex2ToByte (setw0 2 (to_hex (int n))) = int n"
    unfolding Hex2ToByte_def setw0_to_hex [OF assms] Let_def
    by (simp only: nth_Cons_0 nth_Cons_Suc One_nat_def HexCharToInt_digit [OF hi] HexCharToInt_digit [OF lo] or) simp
  show "set (setw0 2 (to_hex (int n))) \<subseteq> set ''0123456789abcdef''"
    using nth_mem [of "n div 16" "''0123456789abcdef''"] nth_mem [of "n mod 16" "''0123456789abcdef''"] hi lo
    by (simp add: setw0_to_hex [OF assms] del: nth_Cons')
qed

lemma octet_text_props: "length (octet_text w) = 2 \<and> set (octet_text w) \<subseteq> set ''0123456789abcdef''"
proof -
  have "unat w < 256" using unsigned_less [of w] by simp
  from hex_octets [OF this] show ?thesis by (simp add: octet_text_def)
qed

lemma length_octets_text: "length (concat (map octet_text os)) = 2 * length os"
  by (induction os) (simp_all add: octet_text_props)

lemma SemiOctets_props:
  "length (SemiOctetsEncode s) = (if odd (length s) then length s + 1 else length s) \<and>
   set (SemiOctetsEncode s) \<subseteq> set s \<union> {CHR ''f''}"
  by (induction s rule: SemiOctetsEncode.induct) auto

text \<open>The number without its plus sign, and the message with the fields of the simulator's decoder\<close>

definition plain_number :: "string \<Rightarrow> string" where
  "plain_number num = (if hd num = CHR ''+'' then drop 1 num else num)"

definition sent_pdu :: "string \<Rightarrow> nat \<Rightarrow> 8 word list \<Rightarrow> pdu_parser" where
  "sent_pdu num n os =
     \<lparr>is_valid_pdu = True, pdu_type = ''01'', message_reference = ''00'',
      originator_address = DecimalToHexString (int (length (plain_number num))) @ ''91'' @ SemiOctetsEncode (plain_number num),
      protocol_id = ''00'', data_code_scheme = ''00'',
      user_data = DecimalToHexString (int n) @ concat (map octet_text os)\<rparr>"

lemma plain_number_props:
  assumes "IsValidE164PhoneNumber num"
  shows "2 \<le> length (plain_number num) \<and> length (plain_number num) \<le> 15 \<and> set (plain_number num) \<subseteq> set ''0123456789''"
proof -
  define d where "d = (if num \<noteq> [] \<and> hd num = CHR ''+'' then tl num else num)"
  have plain: "plain_number num = d" by (cases num) (simp_all add: plain_number_def d_def)
  have d: "d \<noteq> []" "hd d \<in> set ''123456789''" "\<forall>c \<in> set (tl d). c \<in> set ''0123456789''" "1 \<le> length (tl d)" "length (tl d) \<le> 14"
    using assms unfolding IsValidE164PhoneNumber_def Let_def d_def [symmetric] list_all_iff by blast+
  then have "set d \<subseteq> insert (hd d) (set (tl d))" by (cases d) simp_all
  moreover have "set ''123456789'' \<subseteq> set ''0123456789''" by simp
  ultimately have "set d \<subseteq> set ''0123456789''" using d(2,3) by blast
  then show ?thesis using d(1,4,5) unfolding plain by (cases d) simp_all
qed

lemma sent_pdu_wf:
  assumes "IsValidE164PhoneNumber num" and "n \<le> 160" and "length os = n - n div 8"
  shows "wf_pdu (sent_pdu num n os)"
proof -
  let ?num = "plain_number num"
  have num: "length ?num < 256" "n < 256" using plain_number_props [OF assms(1)] assms(2) by auto
  note len = hex_octets(1,2) [OF num(1)] and ulen = hex_octets(1,2) [OF num(2)]
  have "int (2 + 2 * (n - n div 8)) = int n * 2 + 2 - int n sdiv 8 * 2"
  proof -
    have "n div 8 \<le> n" by simp
    then show ?thesis by (simp add: sdiv_nonneg zdiv_int of_nat_diff)
  qed
  then show ?thesis
    using len ulen SemiOctets_props [of ?num]
    by (auto simp: wf_pdu_def sent_pdu_def DecimalToHexString_def oa_digits_def ud_size_def Let_def length_octets_text assms(3))
qed

lemma Build_sent:
  assumes "Build lib \<lparr>builder_user_data = body, sender_number = num\<rparr> = Inr pdu" and "pdu \<noteq> []"
  defines "units \<equiv> UnicodeString lib (c_str body)"
  shows "IsValidE164PhoneNumber num \<and> length units \<le> 160 \<and> (\<forall>u \<in> set units. gsm_code lib u \<noteq> None) \<and>
    (\<exists>os. pdu = pdu_text (sent_pdu num (length units) os) \<and> length os = length units - length units div 8 \<and>
          octets_value os = septets_value (map (\<lambda>u. the (gsm_code lib u)) units))"
proof -
  from assms(1,2) obtain encoded where "IsValidE164PhoneNumber num" "length units \<le> 160"
    and enc: "Gsm7bitEncode lib body = Inr encoded" "encoded \<noteq> []"
    and pdu: "pdu = ''000100'' @ DecimalToHexString (int (length (plain_number num))) @ ''91'' @
        SemiOctetsEncode (plain_number num) @ ''00'' @ ''00'' @ DecimalToHexString (int (length units)) @ encoded"
    by (auto simp: Build_def Let_def plain_number_def units_def rbind_eq_Inr split: if_splits)
  with Gsm7bitEncode_packed [OF enc] show ?thesis
    by (auto simp: units_def pdu_text_def sent_pdu_def kWithoutServiceCenterAddress_def)
qed

section \<open>From the command line to the radio interface\<close>

lemma sent_text_chars:
  assumes "IsValidE164PhoneNumber num" and "n \<le> 160" and "c \<in> {CHR 0x0A, CHR 0x0D}"
  shows "c \<notin> set (remote_sms_text (pdu_text (sent_pdu num n os)))"
proof -
  define H where "H = set ''0123456789abcdef''"
  have num: "length (plain_number num) < 256" "n < 256" using plain_number_props [OF assms(1)] assms(2) by auto
  have "set ''0123456789'' \<subseteq> H" "CHR ''f'' \<in> H" by (simp_all add: H_def)
  then have "set (SemiOctetsEncode (plain_number num)) \<subseteq> H"
    using SemiOctets_props [of "plain_number num"] plain_number_props [OF assms(1)] by (blast dest: subset_trans)
  moreover have "set (concat (map octet_text os)) \<subseteq> H"
    using octet_text_props [folded H_def] by (simp add: UN_subset_iff)
  moreover have c: "c \<notin> H" using assms(3) by (auto simp: H_def)
  ultimately have "c \<notin> set (SemiOctetsEncode (plain_number num))" "c \<notin> set (concat (map octet_text os))" by blast+
  moreover have "c \<notin> set (DecimalToHexString (int (length (plain_number num))))" "c \<notin> set (DecimalToHexString (int n))"
    using hex_octets(3) [OF num(1), folded H_def] hex_octets(3) [OF num(2), folded H_def] c
    unfolding DecimalToHexString_def by blast+
  ultimately show ?thesis
    using assms(3) unfolding remote_sms_text_def pdu_text_def sent_pdu_def kWithoutServiceCenterAddress_def pdu_parser.simps set_append Un_iff
    by (elim insertE emptyE) simp_all
qed

text \<open>The modem tells the first client of a message that another device sends.\<close>

lemma remote_sms_command:
  assumes "\<not> modem_waiting m" and "wf_pdu q"
  shows "modem_DispatchCommand env next_id c (remote_sms_text (pdu_text q)) m =
    Inr (m, [Unsolicited ''+CMT: 0'', Unsolicited (CreatePDU (pdu_clock env) q)])"
proof -
  let ?cmd = "remote_sms_text (pdu_text q)"
  have "\<not> ambiguous ?cmd" by (simp add: ambiguous_def starts_with_def remote_sms_text_def)
  moreover have key: "(PARTIAL_MATCH, ''+REMOTESMS'') \<in> set (service_keys ! 4)" by (simp add: service_keys_def)
  moreover have "key_matches (PARTIAL_MATCH, ''+REMOTESMS'') (drop 2 ?cmd)" by (simp add: remote_sms_text_def starts_with_def)
  ultimately have "first_service (modem_services env next_id m) c ?cmd m = (modem_services env next_id m ! 4) c ?cmd m"
    by (intro first_service_at [OF _ key]) (simp_all add: remote_sms_text_def)
  also have "\<dots> = Inr (Some (m, [Unsolicited ''+CMT: 0'', Unsolicited (CreatePDU (pdu_clock env) q)]))"
    using HandleReceiveRemoteSMS_text [OF assms(2), of "pdu_clock env" c "m_sms m"]
    by (simp add: modem_services_def offer_def sms_handlers_def Compare_partial Compare_full starts_with_def remote_sms_text_def)
  finally show ?thesis
    using assms(1) by (simp add: modem_DispatchCommand_def handle_command_def modem_waiting_def)
qed

text \<open>A connection that sends one command line: the command is dispatched and the client is added.\<close>

lemma SetRemoteClient_command:
  assumes "replaces_newlines repl" and "cmd \<noteq> []" and "CHR 0x0A \<notin> set cmd" and "CHR 0x0D \<notin> set cmd"
    and "\<not> IsWaitingSmsPdu vm (modem mon)"
    and "dispatch vm \<lparr>client_id = next_client_id mon, client_type = REMOTE\<rparr> cmd (mon\<lparr>next_client_id := next_client_id mon + 1\<rparr>) = Inr mon'"
  shows "SetRemoteClient vm repl (cmd @ [CHR 0x0D]) again mon =
    Inr (mon'\<lparr>remote_clients := remote_clients mon' @ [Client (next_client_id mon) REMOTE]\<rparr>)"
proof -
  have "repl (cmd @ [CHR 0x0D]) = cmd @ [CHR 0x0D]"
    using assms(1,3) unfolding replaces_newlines_def by (auto intro: map_idI)
  moreover have "split_commands vm h [] mon = Inr ([], mon)" for h mon
    by (simp add: split_commands.simps find_char_def)
  ultimately show ?thesis
    using assms(2,4-6)
    by (simp add: SetRemoteClient_def ReadCommand_def Client_def Let_def terminator_def
        split_commands.simps [of vm _ "cmd @ t" for t])
qed

lemma last_in: "s \<noteq> [] \<Longrightarrow> c \<notin> set s \<Longrightarrow> last s \<noteq> c"
  by (metis last_in_set)


text \<open>A library for texts in ASCII\<close>

definition ascii :: icu where
  "ascii = \<lparr>UnicodeString = map of_char, strToUTF8 = (\<lambda>u. Some [char_of (unat u)])\<rparr>"

lemma sample_Send:
  "Send ascii True (\<lambda>s. int (length s)) ''Hi'' ''+16501234567'' 0 =
   Inr (True, Some (''REM0AT+REMOTESMS=0001000b916105214365f7000002c834'' @ [CHR 0x0D]))"
  by code_simp


end
