(* ===== verification/Spec2Isabelle.thy ===== *)
theory Spec2Isabelle
  imports Disjoint_Range_Set Mkbootfs Flag_Parser Send_Sms
begin

text \<open>
  Verification library for the host tools of Cuttlefish, the virtual Android device.  Paths below are relative to
  \<open>src/base/cvd/cuttlefish\<close>, except \<open>mkbootfs\<close>, which is in \<open>src/base/cvd\<close>.

  \<^bold>\<open>The program and the parts that are modelled.\<close>  The repository holds the tools that build, start and serve virtual
  devices.  Four groups of them are modelled.

  \<^enum> The input and output library \<open>io\<close>: readers and writers with short counts, views and concatenations of readers, an
    in-memory file, the ranges of a file that are already present, and a reader of CPIO archives.  \<open>mkbootfs\<close> writes the
    archives that this reader opens.
  \<^enum> The modem simulator \<open>host/commands/modem_simulator\<close>.  A channel monitor cuts the bytes of its clients into AT
    commands and hands each to the modem, which offers it to eight services in turn.  A service answers the client, sends to
    every radio interface or to another device, asks another service, or posts a callback to the looper, the thread that
    runs it later.
  \<^enum> \<open>host/commands/cvd_send_sms\<close>, which builds a message from a text and sends it to a modem simulator.
  \<^enum> The command line flags \<open>flag_parser\<close> that the tools share.

  \<^bold>\<open>Conventions.\<close>  A C++ class is a \<open>record\<close> or a \<open>datatype\<close>, a method a function from the object to its result and the
  new object.  \<open>result\<close> is \<open>Result<T>\<close>; its error says whether it was returned, ended the process, was thrown, or
  whether the C++ has no defined meaning there.  Unsigned integers of a fixed width are words.  \<open>int\<close> is \<open>int\<close>: where a
  value can leave its range the conversion is written out, and signed overflow is undefined behaviour.  A member that the
  source leaves uninitialised is an option.  Containers that are ordered by key are ordered lists.

  Code that is not under \<open>src\<close> is an argument: Abseil, fmt, protobuf, tinyxml2, ICU, the operating system and the clocks.
  What is relied on of it is a named predicate on the argument, such as \<open>prefix_laws\<close>, and wherever a property has such a
  hypothesis its witness gives an implementation that satisfies it.

  \<^bold>\<open>The theories, from the ground up.\<close>

  \<^item> \<open>Cf_Prelude\<close>: results, words, and \<open>std::set\<close> and \<open>std::map\<close> as ordered lists.  \<open>C_Text\<close>: \<open>strtok\<close>, \<open>getline\<close>,
    \<open>strtol\<close> and \<open>sscanf\<close>.
  \<^item> \<open>Disjoint_Range_Set\<close>: \<open>io/disjoint_range_set.cc\<close> and \<open>io/serialize_disjoint_range_set.cc\<close>.  The ranges stay ordered,
    disjoint and apart, each operation is the set operation on the numbers they cover, the serialized form comes back.
  \<^item> \<open>Io_Core\<close>: the loops of \<open>io/read_exact.cc\<close>, \<open>write_exact.cc\<close>, \<open>copy.cc\<close>, \<open>string.cc\<close>, \<open>length.cc\<close> and
    \<open>fake_pread_pwrite.cc\<close> against the interfaces of \<open>io/io.h\<close>.  The interfaces are the locales \<open>random_access\<close>,
    \<open>seq_reader\<close>, \<open>seq_writer\<close>, \<open>copying\<close>, \<open>seekable\<close> and \<open>seekable_reader\<close>; the loops are proved correct inside them.
  \<^item> \<open>Io_Readers\<close>: \<open>io/in_memory.cc\<close>, \<open>fake_seek.cc\<close>, \<open>read_window_view.cc\<close> and \<open>concat.cc\<close>.  The locales of \<open>Io_Core\<close> are
    interpreted on every tree of readers and on the in-memory file, which refines an abstract file.
  \<^item> \<open>Cpio\<close>: \<open>io/cpio.cc\<close>.  The three formats share the locale \<open>cpio_format\<close>, interpreted three times.  Opening any bytes
    returns, and the entries of an opened archive lie inside it.
  \<^item> \<open>Mkbootfs\<close>: \<open>mkbootfs/mkbootfs.cpp\<close>, from the options to the bytes, and what \<open>Cpio\<close> reads back from them.
  \<^item> \<open>Flag_Parser\<close>: \<open>flag_parser/flag.cpp\<close> and \<open>gflags_compat.cpp\<close>.  The in-place loop over the arguments is a recursion,
    matching is a lookup by name, printed values are parsed back.
  \<^item> \<open>Modem_Text\<close>: \<open>command_parser.cpp\<close> and \<open>std::string\<close>.  \<open>Modem_Pdu\<close>: \<open>pdu_parser.cpp\<close>, with the round trip of its fields.
  \<^item> \<open>Modem_Looper\<close>: \<open>thread_looper.cpp\<close>.  What its users rely on is the locale \<open>timer_queue\<close>: no event runs twice, none
    runs after it was cancelled, and all that are due run in order.
  \<^item> \<open>Modem_Service\<close>: \<open>modem_service.cpp\<close>, the handlers and the events by which a service acts outside itself.
  \<^item> \<open>Modem_Call\<close>, \<open>Modem_Sms\<close>, \<open>Modem_Data\<close>, \<open>Modem_Sup\<close>, \<open>Modem_Misc\<close>, \<open>Modem_Network\<close>, \<open>Modem_Stk\<close> and
    \<open>Modem_Sim\<close>: the services, in the files \<open>call_service.cpp\<close> to \<open>sim_service.cpp\<close>.  The call, message and network
    services are transition systems with an invariant by rule induction.  \<open>Modem_Sim_Lock\<close> has the safety of the codes,
    \<open>Modem_Sim_Profile\<close> the phone number and the profile that is saved and loaded.
  \<^item> \<open>Modem_Channel\<close>: \<open>channel_monitor.cpp\<close> and \<open>client.cc\<close>.  The locale \<open>channel_invariant\<close> gives what every round of the
    loop keeps; \<open>modem_contract\<close> is what the channels rely on in the modem behind them.
  \<^item> \<open>Modem_Simulator\<close>: \<open>modem_simulator.cpp\<close>.  It carries out the events of a service in their order, states the
    invariant of the whole modem, and interprets \<open>modem_contract\<close>.
  \<^item> \<open>Modem_System\<close>: what holds of services, looper and channels together, in every reachable modem.
  \<^item> \<open>Send_Sms\<close>: \<open>cvd_send_sms\<close> and the server loop of \<open>modem_simulator/main.cpp\<close>, up to the bytes that the radio interface
    of the device gets.

  \<^bold>\<open>Loops.\<close>  There is no fuel.  Loops are recursive functions with a measure, except the parse loops of \<open>Cpio\<close>, \<open>Copy\<close>
  and \<open>read_to_string\<close>, which depend on what a virtual method returns: these are \<open>partial_function\<close>s in the option
  monad, and it is proved that they return.  The one numeric bound is \<open>vector_max_size\<close>, the size that a
  \<open>std::vector<char>\<close> can have.  The properties of the looper hold while its 32-bit serial numbers last.

  \<^bold>\<open>Concurrency.\<close>  The looper and the channel monitor are two threads.  The queue of the looper has a mutex, and each
  critical section under it is a step.  The services have none: a round of the channel monitor and a callback are taken as
  steps that do not overlap, and the properties of reachable modems hold for every sequence of them.  Races between the two
  threads inside a service, waiting, waking and the creation of threads are not modelled.

  \<^bold>\<open>Not modelled.\<close>  \<open>InMemoryFilesystem\<close>, \<open>SparseCopy\<close>, \<open>lazily_loaded_file.cc\<close>, \<open>chroot.cc\<close> and \<open>lz4_legacy.cc\<close> of \<open>io\<close>,
  which pass calls on to a file system, a download or a compression library; the start-up of the modem simulator and the
  sockets; logging and the text of error messages.  Of the rest of the repository: the commands \<open>cvd\<close>, \<open>assemble_cvd\<close> and
  \<open>run_cvd\<close> start processes and read configurations through jsoncpp and protobuf; the device configuration is getters over
  a JSON document; the managers of virtual machines assemble command lines; the web front end, \<open>secure_env\<close>, the sandboxer,
  the graphics detector, the media devices and the build client are callbacks of third-party libraries; \<open>adb\<close>,
  \<open>fastboot\<close>, \<open>fec\<close>, \<open>libext4_utils\<close>, \<open>libbase\<close>, \<open>teeui\<close> and the f2fs tools are copies of other projects; the
  orchestrator is a web server in Go.
\<close>

end
